(* ===== verification/Prelude.thy ===== *)
theory Prelude
  imports Main "HOL-Library.Word" "HOL-Library.Monad_Syntax"
begin

text \<open>
  Shared vocabulary of the crust development: machine integers, result types, the
  rule collections, and the generic facts about lists, maps and finite cardinalities that
  several components use.

  A function of the source that can panic returns an \<open>option\<close> here and \<open>None\<close> is the
  panic of the event-loop thread; a function of the source that returns \<open>Result<T, E>\<close>
  returns a sum \<open>'e + 'a\<close> with \<open>Inl\<close> for \<open>Err\<close>.
\<close>

section \<open>Types and rule collections\<close>

type_synonym byte = "8 word"
type_synonym u16 = "16 word"
type_synonym u32 = "32 word"
type_synonym usize = "64 word"

type_synonym token = nat
type_synonym timeout = nat

text \<open>
  \<open>codec\<close> collects the facts on byte strings, \<open>world_simps\<close> the frame equations of the
  primitive operations on the event loop's state, \<open>acct\<close> the rules that move the
  handshake accounting from one state of the system to the next.
\<close>

named_theorems codec
named_theorems world_simps
named_theorems acct

section \<open>Little-endian 32-bit integers (the byteorder calls of socket.rs)\<close>

text \<open>\<open>write_u32::<LittleEndian>(n as u32)\<close>: \<open>as u32\<close> keeps the low 32 bits.\<close>

definition write_u32_le :: "nat \<Rightarrow> byte list" where
  "write_u32_le n =
     [of_nat n, of_nat (n div 2 ^ 8), of_nat (n div 2 ^ 16), of_nat (n div 2 ^ 24)]"

text \<open>\<open>read_u32::<LittleEndian>()\<close> on a cursor that holds at least four bytes.\<close>

definition read_u32_le :: "byte list \<Rightarrow> nat" where
  "read_u32_le bs =
     unat (bs ! 0) + 2 ^ 8 * unat (bs ! 1) + 2 ^ 16 * unat (bs ! 2) + 2 ^ 24 * unat (bs ! 3)"

lemma length_write_u32_le [simp, codec]: "length (write_u32_le n) = 4"
  by (simp add: write_u32_le_def)

lemma le32_aux:
  fixes n r a s b t c :: nat
  assumes "n = r + 256 * a" "a = s + 256 * b" "b = t + 256 * c"
  shows "r + 256 * s + 65536 * t + 16777216 * c = n"
  using assms by linarith

lemma nat_le32_digits:
  fixes n :: nat
  assumes "n < 4294967296"
  shows "n mod 256 + 256 * (n div 256 mod 256) + 65536 * (n div 65536 mod 256)
       + 16777216 * (n div 16777216 mod 256) = n"
proof -
  have digits: "k = k mod 256 + 256 * (k div 256)" for k :: nat
    by simp
  have d: "n div 65536 = n div 256 div 256" "n div 16777216 = n div 256 div 256 div 256"
    by (simp_all flip: div_mult2_eq)
  have "n div 256 div 256 div 256 < 256"
    using assms by (simp add: div_less_iff_less_mult)
  then have top: "n div 256 div 256 div 256 mod 256 = n div 256 div 256 div 256"
    by (rule mod_less)
  show ?thesis
    unfolding d top by (rule le32_aux [OF digits digits digits])
qed

lemma read_write_u32_le [codec]:
  assumes "n < 2 ^ 32"
  shows "read_u32_le (write_u32_le n @ rest) = n"
proof -
  have u: "unat (of_nat k :: byte) = k mod 256" for k
    by (simp add: unat_of_nat)
  have "read_u32_le (write_u32_le n @ rest) = n mod 256 + 256 * (n div 256 mod 256)
      + 65536 * (n div 65536 mod 256) + 16777216 * (n div 16777216 mod 256)"
    by (simp add: read_u32_le_def write_u32_le_def u nth_Cons')
  also have "\<dots> = n"
    by (rule nat_le32_digits) (use assms in simp)
  finally show ?thesis .
qed

lemma read_u32_le_bound [codec]: "read_u32_le bs < 2 ^ 32"
proof -
  have b: "unat (x :: byte) < 256" for x
    using unsigned_less [of x, where 'a = nat] by simp
  show ?thesis
    unfolding read_u32_le_def
    using b [of "bs ! 0"] b [of "bs ! 1"] b [of "bs ! 2"] b [of "bs ! 3"] by simp
qed

section \<open>Sets that the source iterates: a distinct list in iteration order\<close>

text \<open>
  The source's \<open>HashSet<Token>\<close> fields are lists without duplicates; the order of the list is
  the iteration order, which Rust leaves open, so a statement about every value of such a
  field covers every order.
\<close>

definition hs_insert :: "'a \<Rightarrow> 'a list \<Rightarrow> 'a list" where
  "hs_insert x xs = (if x \<in> set xs then xs else xs @ [x])"

definition hs_remove :: "'a \<Rightarrow> 'a list \<Rightarrow> 'a list" where
  "hs_remove x xs = removeAll x xs"

lemma set_hs_insert [simp]: "set (hs_insert x xs) = insert x (set xs)"
  by (auto simp: hs_insert_def)

lemma set_hs_remove [simp]: "set (hs_remove x xs) = set xs - {x}"
  by (simp add: hs_remove_def)

lemma distinct_hs_insert [simp]: "distinct xs \<Longrightarrow> distinct (hs_insert x xs)"
  by (simp add: hs_insert_def)

lemma distinct_hs_remove [simp]: "distinct xs \<Longrightarrow> distinct (hs_remove x xs)"
  by (simp add: hs_remove_def distinct_removeAll)

lemma hs_insert_not_Nil [simp]: "hs_insert x xs \<noteq> []"
  by (auto simp: hs_insert_def)

section \<open>Answers of the outside world\<close>

text \<open>
  Calls into code outside the repository (the kernel, mio, the file system) are answered
  from a list of answers that is part of the modelled state; a theorem about every state is a
  theorem about every behaviour of that code. When the list is used up, the default answer is given.
\<close>

fun pop_answer :: "'a \<Rightarrow> 'a list \<Rightarrow> 'a \<times> 'a list" where
  "pop_answer d [] = (d, [])"
| "pop_answer d (x # xs) = (x, xs)"

section \<open>Counting keys of a finite map\<close>

definition keys_where :: "('v \<Rightarrow> bool) \<Rightarrow> ('k \<rightharpoonup> 'v) \<Rightarrow> 'k set" where
  "keys_where P m = {k. \<exists>v. m k = Some v \<and> P v}"

definition count_where :: "('v \<Rightarrow> bool) \<Rightarrow> ('k \<rightharpoonup> 'v) \<Rightarrow> nat" where
  "count_where P m = card (keys_where P m)"

lemma finite_keys_where: "finite (dom m) \<Longrightarrow> finite (keys_where P m)"
  by (rule finite_subset [of _ "dom m"]) (auto simp: keys_where_def)

lemma keys_where_upd:
  "keys_where P (m(k \<mapsto> v)) = (if P v then insert k (keys_where P m) else keys_where P m - {k})"
  by (auto simp: keys_where_def)

lemma keys_where_del: "keys_where P (m(k := None)) = keys_where P m - {k}"
  by (auto simp: keys_where_def)

lemma keys_where_mem: "k \<in> keys_where P m \<longleftrightarrow> (\<exists>v. m k = Some v \<and> P v)"
  by (simp add: keys_where_def)

lemma count_where_empty [simp]: "count_where P Map.empty = 0"
  by (simp add: count_where_def keys_where_def)

lemma count_where_insert:
  assumes "finite (dom m)" and "m k = None"
  shows "count_where P (m(k \<mapsto> v)) = count_where P m + (if P v then 1 else 0)"
  using assms finite_keys_where [OF assms(1), of P]
  by (simp add: count_where_def keys_where_upd keys_where_mem)

lemma count_where_delete:
  assumes "finite (dom m)" and "m k = Some v"
  shows "count_where P m = count_where P (m(k := None)) + (if P v then 1 else 0)"
proof (cases "P v")
  case True
  then have "k \<in> keys_where P m"
    using assms(2) by (simp add: keys_where_mem)
  then show ?thesis
    using True card.remove [OF finite_keys_where [OF assms(1), of P], of k]
    by (simp add: count_where_def keys_where_del)
next
  case False
  then have "k \<notin> keys_where P m"
    using assms(2) by (simp add: keys_where_mem)
  then show ?thesis
    using False by (simp add: count_where_def keys_where_del)
qed

lemma count_where_replace:
  assumes "finite (dom m)" and "m k = Some v"
  shows "count_where P (m(k \<mapsto> v')) + (if P v then 1 else 0)
       = count_where P m + (if P v' then 1 else 0)"
proof -
  have "count_where P (m(k \<mapsto> v')) = count_where P (m(k := None)) + (if P v' then 1 else 0)"
    using count_where_insert [of "m(k := None)" k P v'] assms(1) by simp
  with count_where_delete [OF assms, of P] show ?thesis
    by simp
qed

lemma count_where_pos:
  assumes "finite (dom m)" and "m k = Some v" and "P v"
  shows "0 < count_where P m"
  using count_where_delete [OF assms(1,2), of P] assms(3) by simp

end
