(* ===== verification/Net_Addr.thy ===== *)
theory Net_Addr
  imports Prelude
begin

text \<open>
  Addresses (\<open>std::net\<close>), readiness sets and I/O errors as the sources use them, and the address
  classification of \<open>src/nat/util.rs\<close>. The predicates \<open>is_loopback\<close>, \<open>is_private\<close>, and so on
  are the ones of the Rust standard library, on octets and segments.
\<close>

section \<open>Addresses\<close>

datatype ipv4_addr = Ipv4Addr byte byte byte byte

datatype ipv6_addr = Ipv6Addr u16 u16 u16 u16 u16 u16 u16 u16

datatype ip_addr = V4 ipv4_addr | V6 ipv6_addr

record socket_addr =
  sa_ip :: ip_addr
  sa_port :: u16

definition set_port :: "u16 \<Rightarrow> socket_addr \<Rightarrow> socket_addr" where
  "set_port p s = s\<lparr>sa_port := p\<rparr>"

fun ipv4_octets :: "ipv4_addr \<Rightarrow> byte list" where
  "ipv4_octets (Ipv4Addr a b c d) = [a, b, c, d]"

fun ipv6_segments :: "ipv6_addr \<Rightarrow> u16 list" where
  "ipv6_segments (Ipv6Addr a b c d e f g h) = [a, b, c, d, e, f, g, h]"

fun ipv4_is_loopback :: "ipv4_addr \<Rightarrow> bool" where
  "ipv4_is_loopback (Ipv4Addr a b c d) = (a = 127)"

fun ipv4_is_private :: "ipv4_addr \<Rightarrow> bool" where
  "ipv4_is_private (Ipv4Addr a b c d) =
     (a = 10 \<or> (a = 172 \<and> 16 \<le> b \<and> b \<le> 31) \<or> (a = 192 \<and> b = 168))"

fun ipv4_is_link_local :: "ipv4_addr \<Rightarrow> bool" where
  "ipv4_is_link_local (Ipv4Addr a b c d) = (a = 169 \<and> b = 254)"

fun ipv4_is_multicast :: "ipv4_addr \<Rightarrow> bool" where
  "ipv4_is_multicast (Ipv4Addr a b c d) = (224 \<le> a \<and> a \<le> 239)"

fun ipv4_is_broadcast :: "ipv4_addr \<Rightarrow> bool" where
  "ipv4_is_broadcast (Ipv4Addr a b c d) = (a = 255 \<and> b = 255 \<and> c = 255 \<and> d = 255)"

fun ipv4_is_documentation :: "ipv4_addr \<Rightarrow> bool" where
  "ipv4_is_documentation (Ipv4Addr a b c d) =
     ((a = 192 \<and> b = 0 \<and> c = 2) \<or> (a = 198 \<and> b = 51 \<and> c = 100) \<or> (a = 203 \<and> b = 0 \<and> c = 113))"

definition ipv6_is_loopback :: "ipv6_addr \<Rightarrow> bool" where
  "ipv6_is_loopback a = (ipv6_segments a = [0, 0, 0, 0, 0, 0, 0, 1])"

definition ipv6_is_unspecified :: "ipv6_addr \<Rightarrow> bool" where
  "ipv6_is_unspecified a = (ipv6_segments a = [0, 0, 0, 0, 0, 0, 0, 0])"

definition ipv4_addr_is_global :: "ipv4_addr \<Rightarrow> bool" where
  "ipv4_addr_is_global ipv4 =
     (\<not> (ipv4_is_loopback ipv4 \<or> ipv4_is_private ipv4 \<or> ipv4_is_link_local ipv4 \<or>
         ipv4_is_multicast ipv4 \<or> ipv4_is_broadcast ipv4 \<or> ipv4_is_documentation ipv4 \<or>
         ipv4_octets ipv4 = [0, 0, 0, 0]))"

definition ipv6_addr_is_global :: "ipv6_addr \<Rightarrow> bool" where
  "ipv6_addr_is_global ipv6 = (\<not> (ipv6_is_loopback ipv6 \<or> ipv6_is_unspecified ipv6))"

fun ip_addr_is_global :: "ip_addr \<Rightarrow> bool" where
  "ip_addr_is_global (V4 addr_v4) = ipv4_addr_is_global addr_v4"
| "ip_addr_is_global (V6 addr_v6) = ipv6_addr_is_global addr_v6"

section \<open>Readiness and I/O errors\<close>

record ready =
  is_readable :: bool
  is_writable :: bool
  is_error :: bool
  is_hup :: bool

text \<open>The interest sets the sources build with \<open>|\<close>.\<close>

definition ready_erh :: ready where
  "ready_erh = \<lparr>is_readable = True, is_writable = False, is_error = True, is_hup = True\<rparr>"

definition ready_erhw :: ready where
  "ready_erhw = \<lparr>is_readable = True, is_writable = True, is_error = True, is_hup = True\<rparr>"

definition ready_ehw :: ready where
  "ready_ehw = \<lparr>is_readable = False, is_writable = True, is_error = True, is_hup = True\<rparr>"

text \<open>\<open>std::io::Error\<close>, by the kinds the sources tell apart.\<close>

datatype io_error = WouldBlock | Interrupted | OtherIo nat

end
