(* ===== verification/Errors.thy ===== *)
theory Errors
  imports Net_Addr
begin

text \<open>
  The error types of \<open>src/common/error.rs\<close>, \<open>src/nat/error.rs\<close>, \<open>src/service_discovery/errors.rs\<close>
  and \<open>src/main/error.rs\<close>, one constructor per variant. Payloads that are opaque values of other
  crates (a serialisation error, a channel error, a config-file error) are dropped; the payloads
  the code inspects or nests are kept.
\<close>

datatype common_error =
    CommonIo io_error
  | UninitialisedSocket
  | PayloadSizeProhibitive
  | CommonSerialisation
  | CommonTimer
  | ZeroByteRead
  | CommonCoreMsgTx

datatype nat_error =
    NatIo io_error
  | NatCommon common_error

datatype sd_error =
    SdIo io_error
  | SdAddrParse
  | SdSerialisation

datatype crust_error =
    ChannelRecv
  | ConfigFileHandler
  | CrustIo io_error
  | ServiceDiscNotEnabled
  | ServiceDisc sd_error
  | InsufficientConnectionInfo
  | Nat nat_error
  | Common common_error
  | CrustCoreMsgTx
  | PeerNotFound
  | CrustSerialisation
  | RequestedConnectToSelf
  | ListenerNotIntialised

end
