(* ===== verification/Socket.thy ===== *)
theory Socket
  imports Errors
begin

text \<open>
  \<open>src/common/socket.rs\<close>: the length-prefixed, prioritised message socket over a
  non-blocking TCP stream. The stream is the kernel's and mio's: a \<open>tcp_stream\<close> holds the answers
  its next \<open>read\<close>, \<open>write\<close> and poll-registration calls give, and records the bytes the kernel has
  accepted and the current registration. The serialiser and the deserialiser are parameters
  (\<open>ser\<close>, \<open>des\<close>); \<open>des\<close> reads one value from the front of its input, as
  \<open>deserialise_from\<close> does from its cursor. Instants are nanoseconds.
\<close>

section \<open>The TCP stream\<close>

record tcp_stream =
  ts_rx :: "(io_error + byte list) list"
  ts_tx :: "(io_error + nat) list"
  ts_poll :: "io_error option list"
  ts_sent :: "byte list"
  ts_peer :: "io_error + socket_addr"
  ts_reg :: "(token \<times> ready) option"

definition READ_WINDOW :: nat where
  "READ_WINDOW = 65536"

text \<open>One \<open>read\<close> call with a buffer of 65536 bytes; no bytes is the end of the stream.\<close>

definition tcp_read :: "tcp_stream \<Rightarrow> (io_error + byte list) \<times> tcp_stream" where
  "tcp_read st =
     (case ts_rx st of
        [] \<Rightarrow> (Inl WouldBlock, st)
      | Inl e # r \<Rightarrow> (Inl e, st\<lparr>ts_rx := r\<rparr>)
      | Inr bs # r \<Rightarrow>
          if length bs \<le> READ_WINDOW then (Inr bs, st\<lparr>ts_rx := r\<rparr>)
          else (Inr (take READ_WINDOW bs), st\<lparr>ts_rx := Inr (drop READ_WINDOW bs) # r\<rparr>))"

text \<open>One \<open>write\<close> call: the kernel accepts some prefix of the data, or refuses.\<close>

definition tcp_write :: "byte list \<Rightarrow> tcp_stream \<Rightarrow> (io_error + nat) \<times> tcp_stream" where
  "tcp_write data st =
     (case pop_answer (Inr (length data)) (ts_tx st) of
        (Inl e, r) \<Rightarrow> (Inl e, st\<lparr>ts_tx := r\<rparr>)
      | (Inr n, r) \<Rightarrow>
          (Inr (min n (length data)),
           st\<lparr>ts_tx := r, ts_sent := ts_sent st @ take n data\<rparr>))"

text \<open>\<open>Evented::register\<close> and \<open>reregister\<close> of a stream, then \<open>deregister\<close>.\<close>

definition tcp_register :: "token \<Rightarrow> ready \<Rightarrow> tcp_stream \<Rightarrow> io_error option \<times> tcp_stream" where
  "tcp_register tok kind st =
     (case pop_answer None (ts_poll st) of
        (None, r) \<Rightarrow> (None, st\<lparr>ts_poll := r, ts_reg := Some (tok, kind)\<rparr>)
      | (Some e, r) \<Rightarrow> (Some e, st\<lparr>ts_poll := r\<rparr>))"

definition tcp_deregister :: "tcp_stream \<Rightarrow> io_error option \<times> tcp_stream" where
  "tcp_deregister st =
     (case pop_answer None (ts_poll st) of
        (None, r) \<Rightarrow> (None, st\<lparr>ts_poll := r, ts_reg := None\<rparr>)
      | (Some e, r) \<Rightarrow> (Some e, st\<lparr>ts_poll := r\<rparr>))"

section \<open>The socket\<close>

type_synonym priority = byte
type_synonym msg_queue = "(nat \<times> byte list) list"
type_synonym write_queue = "(priority \<times> msg_queue) list"

definition MAX_MSG_AGE_SECS :: nat where
  "MAX_MSG_AGE_SECS = 60"

definition MSG_DROP_PRIORITY :: priority where
  "MSG_DROP_PRIORITY = 2"

definition MAX_PAYLOAD_SIZE :: nat where
  "MAX_PAYLOAD_SIZE = 2 * 1024 * 1024"

text \<open>The \<open>BTreeMap\<close> of queues is an association list in increasing key order.\<close>

record sock_inner =
  si_stream :: tcp_stream
  si_read_buffer :: "byte list"
  si_read_len :: nat
  si_write_queue :: write_queue
  si_current_write :: "byte list option"

type_synonym socket = "sock_inner option"

definition socket_wrap :: "tcp_stream \<Rightarrow> socket" where
  "socket_wrap st = Some \<lparr>si_stream = st, si_read_buffer = [], si_read_len = 0,
     si_write_queue = [], si_current_write = None\<rparr>"

definition socket_default :: socket where
  "socket_default = None"

definition socket_peer_addr :: "socket \<Rightarrow> common_error + socket_addr" where
  "socket_peer_addr s =
     (case s of
        None \<Rightarrow> Inl UninitialisedSocket
      | Some inner \<Rightarrow> (case ts_peer (si_stream inner) of Inl e \<Rightarrow> Inl (CommonIo e) | Inr a \<Rightarrow> Inr a))"

definition socket_register :: "token \<Rightarrow> ready \<Rightarrow> socket \<Rightarrow> io_error option \<times> socket" where
  "socket_register tok kind s =
     (case s of
        None \<Rightarrow> (Some (OtherIo 0), None)
      | Some inner \<Rightarrow>
          (case tcp_register tok kind (si_stream inner) of
             (res, st) \<Rightarrow> (res, Some (inner\<lparr>si_stream := st\<rparr>))))"

definition socket_deregister :: "socket \<Rightarrow> io_error option \<times> socket" where
  "socket_deregister s =
     (case s of
        None \<Rightarrow> (Some (OtherIo 0), None)
      | Some inner \<Rightarrow>
          (case tcp_deregister (si_stream inner) of
             (res, st) \<Rightarrow> (res, Some (inner\<lparr>si_stream := st\<rparr>))))"

subsection \<open>Reading\<close>

definition read_from_buffer ::
    "(byte list \<Rightarrow> 'm option) \<Rightarrow> sock_inner \<Rightarrow> (common_error + 'm option) \<times> sock_inner" where
  "read_from_buffer des s =
     (let body = (\<lambda>s.
        if si_read_len s > length (si_read_buffer s) then (Inr None, s)
        else (case des (si_read_buffer s) of
                None \<Rightarrow> (Inl CommonSerialisation, s)
              | Some m \<Rightarrow>
                  (Inr (Some m),
                   s\<lparr>si_read_buffer := drop (si_read_len s) (si_read_buffer s), si_read_len := 0\<rparr>)))
      in
        if si_read_len s = 0 then
          if length (si_read_buffer s) < 4 then (Inr None, s)
          else
            let s1 = s\<lparr>si_read_len := read_u32_le (si_read_buffer s)\<rparr> in
            if si_read_len s1 > MAX_PAYLOAD_SIZE then (Inl PayloadSizeProhibitive, s1)
            else body (s1\<lparr>si_read_buffer := drop 4 (si_read_buffer s1)\<rparr>)
        else body s)"

text \<open>The \<open>loop\<close> of \<open>SockInner::read\<close>; it ends because each turn consumes one answer or
  65536 bytes of one.\<close>

function read_loop ::
    "(byte list \<Rightarrow> 'm option) \<Rightarrow> bool \<Rightarrow> sock_inner \<Rightarrow> (common_error + 'm option) \<times> sock_inner" where
  "read_loop des is_something_read s =
     (case tcp_read (si_stream s) of
        (Inr bs, st) \<Rightarrow>
          (let s = s\<lparr>si_stream := st\<rparr> in
           if bs = [] then
             (if is_something_read then
                (case read_from_buffer des s of
                   (Inr None, s') \<Rightarrow> (Inl ZeroByteRead, s')
                 | r \<Rightarrow> r)
              else (Inl ZeroByteRead, s))
           else read_loop des True (s\<lparr>si_read_buffer := si_read_buffer s @ bs\<rparr>))
      | (Inl e, st) \<Rightarrow>
          (let s = s\<lparr>si_stream := st\<rparr> in
           if e = WouldBlock \<or> e = Interrupted then
             (if is_something_read then read_from_buffer des s else (Inr None, s))
           else (Inl (CommonIo e), s)))"
  by pat_completeness auto

fun rx_weight :: "(io_error + byte list) list \<Rightarrow> nat" where
  "rx_weight [] = 0"
| "rx_weight (Inl e # r) = Suc (rx_weight r)"
| "rx_weight (Inr bs # r) = Suc (length bs + rx_weight r)"

lemma tcp_read_weight:
  "tcp_read st = (Inr bs, st') \<Longrightarrow> rx_weight (ts_rx st') < rx_weight (ts_rx st)"
  by (cases "ts_rx st" rule: rx_weight.cases) (auto simp: tcp_read_def READ_WINDOW_def split: if_splits)

termination read_loop
  by (relation "measure (\<lambda>(des, b, s). rx_weight (ts_rx (si_stream s)))")
    (auto dest: tcp_read_weight [OF sym])

declare read_loop.simps [simp del]

definition sock_read ::
    "(byte list \<Rightarrow> 'm option) \<Rightarrow> sock_inner \<Rightarrow> (common_error + 'm option) \<times> sock_inner" where
  "sock_read des s =
     (case read_from_buffer des s of
        (Inr None, s') \<Rightarrow> read_loop des False s'
      | r \<Rightarrow> r)"

definition socket_read ::
    "(byte list \<Rightarrow> 'm option) \<Rightarrow> socket \<Rightarrow> (common_error + 'm option) \<times> socket" where
  "socket_read des s =
     (case s of
        None \<Rightarrow> (Inl UninitialisedSocket, None)
      | Some inner \<Rightarrow> map_prod id Some (sock_read des inner))"

text \<open>
  Every message returned consumes something of what the stream and the buffer hold: the loops
  of the callers that read until nothing is left are terminating.
\<close>

fun sock_weight :: "socket \<Rightarrow> nat" where
  "sock_weight None = 0"
| "sock_weight (Some s) = rx_weight (ts_rx (si_stream s)) + length (si_read_buffer s)"

lemma tcp_read_weight_data:
  "tcp_read st = (Inr bs, st') \<Longrightarrow> rx_weight (ts_rx st') + length bs \<le> rx_weight (ts_rx st)"
  by (cases "ts_rx st" rule: rx_weight.cases) (auto simp: tcp_read_def READ_WINDOW_def split: if_splits)

lemma tcp_read_weight_err:
  "tcp_read st = (Inl e, st') \<Longrightarrow> rx_weight (ts_rx st') \<le> rx_weight (ts_rx st)"
  by (cases "ts_rx st" rule: rx_weight.cases) (auto simp: tcp_read_def split: if_splits)

lemma read_from_buffer_weight:
  assumes "read_from_buffer des s = (r, s')"
  shows "sock_weight (Some s') \<le> sock_weight (Some s)
    \<and> (r = Inr (Some m) \<longrightarrow> sock_weight (Some s') < sock_weight (Some s))"
  using assms
  by (auto simp: read_from_buffer_def Let_def not_less split: if_splits option.splits)

lemma read_loop_weight:
  assumes "read_loop des b s = (r, s')"
  shows "sock_weight (Some s') \<le> sock_weight (Some s)
    \<and> (r = Inr (Some m) \<longrightarrow> sock_weight (Some s') < sock_weight (Some s))"
  using assms
proof (induction des b s arbitrary: r s' rule: read_loop.induct)
  case (1 des b s)
  obtain x st where r: "tcp_read (si_stream s) = (x, st)" by fastforce
  show ?case
  proof (cases x)
    case (Inl e)
    have "sock_weight (Some (s\<lparr>si_stream := st\<rparr>)) \<le> sock_weight (Some s)"
      using r Inl by (auto dest: tcp_read_weight_err)
    then show ?thesis
      using 1(2) r Inl read_from_buffer_weight [of des "s\<lparr>si_stream := st\<rparr>" _ _ m]
      by (subst (asm) (1) read_loop.simps)
        (force simp: Let_def split: if_splits)
  next
    case (Inr bs)
    let ?s = "s\<lparr>si_stream := st\<rparr>"
    have le: "sock_weight (Some (?s\<lparr>si_read_buffer := si_read_buffer s @ bs\<rparr>)) \<le> sock_weight (Some s)"
      using r Inr by (auto dest: tcp_read_weight_data)
    show ?thesis
    proof (cases "bs = []")
      case True
      then show ?thesis
        using 1(2) r Inr le read_from_buffer_weight [of des ?s _ _ m]
        by (subst (asm) (1) read_loop.simps)
          (force simp: Let_def split: if_splits prod.splits sum.splits option.splits)
    next
      case False
      have "read_loop des True (?s\<lparr>si_read_buffer := si_read_buffer ?s @ bs\<rparr>) = (r, s')"
        using 1(2) r Inr False by (subst (asm) (1) read_loop.simps) (simp add: Let_def)
      from 1(1) [OF r [symmetric] Inr refl False this] le show ?thesis
        by auto
    qed
  qed
qed

lemma socket_read_weight:
  assumes "socket_read des s = (Inr (Some m), s')"
  shows "sock_weight s' < sock_weight s"
proof (cases s)
  case (Some inner)
  then obtain i where i: "sock_read des inner = (Inr (Some m), i)" "s' = Some i"
    using assms by (auto simp: socket_read_def map_prod_def split: prod.splits)
  show ?thesis
  proof (cases "read_from_buffer des inner")
    case (Pair r j)
    show ?thesis
    proof (cases "r = Inr None")
      case True
      with Pair i have "read_loop des False j = (Inr (Some m), i)"
        by (simp add: sock_read_def)
      from read_loop_weight [OF this, of m] read_from_buffer_weight [OF Pair, of m] i Some show ?thesis
        by simp
    next
      case False
      with Pair i have "r = Inr (Some m)" "j = i"
        by (auto simp: sock_read_def split: sum.splits option.splits)
      with read_from_buffer_weight [OF Pair, of m] i Some show ?thesis
        by simp
    qed
  qed
qed (use assms in \<open>simp add: socket_read_def\<close>)

subsection \<open>Writing\<close>

definition elapsed_secs :: "nat \<Rightarrow> nat \<Rightarrow> nat" where
  "elapsed_secs now ts = (now - ts) div 1000000000"

text \<open>The closure of \<open>skip_while\<close>: a queue whose front is not too old, or that is never dropped.\<close>

definition not_expired :: "nat \<Rightarrow> priority \<times> msg_queue \<Rightarrow> bool" where
  "not_expired now pq =
     (fst pq < MSG_DROP_PRIORITY \<or>
      (case snd pq of [] \<Rightarrow> True | (ts, _) # _ \<Rightarrow> elapsed_secs now ts \<le> MAX_MSG_AGE_SECS))"

definition expired_keys :: "nat \<Rightarrow> write_queue \<Rightarrow> priority list" where
  "expired_keys now q = map fst (dropWhile (not_expired now) q)"

definition wq_remove :: "priority \<Rightarrow> write_queue \<Rightarrow> write_queue" where
  "wq_remove k q = filter (\<lambda>pq. fst pq \<noteq> k) q"

definition drop_expired :: "nat \<Rightarrow> write_queue \<Rightarrow> write_queue" where
  "drop_expired now q = fold wq_remove (expired_keys now q) q"

text \<open>\<open>entry(priority).or_insert_with(VecDeque::..).push_back(x)\<close>.\<close>

fun wq_push :: "priority \<Rightarrow> nat \<times> byte list \<Rightarrow> write_queue \<Rightarrow> write_queue" where
  "wq_push p x [] = [(p, [x])]"
| "wq_push p x ((k, xs) # q) =
     (if p < k then (p, [x]) # (k, xs) # q
      else if p = k then (k, xs @ [x]) # q
      else (k, xs) # wq_push p x q)"

definition frame :: "byte list \<Rightarrow> byte list" where
  "frame payload = write_u32_le (length payload) @ payload"

definition enqueue_msg ::
    "('m \<Rightarrow> byte list option) \<Rightarrow> nat \<Rightarrow> ('m \<times> priority) option \<Rightarrow> write_queue \<Rightarrow> crust_error + write_queue" where
  "enqueue_msg ser now msg q =
     (case msg of
        None \<Rightarrow> Inr q
      | Some (m, p) \<Rightarrow>
          (case ser m of
             None \<Rightarrow> Inl CrustSerialisation
           | Some payload \<Rightarrow> Inr (wq_push p (now, frame payload) q)))"

text \<open>
  The front of the first queue, and the queue map without it; \<open>None\<close> is the panic of
  \<open>unwrap!(queue.pop_front())\<close> on an empty queue, \<open>Some None\<close> an empty map.
\<close>

fun next_write :: "write_queue \<Rightarrow> (byte list \<times> write_queue) option option" where
  "next_write [] = Some None"
| "next_write ((k, []) # q) = None"
| "next_write ((k, [(ts, data)]) # q) = Some (Some (data, q))"
| "next_write ((k, (ts, data) # x # xs) # q) = Some (Some (data, (k, x # xs) # q))"

text \<open>The attempt to send \<open>current_write\<close>.\<close>

definition flush_current :: "sock_inner \<Rightarrow> (crust_error + unit) \<times> sock_inner" where
  "flush_current s =
     (case si_current_write s of
        None \<Rightarrow> (Inr (), s)
      | Some data \<Rightarrow>
          (case tcp_write data (si_stream s) of
             (Inr n, st) \<Rightarrow>
               (Inr (), s\<lparr>si_stream := st,
                          si_current_write := (if n < length data then Some (drop n data) else None)\<rparr>)
           | (Inl e, st) \<Rightarrow>
               if e = WouldBlock \<or> e = Interrupted then
                 (Inr (), s\<lparr>si_stream := st, si_current_write := Some data\<rparr>)
               else (Inl (CrustIo e), s\<lparr>si_stream := st, si_current_write := None\<rparr>)))"

definition write_done :: "sock_inner \<Rightarrow> bool" where
  "write_done s = (si_current_write s = None \<and> si_write_queue s = [])"

definition flush_and_reregister ::
    "token \<Rightarrow> sock_inner \<Rightarrow> (crust_error + bool) \<times> sock_inner" where
  "flush_and_reregister tok s =
     (case flush_current s of
        (Inl e, s) \<Rightarrow> (Inl e, s)
      | (Inr _, s) \<Rightarrow>
          (let done = write_done s; event_set = (if done then ready_erh else ready_erhw) in
           case tcp_register tok event_set (si_stream s) of
             (Some e, st) \<Rightarrow> (Inl (CrustIo e), s\<lparr>si_stream := st\<rparr>)
           | (None, st) \<Rightarrow> (Inr done, s\<lparr>si_stream := st\<rparr>)))"

definition sock_write ::
    "('m \<Rightarrow> byte list option) \<Rightarrow> nat \<Rightarrow> token \<Rightarrow> ('m \<times> priority) option \<Rightarrow> sock_inner
       \<Rightarrow> ((crust_error + bool) \<times> sock_inner) option" where
  "sock_write ser now tok msg s0 =
     (let s = s0\<lparr>si_write_queue := drop_expired now (si_write_queue s0)\<rparr> in
      case enqueue_msg ser now msg (si_write_queue s) of
        Inl e \<Rightarrow> Some (Inl e, s)
      | Inr q \<Rightarrow>
          (let s = s\<lparr>si_write_queue := q\<rparr> in
           case si_current_write s of
             Some _ \<Rightarrow> Some (flush_and_reregister tok s)
           | None \<Rightarrow>
               (case next_write q of
                  None \<Rightarrow> None
                | Some None \<Rightarrow> Some (Inr True, s)
                | Some (Some (data, q')) \<Rightarrow>
                    Some (flush_and_reregister tok
                      (s\<lparr>si_write_queue := q', si_current_write := Some data\<rparr>)))))"

definition socket_write ::
    "('m \<Rightarrow> byte list option) \<Rightarrow> nat \<Rightarrow> token \<Rightarrow> ('m \<times> priority) option \<Rightarrow> socket
       \<Rightarrow> ((crust_error + bool) \<times> socket) option" where
  "socket_write ser now tok msg s =
     (case s of
        None \<Rightarrow> Some (Inl (Common UninitialisedSocket), None)
      | Some inner \<Rightarrow> map_option (map_prod id Some) (sock_write ser now tok msg inner))"

end
