(* ===== verification/Types.thy ===== *)
theory Types
  imports Socket
begin

text \<open>
  The data the components exchange: wire messages (\<open>src/common/message.rs\<close>, \<open>src/common/mod.rs\<close>),
  configuration (\<open>src/main/config_handler.rs\<close>), connection information and the shared
  configuration cell (\<open>src/main/types.rs\<close>), the events for the user of the library
  (\<open>src/main/event.rs\<close>), and the kernel objects of mio and net2 other than the TCP stream, which is in
  \<open>Socket\<close>: each holds the answers its calls give.
\<close>

section \<open>Wire messages\<close>

text \<open>\<open>NameHash\<close> is \<open>[u8; 32]\<close>.\<close>

type_synonym name_hash = "byte list"

definition HASH_SIZE :: nat where
  "HASH_SIZE = 32"

datatype crust_user = Node | Client

datatype external_reachability =
    NotRequired
  | Required (direct_listeners: "socket_addr list")

datatype bootstrap_deny_reason =
    InvalidNameHash
  | FailedExternalReachability
  | NodeNotWhitelisted
  | ClientNotWhitelisted

datatype 'u message =
    Heartbeat
  | BootstrapRequest 'u name_hash external_reachability
  | BootstrapGranted 'u
  | BootstrapDenied bootstrap_deny_reason
  | EchoAddrReq
  | EchoAddrResp socket_addr
  | ChooseConnection
  | Connect 'u name_hash
  | Data "byte list"

section \<open>Configuration\<close>

record dev_config =
  disable_external_reachability_requirement :: bool

record config =
  hard_coded_contacts :: "socket_addr list"
  tcp_acceptor_port :: "u16 option"
  force_acceptor_port_in_ext_ep :: bool
  service_discovery_port :: "u16 option"
  bootstrap_cache_name :: "string option"
  whitelisted_node_ips :: "ip_addr set option"
  whitelisted_client_ips :: "ip_addr set option"
  network_name :: "string option"
  dev :: "dev_config option"

definition config_default :: config where
  "config_default =
     \<lparr>hard_coded_contacts = [], tcp_acceptor_port = None, force_acceptor_port_in_ext_ep = False,
      service_discovery_port = None, bootstrap_cache_name = None, whitelisted_node_ips = None,
      whitelisted_client_ips = None, network_name = None, dev = None\<rparr>"

record config_wrapper =
  cfg :: config
  is_modified_for_next_refresh :: bool

definition config_wrapper_new :: "config \<Rightarrow> config_wrapper" where
  "config_wrapper_new c = \<lparr>cfg = c, is_modified_for_next_refresh = False\<rparr>"

definition check_for_update_and_mark_modified :: "config \<Rightarrow> config_wrapper \<Rightarrow> config_wrapper" where
  "check_for_update_and_mark_modified new_cfg self =
     (if cfg self \<noteq> new_cfg then \<lparr>cfg = new_cfg, is_modified_for_next_refresh = True\<rparr> else self)"

definition check_for_refresh_and_reset_modified ::
    "config \<Rightarrow> config_wrapper \<Rightarrow> bool \<times> config_wrapper" where
  "check_for_refresh_and_reset_modified new_cfg self =
     (let (should_refresh, self) =
        (if cfg self \<noteq> new_cfg then (True, self\<lparr>cfg := new_cfg\<rparr>)
         else (is_modified_for_next_refresh self, self))
      in (should_refresh, self\<lparr>is_modified_for_next_refresh := False\<rparr>))"

text \<open>\<open>Option<HashSet<IpAddr>>::map_or(true, |ips| ips.contains(ip))\<close>: no list admits everyone.\<close>

definition whitelisted :: "ip_addr set option \<Rightarrow> ip_addr \<Rightarrow> bool" where
  "whitelisted l ip = (case l of None \<Rightarrow> True | Some ips \<Rightarrow> ip \<in> ips)"

section \<open>Kernel objects\<close>

text \<open>A listening TCP socket (\<open>mio::tcp::TcpListener\<close>).\<close>

record tcp_listener =
  tl_accepts :: "(io_error + tcp_stream) list"
  tl_poll :: "io_error option list"
  tl_local :: "io_error + socket_addr"
  tl_reg :: "(token \<times> ready) option"

definition tl_accept :: "tcp_listener \<Rightarrow> (io_error + tcp_stream) \<times> tcp_listener" where
  "tl_accept l = (case pop_answer (Inl WouldBlock) (tl_accepts l) of
     (r, rest) \<Rightarrow> (r, l\<lparr>tl_accepts := rest\<rparr>))"

definition tl_register :: "token \<Rightarrow> ready \<Rightarrow> tcp_listener \<Rightarrow> io_error option \<times> tcp_listener" where
  "tl_register tok kind l =
     (case pop_answer None (tl_poll l) of
        (None, r) \<Rightarrow> (None, l\<lparr>tl_poll := r, tl_reg := Some (tok, kind)\<rparr>)
      | (Some e, r) \<Rightarrow> (Some e, l\<lparr>tl_poll := r\<rparr>))"

definition tl_deregister :: "tcp_listener \<Rightarrow> tcp_listener" where
  "tl_deregister l =
     (case pop_answer None (tl_poll l) of
        (None, r) \<Rightarrow> l\<lparr>tl_poll := r, tl_reg := None\<rparr>
      | (Some e, r) \<Rightarrow> l\<lparr>tl_poll := r\<rparr>)"

text \<open>
  A TCP socket that is not yet connected or listening (\<open>net2::TcpBuilder\<close>): the outcomes of its
  option and bind calls, of \<open>local_addr\<close>, of \<open>listen\<close> followed by \<open>TcpListener::from_listener\<close>, and of
  \<open>to_tcp_stream\<close>.
\<close>

record tcp_builder =
  tb_opts :: "io_error option list"
  tb_local :: "io_error + socket_addr"
  tb_listen :: "io_error + tcp_listener"
  tb_from_listener :: "io_error option"
  tb_to_stream :: "io_error option"

text \<open>A UDP socket (\<open>mio::udp::UdpSocket\<close>).\<close>

record udp_socket =
  us_rx :: "(io_error + (byte list \<times> socket_addr) option) list"
  us_tx :: "(io_error + nat option) list"
  us_sent :: "(byte list \<times> socket_addr) list"
  us_poll :: "io_error option list"
  us_broadcast :: "io_error option"
  us_reg :: "(token \<times> ready) option"

section \<open>Connection information and events\<close>

record 'u pub_connection_info =
  pub_id :: 'u
  pub_for_hole_punch :: "socket_addr list"
  pub_for_direct :: "socket_addr list"

record 'u priv_connection_info =
  priv_id :: 'u
  priv_for_direct :: "socket_addr list"
  priv_for_hole_punch :: "socket_addr list"
  priv_hole_punch_socket :: "tcp_builder option"

definition to_pub_connection_info :: "'u priv_connection_info \<Rightarrow> 'u pub_connection_info" where
  "to_pub_connection_info self =
     \<lparr>pub_id = priv_id self, pub_for_hole_punch = priv_for_hole_punch self,
      pub_for_direct = priv_for_direct self\<rparr>"

record 'u connection_info_result =
  result_token :: u32
  conn_info_result :: "crust_error + 'u priv_connection_info"

datatype 'u event =
    BootstrapAccept 'u crust_user
  | BootstrapConnect 'u socket_addr
  | BootstrapFailed
  | ListenerStarted u16
  | ListenerFailed
  | ConnectionInfoPrepared "'u connection_info_result"
  | ConnectSuccess 'u
  | ConnectFailure 'u
  | LostPeer 'u
  | NewMessage 'u crust_user "byte list"
  | WriteMsgSizeProhibitive 'u "byte list"

section \<open>The configuration cell\<close>

text \<open>
  A change of the file that the listener notices first is kept for the next refresh: the
  refresher is told to purge exactly when the configuration differs from the one at its last
  refresh, unless the file went back to it in between, in which case it purges once too often.
\<close>

lemma refresh_reads_config:
  "cfg (snd (check_for_refresh_and_reset_modified c self)) = c"
  "is_modified_for_next_refresh (snd (check_for_refresh_and_reset_modified c self)) = False"
  "fst (check_for_refresh_and_reset_modified c self) \<longleftrightarrow>
     cfg self \<noteq> c \<or> is_modified_for_next_refresh self"
  by (auto simp: check_for_refresh_and_reset_modified_def)

lemma update_reads_config:
  "cfg (check_for_update_and_mark_modified c self) = c"
  "is_modified_for_next_refresh (check_for_update_and_mark_modified c self) \<longleftrightarrow>
     cfg self \<noteq> c \<or> is_modified_for_next_refresh self"
  by (auto simp: check_for_update_and_mark_modified_def)

end
