(* ===== verification/ConnMap.thy ===== *)
theory ConnMap
  imports Types
begin

text \<open>
  The connection map shared by all states of the event loop and by the service
  (\<open>ConnectionMap<UID>\<close>, \<open>ConnectionId\<close> of \<open>src/main/types.rs\<close>): per peer, the token of the active
  connection and the number of handshakes in flight. The four updates the sources make, the
  contract they rely on (the locale \<open>registry\<close>) and its proof for these updates.
\<close>

section \<open>The map and its updates\<close>

record connection_id =
  active_connection :: "token option"
  currently_handshaking :: usize

type_synonym 'u conn_map = "'u \<rightharpoonup> connection_id"

text \<open>\<open>entry(u).or_insert(..0..).currently_handshaking += 1\<close>.\<close>

definition cm_enter :: "'u \<Rightarrow> 'u conn_map \<Rightarrow> 'u conn_map" where
  "cm_enter u cm =
     (let c = (case cm u of None \<Rightarrow> \<lparr>active_connection = None, currently_handshaking = 0\<rparr> | Some c \<Rightarrow> c)
      in cm(u \<mapsto> c\<lparr>currently_handshaking := currently_handshaking c + 1\<rparr>))"

text \<open>
  The end of a handshake without a connection: \<open>-= 1\<close> on an occupied entry, which is removed when
  nothing is left of it. \<open>usize\<close> subtraction wraps in a release build.
\<close>

definition cm_leave :: "'u \<Rightarrow> 'u conn_map \<Rightarrow> 'u conn_map" where
  "cm_leave u cm =
     (case cm u of
        None \<Rightarrow> cm
      | Some c \<Rightarrow>
          (let c = c\<lparr>currently_handshaking := currently_handshaking c - 1\<rparr> in
           if currently_handshaking c = 0 \<and> active_connection c = None then cm(u := None)
           else cm(u \<mapsto> c)))"

text \<open>The handshake becomes the active connection.\<close>

definition cm_activate :: "'u \<Rightarrow> token \<Rightarrow> 'u conn_map \<Rightarrow> 'u conn_map" where
  "cm_activate u tok cm =
     (let c = (case cm u of None \<Rightarrow> \<lparr>active_connection = None, currently_handshaking = 1\<rparr> | Some c \<Rightarrow> c)
      in cm(u \<mapsto> c\<lparr>currently_handshaking := currently_handshaking c - 1,
                    active_connection := Some tok\<rparr>))"

text \<open>The active connection ends.\<close>

definition cm_deactivate :: "'u \<Rightarrow> 'u conn_map \<Rightarrow> 'u conn_map" where
  "cm_deactivate u cm =
     (case cm u of
        None \<Rightarrow> cm
      | Some c \<Rightarrow>
          (let c = c\<lparr>active_connection := None\<rparr> in
           if currently_handshaking c = 0 then cm(u := None) else cm(u \<mapsto> c)))"

text \<open>What the readers of the map look at.\<close>

definition cm_handshakes :: "'u conn_map \<Rightarrow> 'u \<Rightarrow> nat" where
  "cm_handshakes cm u = (case cm u of None \<Rightarrow> 0 | Some c \<Rightarrow> unat (currently_handshaking c))"

definition cm_active :: "'u conn_map \<Rightarrow> 'u \<Rightarrow> token option" where
  "cm_active cm u = Option.bind (cm u) active_connection"

text \<open>No entry is kept without a reason.\<close>

definition cm_inv :: "'u conn_map \<Rightarrow> bool" where
  "cm_inv cm \<longleftrightarrow>
     (\<forall>u c. cm u = Some c \<longrightarrow> currently_handshaking c \<noteq> 0 \<or> active_connection c \<noteq> None)"

section \<open>The contract\<close>

locale registry =
  fixes inv :: "'m \<Rightarrow> bool"
    and known :: "'m \<Rightarrow> 'u \<Rightarrow> bool"
    and handshakes :: "'m \<Rightarrow> 'u \<Rightarrow> nat"
    and active :: "'m \<Rightarrow> 'u \<Rightarrow> token option"
    and enter leave deactivate :: "'u \<Rightarrow> 'm \<Rightarrow> 'm"
    and activate :: "'u \<Rightarrow> token \<Rightarrow> 'm \<Rightarrow> 'm"
  assumes known_iff: "inv m \<Longrightarrow> known m u \<longleftrightarrow> 0 < handshakes m u \<or> active m u \<noteq> None"
    and enter_law: "\<lbrakk>inv m; handshakes m u + 1 < 2 ^ 64\<rbrakk> \<Longrightarrow>
          inv (enter u m) \<and> handshakes (enter u m) = (handshakes m)(u := handshakes m u + 1)
          \<and> active (enter u m) = active m"
    and leave_law: "\<lbrakk>inv m; 0 < handshakes m u\<rbrakk> \<Longrightarrow>
          inv (leave u m) \<and> handshakes (leave u m) = (handshakes m)(u := handshakes m u - 1)
          \<and> active (leave u m) = active m"
    and activate_law: "\<lbrakk>inv m; 0 < handshakes m u\<rbrakk> \<Longrightarrow>
          inv (activate u t m) \<and> handshakes (activate u t m) = (handshakes m)(u := handshakes m u - 1)
          \<and> active (activate u t m) = (active m)(u \<mapsto> t)"
    and deactivate_law: "inv m \<Longrightarrow>
          inv (deactivate u m) \<and> handshakes (deactivate u m) = handshakes m
          \<and> active (deactivate u m) = (active m)(u := None)"
    and activate_fresh: "\<lbrakk>inv m; \<not> known m u\<rbrakk> \<Longrightarrow>
          inv (activate u t m) \<and> handshakes (activate u t m) = handshakes m
          \<and> active (activate u t m) = (active m)(u \<mapsto> t)"
begin

lemma enter_known:
  assumes "inv m" and "handshakes m u + 1 < 2 ^ 64"
  shows "known (enter u m) u"
  using enter_law [OF assms] known_iff by auto

lemma leave_forgets:
  assumes "inv m" and "handshakes m u = 1" and "active m u = None"
  shows "\<not> known (leave u m) u"
  using leave_law [OF assms(1)] assms known_iff by auto

lemma deactivate_forgets:
  assumes "inv m" and "handshakes m u = 0"
  shows "\<not> known (deactivate u m) u"
  using deactivate_law [OF assms(1)] assms known_iff by auto

lemma activate_known:
  assumes "inv m" and "0 < handshakes m u"
  shows "known (activate u t m) u \<and> active (activate u t m) u = Some t"
  using activate_law [OF assms] known_iff by auto

text \<open>Handshakes that all fail leave no trace.\<close>

lemma enters:
  assumes "inv m" and "handshakes m u + n < 2 ^ 64"
  shows "inv ((enter u ^^ n) m) \<and> handshakes ((enter u ^^ n) m) = (handshakes m)(u := handshakes m u + n)
       \<and> active ((enter u ^^ n) m) = active m"
  using assms
proof (induction n)
  case (Suc n)
  then show ?case
    using enter_law [of "(enter u ^^ n) m" u] by (simp add: fun_eq_iff)
qed simp

lemma all_leave:
  assumes "inv m" and "handshakes m u = n"
  shows "inv ((leave u ^^ n) m) \<and> handshakes ((leave u ^^ n) m) u = 0
       \<and> active ((leave u ^^ n) m) = active m"
  using assms
proof (induction n arbitrary: m)
  case (Suc n)
  then have "inv (leave u m)" "handshakes (leave u m) u = n" "active (leave u m) = active m"
    using leave_law [of m u] by simp_all
  with Suc.IH [of "leave u m"] show ?case
    by (simp add: funpow_swap1)
qed simp

lemma failed_attempts_leave_no_trace:
  assumes "inv m" and "\<not> known m u" and "n < 2 ^ 64"
  shows "\<not> known ((leave u ^^ n) ((enter u ^^ n) m)) u"
proof -
  have z: "handshakes m u = 0" "active m u = None"
    using known_iff [OF assms(1), of u] assms(2) by auto
  let ?e = "(enter u ^^ n) m"
  have e: "inv ?e" "handshakes ?e u = n" "active ?e u = None"
    using enters [OF assms(1), of u n] z assms(3) by simp_all
  have "inv ((leave u ^^ n) ?e)" "handshakes ((leave u ^^ n) ?e) u = 0"
       "active ((leave u ^^ n) ?e) u = None"
    using all_leave [OF e(1,2)] e(3) by simp_all
  then show ?thesis
    using known_iff by simp
qed

end

section \<open>The map of the sources satisfies it\<close>

lemma unat_plus_one: "unat c + 1 < 2 ^ 64 \<Longrightarrow> unat (c + 1 :: usize) = unat c + 1"
  by (simp add: unat_word_ariths)

lemma unat_minus_one': "c \<noteq> 0 \<Longrightarrow> unat (c - 1 :: usize) = unat c - 1"
  by (simp add: unat_minus_one)

lemma nonzero_plus_one: "unat c + 1 < 2 ^ 64 \<Longrightarrow> (c + 1 :: usize) \<noteq> 0"
  using unat_plus_one [of c] by auto

lemma one_less_2_64: "1 < (2 :: nat) ^ 64"
  by simp

interpretation cm: registry cm_inv "\<lambda>m u. m u \<noteq> None" cm_handshakes cm_active
  cm_enter cm_leave cm_deactivate cm_activate
proof
  fix m :: "'u conn_map" and u
  assume i: "cm_inv m"
  show "m u \<noteq> None \<longleftrightarrow> 0 < cm_handshakes m u \<or> cm_active m u \<noteq> None"
    using i by (auto simp: cm_inv_def cm_handshakes_def cm_active_def unat_gt_0 split: option.splits)
  show "cm_inv (cm_deactivate u m) \<and> cm_handshakes (cm_deactivate u m) = cm_handshakes m
      \<and> cm_active (cm_deactivate u m) = (cm_active m)(u := None)"
    using i
    by (auto simp: cm_inv_def cm_deactivate_def cm_handshakes_def cm_active_def Let_def fun_eq_iff
        split: option.splits)
next
  fix m :: "'u conn_map" and u
  assume i: "cm_inv m" and b: "cm_handshakes m u + 1 < 2 ^ 64"
  show "cm_inv (cm_enter u m) \<and> cm_handshakes (cm_enter u m) = (cm_handshakes m)(u := cm_handshakes m u + 1)
      \<and> cm_active (cm_enter u m) = cm_active m"
  proof (cases "m u")
    case None
    then show ?thesis
      using i by (auto simp: cm_inv_def cm_enter_def cm_handshakes_def cm_active_def fun_eq_iff)
  next
    case (Some c)
    then have "unat (currently_handshaking c) + 1 < 2 ^ 64"
      using b by (simp add: cm_handshakes_def)
    with Some show ?thesis
      using i unat_plus_one [of "currently_handshaking c"] nonzero_plus_one [of "currently_handshaking c"]
      by (auto simp: cm_inv_def cm_enter_def cm_handshakes_def cm_active_def fun_eq_iff)
  qed
next
  fix m :: "'u conn_map" and u
  assume i: "cm_inv m" and b: "0 < cm_handshakes m u"
  then obtain c where c: "m u = Some c" "currently_handshaking c \<noteq> 0"
    by (auto simp: cm_handshakes_def unat_gt_0 split: option.splits)
  show "cm_inv (cm_leave u m) \<and> cm_handshakes (cm_leave u m) = (cm_handshakes m)(u := cm_handshakes m u - 1)
      \<and> cm_active (cm_leave u m) = cm_active m"
    using i c unat_minus_one' [OF c(2)]
    by (auto simp: cm_inv_def cm_leave_def cm_handshakes_def cm_active_def Let_def fun_eq_iff)
  fix t
  show "cm_inv (cm_activate u t m) \<and> cm_handshakes (cm_activate u t m) = (cm_handshakes m)(u := cm_handshakes m u - 1)
      \<and> cm_active (cm_activate u t m) = (cm_active m)(u \<mapsto> t)"
    using i c unat_minus_one' [OF c(2)]
    by (auto simp: cm_inv_def cm_activate_def cm_handshakes_def cm_active_def Let_def fun_eq_iff)
next
  fix m :: "'u conn_map" and u t
  assume i: "cm_inv m" and "\<not> m u \<noteq> None"
  then show "cm_inv (cm_activate u t m) \<and> cm_handshakes (cm_activate u t m) = cm_handshakes m
      \<and> cm_active (cm_activate u t m) = (cm_active m)(u \<mapsto> t)"
    by (auto simp: cm_inv_def cm_activate_def cm_handshakes_def cm_active_def Let_def fun_eq_iff)
qed

lemma cm_inv_empty [simp]: "cm_inv Map.empty"
  by (simp add: cm_inv_def)

lemma cm_empty [simp]: "cm_handshakes Map.empty u = 0" "cm_active Map.empty u = None"
  by (simp_all add: cm_handshakes_def cm_active_def)

end
