(* ===== verification/ConnMap_Spec.thy ===== *)
theory ConnMap_Spec
  imports ConnMap
begin

text \<open>
  What the connection map promises, without machine words and without entries: a ledger of the open
  handshakes and of the connected peers. The updates of the sources implement the updates of the
  ledger along every sequence that leaves and activates only what was entered.
\<close>

record 'u ledger =
  open_handshakes :: "'u \<Rightarrow> nat"
  connected :: "'u \<rightharpoonup> token"

datatype 'u cm_op = Enter 'u | Leave 'u | Activate 'u token | Deactivate 'u

fun cm_update :: "'u cm_op \<Rightarrow> 'u conn_map \<Rightarrow> 'u conn_map" where
  "cm_update (Enter u) = cm_enter u"
| "cm_update (Leave u) = cm_leave u"
| "cm_update (Activate u t) = cm_activate u t"
| "cm_update (Deactivate u) = cm_deactivate u"

fun ledger_update :: "'u cm_op \<Rightarrow> 'u ledger \<Rightarrow> 'u ledger" where
  "ledger_update (Enter u) l = l\<lparr>open_handshakes := (open_handshakes l)(u := open_handshakes l u + 1)\<rparr>"
| "ledger_update (Leave u) l = l\<lparr>open_handshakes := (open_handshakes l)(u := open_handshakes l u - 1)\<rparr>"
| "ledger_update (Activate u t) l =
     l\<lparr>open_handshakes := (open_handshakes l)(u := open_handshakes l u - 1), connected := (connected l)(u \<mapsto> t)\<rparr>"
| "ledger_update (Deactivate u) l = l\<lparr>connected := (connected l)(u := None)\<rparr>"

fun allowed :: "'u cm_op \<Rightarrow> 'u ledger \<Rightarrow> bool" where
  "allowed (Enter u) l \<longleftrightarrow> open_handshakes l u + 1 < 2 ^ 64"
| "allowed (Leave u) l \<longleftrightarrow> 0 < open_handshakes l u"
| "allowed (Activate u t) l \<longleftrightarrow> 0 < open_handshakes l u"
| "allowed (Deactivate u) l \<longleftrightarrow> True"

fun all_allowed :: "'u cm_op list \<Rightarrow> 'u ledger \<Rightarrow> bool" where
  "all_allowed [] l = True"
| "all_allowed (x # xs) l \<longleftrightarrow> allowed x l \<and> all_allowed xs (ledger_update x l)"

definition ledger_of :: "'u conn_map \<Rightarrow> 'u ledger" where
  "ledger_of m = \<lparr>open_handshakes = cm_handshakes m, connected = cm_active m\<rparr>"

lemma ledger_of_simps [simp]:
  "open_handshakes (ledger_of m) = cm_handshakes m" "connected (ledger_of m) = cm_active m"
  by (simp_all add: ledger_of_def)

lemma cm_update_refines:
  assumes "cm_inv m" and "allowed x (ledger_of m)"
  shows "cm_inv (cm_update x m) \<and> ledger_of (cm_update x m) = ledger_update x (ledger_of m)"
  using assms
proof (cases x)
  case (Enter u)
  with assms cm.enter_law [of m u] show ?thesis by (simp add: ledger_of_def)
next
  case (Leave u)
  with assms cm.leave_law [of m u] show ?thesis by (simp add: ledger_of_def)
next
  case (Activate u t)
  with assms cm.activate_law [of m u t] show ?thesis by (simp add: ledger_of_def)
next
  case (Deactivate u)
  with assms cm.deactivate_law [of m u] show ?thesis by (simp add: ledger_of_def)
qed

lemma cm_updates_refine:
  assumes "cm_inv m" and "all_allowed xs (ledger_of m)"
  shows "cm_inv (fold cm_update xs m) \<and> ledger_of (fold cm_update xs m) = fold ledger_update xs (ledger_of m)"
  using assms
proof (induction xs arbitrary: m)
  case (Cons x xs)
  with cm_update_refines [of m x] show ?case by simp
qed simp

text \<open>
  C6 The connection map implements its ledger: along any sequence of allowed updates the machine
  words and the entries that appear and disappear show exactly the handshakes and the connections
  of the ledger, and a peer has an entry exactly when the ledger has something to say about it.
\<close>

theorem conn_map_refines_ledger:
  assumes "cm_inv m" and "all_allowed xs (ledger_of m)"
  shows "ledger_of (fold cm_update xs m) = fold ledger_update xs (ledger_of m) \<and>
    (fold cm_update xs m u \<noteq> None \<longleftrightarrow>
       0 < open_handshakes (fold ledger_update xs (ledger_of m)) u \<or>
       connected (fold ledger_update xs (ledger_of m)) u \<noteq> None)"
proof -
  note r = cm_updates_refine [OF assms]
  from conjunct2 [OF r] show ?thesis
    using cm.known_iff [OF conjunct1 [OF r], of u] by (simp flip: conjunct2 [OF r])
qed

theorem conn_map_refines_ledger_witness:
  "fold cm_update [Enter 9, Enter 9, Activate 9 7, Leave 9, Deactivate (9 :: nat)] Map.empty 9 = None"
  using conn_map_refines_ledger [of Map.empty "[Enter 9, Enter 9, Activate 9 7, Leave 9, Deactivate (9 :: nat)]" 9]
  by (simp add: ledger_of_def)

end
