(* ===== verification/World.thy ===== *)
theory World
  imports ConnMap
begin

text \<open>
  The event-loop core (\<open>src/common/core.rs\<close>) and the data of every state it can hold. A state of
  the source is an object behind \<open>Rc<RefCell<State>>\<close>; here it is a record in the map
  \<open>w_states\<close>, and a handler takes the record out, works on it, and the dispatcher puts it back if
  the token still belongs to it. The \<open>finish\<close> closures of child states are data: the token of the
  parent (an upgraded \<open>Weak\<close> is a lookup of that token), or the arguments a closure captured.

  The world also holds what the event loop shares with the service (connection map,
  configuration, listener addresses, event channel, message channel) and the answers of the
  code outside the repository: timers, connecting, binding, the configuration file. \<open>w_igd\<close> lists
  the threads that wait for a gateway to map a port. \<open>w_running\<close> is false when the loop has ended and
  the receiving end of the message channel is gone.
\<close>

section \<open>States\<close>

record core_timer =
  state_id :: token
  timer_id :: nat

record heartbeat =
  hb_recv_timeout :: timeout
  hb_recv_timer :: core_timer
  hb_send_timeout :: timeout
  hb_send_timer :: core_timer

record 'u active_conn =
  ac_token :: token
  ac_socket :: socket
  ac_our_id :: 'u
  ac_their_id :: 'u
  ac_their_role :: crust_user
  ac_heartbeat :: heartbeat

datatype cand_finish = FinConnect token | FinListener

record 'u candidate =
  cc_token :: token
  cc_socket :: socket
  cc_our_id :: 'u
  cc_their_id :: 'u
  cc_msg :: "('u message \<times> priority) option"
  cc_finish :: cand_finish

record 'u connect_ex =
  ce_token :: token
  ce_expected_id :: 'u
  ce_expected_nh :: name_hash
  ce_socket :: socket
  ce_msg :: "('u message \<times> priority) option"
  ce_parent :: token

record 'u connect_st =
  cn_token :: token
  cn_timeout :: timeout
  cn_our_nh :: name_hash
  cn_our_id :: 'u
  cn_their_id :: 'u
  cn_listener :: "tcp_listener option"
  cn_children :: "token list"

record 'u reach_check =
  cr_token :: token
  cr_socket :: socket
  cr_timeout :: timeout
  cr_t :: 'u
  cr_parent :: token

datatype 'u next_state =
    NsNone
  | NsActiveConnection 'u crust_user
  | NsConnectionCandidate 'u

record 'u listen_ex =
  le_token :: token
  le_name_hash :: name_hash
  le_next_state :: "'u next_state"
  le_our_uid :: 'u
  le_socket :: socket
  le_timeout :: timeout
  le_children :: "token list"
  le_accept_bootstrap :: bool
  le_require_reachability :: bool

record 'u conn_listener =
  cl_token :: token
  cl_listener :: tcp_listener
  cl_name_hash :: name_hash
  cl_our_uid :: 'u
  cl_timeout_sec :: "nat option"
  cl_accept_bootstrap :: bool

record 'u try_peer =
  tp_token :: token
  tp_peer :: socket_addr
  tp_socket :: socket
  tp_request :: "('u message \<times> priority) option"
  tp_parent :: token

record sd_meta =
  sm_rx :: nat
  sm_timeout :: timeout

record 'u bootstrap =
  bs_token :: token
  bs_peers :: "socket_addr list"
  bs_blacklist :: "socket_addr set"
  bs_name_hash :: name_hash
  bs_ext_reachability :: external_reachability
  bs_our_uid :: 'u
  bs_sd_meta :: "sd_meta option"
  bs_timer :: core_timer
  bs_timeout :: timeout
  bs_children :: "token list"

record 'u get_ext_addr =
  ge_token :: token
  ge_socket :: socket
  ge_request :: "('u message \<times> priority) option"
  ge_parent :: token

datatype 'u mapped_finish =
    MfListener "nat option" u16 bool 'u name_hash
  | MfConnInfo u32 'u "socket_addr list"

record 'u mapped_socket =
  mp_token :: token
  mp_socket :: "tcp_builder option"
  mp_igd_children :: usize
  mp_stun_children :: "token list"
  mp_mapped_addrs :: "socket_addr list"
  mp_timeout :: timeout
  mp_finish :: "'u mapped_finish option"

record service_disc =
  sd_token :: token
  sd_socket :: udp_socket
  sd_remote_addr :: socket_addr
  sd_listen :: bool
  sd_seek_peers_req :: "byte list"
  sd_reply_to :: "socket_addr list"
  sd_observers :: "nat list"
  sd_guid :: "64 word"

record refresher =
  rf_token :: token
  rf_timer :: core_timer
  rf_timeout :: timeout

datatype 'u state =
    StActive "'u active_conn"
  | StCandidate "'u candidate"
  | StConnectEx "'u connect_ex"
  | StConnect "'u connect_st"
  | StReach "'u reach_check"
  | StListenEx "'u listen_ex"
  | StListener "'u conn_listener"
  | StTryPeer "'u try_peer"
  | StBootstrap "'u bootstrap"
  | StGetExtAddr "'u get_ext_addr"
  | StMapped "'u mapped_socket"
  | StServiceDisc service_disc
  | StRefresher refresher

section \<open>Messages to the event loop\<close>

text \<open>One constructor per closure that the sources post to the event loop, with what it captures;
  \<open>MsgExit\<close> is the empty message that ends the loop.\<close>

datatype 'u core_msg =
    MsgStartConfigRefresher
  | MsgSetAcceptBootstrap bool
  | MsgStartServiceDiscovery u16
  | MsgSetServiceDiscoveryListen bool
  | MsgGetPeerAddr token
  | MsgSeekPeers nat
  | MsgStartBootstrap name_hash external_reachability 'u "socket_addr set"
  | MsgTerminate token
  | MsgStartListener u16 bool 'u name_hash
  | MsgConnect "'u priv_connection_info" "'u pub_connection_info" name_hash
  | MsgSend token "byte list" priority
  | MsgPrepareInfo u32 'u "socket_addr list"
  | MsgIgdResp token socket_addr
  | MsgExit

datatype reply =
    ReplyUnit "crust_error + unit"
  | ReplyAddr "(crust_error + socket_addr) option"

datatype discovery_msg =
    Request "64 word"
  | Response "socket_addr list"

text \<open>
  \<open>MappingContext\<close> of \<open>src/nat/mapping_context.rs\<close>; a gateway is a handle of the igd crate.
\<close>

type_synonym gateway = nat

record mapping_context =
  our_ifv4s :: "(ipv4_addr \<times> gateway option) list"
  our_ifv6s :: "ipv6_addr list"
  peer_stuns :: "socket_addr list"

section \<open>The world\<close>

record 'u world =
  w_token_counter :: token
  w_states :: "token \<rightharpoonup> 'u state"
  w_timers :: "timeout \<rightharpoonup> core_timer \<times> nat"
  w_next_timeout :: timeout
  w_now :: nat
  w_cm :: "'u conn_map"
  w_config :: config_wrapper
  w_our_listeners :: "socket_addr list"
  w_mc :: mapping_context
  w_events :: "'u event list"
  w_running :: bool
  w_msgs :: "'u core_msg list"
  w_replies :: "reply list"
  w_chans :: "nat \<rightharpoonup> socket_addr list list"
  w_next_chan :: nat
  w_timer_answers :: "bool list"
  w_connects :: "(io_error + tcp_stream) list"
  w_builders :: "(io_error + tcp_builder) list"
  w_udp_binds :: "(io_error + udp_socket) list"
  w_config_file :: "(crust_error + config) list"
  w_cache_file :: "(crust_error + (crust_error + socket_addr list)) list"
  w_rand :: "64 word list"
  w_igd :: "(token \<times> gateway \<times> socket_addr) list"

text \<open>
  What the calls into other crates compute: the codecs of the serialisation crate for the two
  kinds of messages, the shuffle of the random number generator, and the order in which the
  connection map, a hash map, is iterated.
\<close>

record 'u env =
  e_ser :: "'u message \<Rightarrow> byte list option"
  e_des :: "byte list \<Rightarrow> 'u message option"
  e_sd_ser :: "discovery_msg \<Rightarrow> byte list option"
  e_sd_des :: "byte list \<Rightarrow> discovery_msg option"
  e_shuffle :: "socket_addr list \<Rightarrow> socket_addr list"
  e_order :: "'u conn_map \<Rightarrow> 'u list"

text \<open>
  The tokens that the service reserves for the states that exist at most once; the tokens from
  \<open>FIRST_TOKEN\<close> on, the argument of \<open>spawn_event_loop\<close>, are given out by the core.
\<close>

definition BOOTSTRAP_TOKEN :: token where
  "BOOTSTRAP_TOKEN = 0"

definition SERVICE_DISCOVERY_TOKEN :: token where
  "SERVICE_DISCOVERY_TOKEN = 1"

definition LISTENER_TOKEN :: token where
  "LISTENER_TOKEN = 2"

definition CONFIG_REFRESHER_TOKEN :: token where
  "CONFIG_REFRESHER_TOKEN = 3"

definition FIRST_TOKEN :: token where
  "FIRST_TOKEN = 4"

section \<open>Operations of the core\<close>

definition get_new_token :: "'u world \<Rightarrow> token \<times> 'u world" where
  "get_new_token w = (w_token_counter w, w\<lparr>w_token_counter := w_token_counter w + 1\<rparr>)"

definition insert_state :: "token \<Rightarrow> 'u state \<Rightarrow> 'u world \<Rightarrow> 'u world" where
  "insert_state t s w = w\<lparr>w_states := (w_states w)(t \<mapsto> s)\<rparr>"

definition remove_state :: "token \<Rightarrow> 'u world \<Rightarrow> 'u world" where
  "remove_state t w = w\<lparr>w_states := (w_states w)(t := None)\<rparr>"

definition get_state :: "token \<Rightarrow> 'u world \<Rightarrow> 'u state option" where
  "get_state t w = w_states w t"

definition MS :: nat where
  "MS = 1000000"

text \<open>\<open>set_timeout\<close> with the interval in milliseconds; mio's timer refuses with an error when its
  slab overflows.\<close>

definition set_timeout :: "nat \<Rightarrow> core_timer \<Rightarrow> 'u world \<Rightarrow> (common_error + timeout) \<times> 'u world" where
  "set_timeout ms ct w =
     (case pop_answer True (w_timer_answers w) of
        (True, r) \<Rightarrow>
          (Inr (w_next_timeout w),
           w\<lparr>w_timer_answers := r, w_next_timeout := w_next_timeout w + 1,
             w_timers := (w_timers w)(w_next_timeout w \<mapsto> (ct, w_now w + ms * MS))\<rparr>)
      | (False, r) \<Rightarrow> (Inl CommonTimer, w\<lparr>w_timer_answers := r\<rparr>))"

definition cancel_timeout :: "timeout \<Rightarrow> 'u world \<Rightarrow> 'u world" where
  "cancel_timeout t w = w\<lparr>w_timers := (w_timers w)(t := None)\<rparr>"

definition send_event :: "'u event \<Rightarrow> 'u world \<Rightarrow> 'u world" where
  "send_event e w = w\<lparr>w_events := w_events w @ [e]\<rparr>"

definition upd_cm :: "('u conn_map \<Rightarrow> 'u conn_map) \<Rightarrow> 'u world \<Rightarrow> 'u world" where
  "upd_cm f w = w\<lparr>w_cm := f (w_cm w)\<rparr>"

text \<open>\<open>TcpStream::connect\<close>, also behind \<open>Socket::connect\<close>, and \<open>TcpStream::connect_stream\<close>.\<close>

definition tcp_connect :: "'u world \<Rightarrow> (io_error + tcp_stream) \<times> 'u world" where
  "tcp_connect w =
     (case pop_answer (Inl (OtherIo 0)) (w_connects w) of (r, rest) \<Rightarrow> (r, w\<lparr>w_connects := rest\<rparr>))"

definition socket_connect :: "'u world \<Rightarrow> (common_error + socket) \<times> 'u world" where
  "socket_connect w =
     (case tcp_connect w of
        (Inl e, w) \<Rightarrow> (Inl (CommonIo e), w)
      | (Inr st, w) \<Rightarrow> (Inr (socket_wrap st), w))"

definition read_config_file :: "'u world \<Rightarrow> (crust_error + config) \<times> 'u world" where
  "read_config_file w =
     (case pop_answer (Inl ConfigFileHandler) (w_config_file w) of
        (r, rest) \<Rightarrow> (r, w\<lparr>w_config_file := rest\<rparr>))"

text \<open>
  Putting a handler's record back: the object behind the token is still this one exactly when the
  token still holds a state of its kind, since a token changes hands only between kinds.
\<close>

datatype state_kind =
    KActive | KCandidate | KConnectEx | KConnect | KReach | KListenEx | KListener | KTryPeer
  | KBootstrap | KGetExtAddr | KMapped | KServiceDisc | KRefresher

fun kind_of :: "'u state \<Rightarrow> state_kind" where
  "kind_of (StActive _) = KActive"
| "kind_of (StCandidate _) = KCandidate"
| "kind_of (StConnectEx _) = KConnectEx"
| "kind_of (StConnect _) = KConnect"
| "kind_of (StReach _) = KReach"
| "kind_of (StListenEx _) = KListenEx"
| "kind_of (StListener _) = KListener"
| "kind_of (StTryPeer _) = KTryPeer"
| "kind_of (StBootstrap _) = KBootstrap"
| "kind_of (StGetExtAddr _) = KGetExtAddr"
| "kind_of (StMapped _) = KMapped"
| "kind_of (StServiceDisc _) = KServiceDisc"
| "kind_of (StRefresher _) = KRefresher"

fun state_token :: "'u state \<Rightarrow> token" where
  "state_token (StActive s) = ac_token s"
| "state_token (StCandidate s) = cc_token s"
| "state_token (StConnectEx s) = ce_token s"
| "state_token (StConnect s) = cn_token s"
| "state_token (StReach s) = cr_token s"
| "state_token (StListenEx s) = le_token s"
| "state_token (StListener s) = cl_token s"
| "state_token (StTryPeer s) = tp_token s"
| "state_token (StBootstrap s) = bs_token s"
| "state_token (StGetExtAddr s) = ge_token s"
| "state_token (StMapped s) = mp_token s"
| "state_token (StServiceDisc s) = sd_token s"
| "state_token (StRefresher s) = rf_token s"

definition put_state :: "'u state \<Rightarrow> 'u world \<Rightarrow> 'u world" where
  "put_state s w =
     (case get_state (state_token s) w of
        Some s' \<Rightarrow> if kind_of s' = kind_of s then insert_state (state_token s) s w else w
      | None \<Rightarrow> w)"

section \<open>Frame equations\<close>

lemmas core_defs = get_new_token_def insert_state_def remove_state_def get_state_def
  cancel_timeout_def send_event_def upd_cm_def

lemma w_states_ops [simp, world_simps]:
  "w_states (insert_state t s w) = (w_states w)(t \<mapsto> s)"
  "w_states (remove_state t w) = (w_states w)(t := None)"
  "w_states (cancel_timeout x w) = w_states w"
  "w_states (send_event e w) = w_states w"
  "w_states (upd_cm f w) = w_states w"
  "w_states (snd (get_new_token w)) = w_states w"
  by (simp_all add: core_defs)

lemma w_cm_ops [simp, world_simps]:
  "w_cm (insert_state t s w) = w_cm w"
  "w_cm (remove_state t w) = w_cm w"
  "w_cm (cancel_timeout x w) = w_cm w"
  "w_cm (send_event e w) = w_cm w"
  "w_cm (upd_cm f w) = f (w_cm w)"
  "w_cm (snd (get_new_token w)) = w_cm w"
  "w_cm (put_state s w) = w_cm w"
  by (simp_all add: core_defs put_state_def split: option.splits)

lemma w_token_counter_ops [simp, world_simps]:
  "w_token_counter (insert_state t s w) = w_token_counter w"
  "w_token_counter (remove_state t w) = w_token_counter w"
  "w_token_counter (cancel_timeout x w) = w_token_counter w"
  "w_token_counter (send_event e w) = w_token_counter w"
  "w_token_counter (upd_cm f w) = w_token_counter w"
  "w_token_counter (snd (get_new_token w)) = Suc (w_token_counter w)"
  "w_token_counter (put_state s w) = w_token_counter w"
  by (simp_all add: core_defs put_state_def split: option.splits)

lemma w_events_ops [simp, world_simps]:
  "w_events (insert_state t s w) = w_events w"
  "w_events (remove_state t w) = w_events w"
  "w_events (cancel_timeout x w) = w_events w"
  "w_events (send_event e w) = w_events w @ [e]"
  "w_events (upd_cm f w) = w_events w"
  "w_events (snd (get_new_token w)) = w_events w"
  "w_events (put_state s w) = w_events w"
  by (simp_all add: core_defs put_state_def split: option.splits)

lemma w_timer_answers_ops [simp, world_simps]:
  "w_timer_answers (insert_state t s w) = w_timer_answers w"
  "w_timer_answers (remove_state t w) = w_timer_answers w"
  "w_timer_answers (cancel_timeout x w) = w_timer_answers w"
  "w_timer_answers (send_event e w) = w_timer_answers w"
  "w_timer_answers (upd_cm f w) = w_timer_answers w"
  "w_timer_answers (snd (get_new_token w)) = w_timer_answers w"
  "w_timer_answers (put_state s w) = w_timer_answers w"
  by (simp_all add: core_defs put_state_def split: option.splits)

lemma fst_get_new_token [simp, world_simps]: "fst (get_new_token w) = w_token_counter w"
  by (simp add: get_new_token_def)

lemma set_timeout_frame [simp, world_simps]:
  "w_states (snd (set_timeout ms ct w)) = w_states w"
  "w_cm (snd (set_timeout ms ct w)) = w_cm w"
  "w_token_counter (snd (set_timeout ms ct w)) = w_token_counter w"
  "w_events (snd (set_timeout ms ct w)) = w_events w"
  by (simp_all add: set_timeout_def split: prod.splits bool.splits)

lemma set_timeout_ok:
  assumes "w_timer_answers w = []"
  shows "fst (set_timeout ms ct w) = Inr (w_next_timeout w)"
    and "w_timer_answers (snd (set_timeout ms ct w)) = []"
  using assms by (simp_all add: set_timeout_def)

lemma tcp_connect_frame [simp, world_simps]:
  "w_states (snd (tcp_connect w)) = w_states w"
  "w_cm (snd (tcp_connect w)) = w_cm w"
  "w_token_counter (snd (tcp_connect w)) = w_token_counter w"
  "w_events (snd (tcp_connect w)) = w_events w"
  "w_timer_answers (snd (tcp_connect w)) = w_timer_answers w"
  by (simp_all add: tcp_connect_def split: prod.splits)

lemma socket_connect_frame [simp, world_simps]:
  "w_states (snd (socket_connect w)) = w_states w"
  "w_cm (snd (socket_connect w)) = w_cm w"
  "w_token_counter (snd (socket_connect w)) = w_token_counter w"
  "w_events (snd (socket_connect w)) = w_events w"
  "w_timer_answers (snd (socket_connect w)) = w_timer_answers w"
  by (simp_all add: socket_connect_def tcp_connect_def split: prod.splits sum.splits)

lemma read_config_file_frame [simp, world_simps]:
  "w_states (snd (read_config_file w)) = w_states w"
  "w_cm (snd (read_config_file w)) = w_cm w"
  "w_token_counter (snd (read_config_file w)) = w_token_counter w"
  "w_events (snd (read_config_file w)) = w_events w"
  "w_timer_answers (snd (read_config_file w)) = w_timer_answers w"
  by (simp_all add: read_config_file_def split: prod.splits)

text \<open>The same equations for a result that a case distinction has taken apart.\<close>

lemma set_timeout_eqD:
  assumes "set_timeout ms ct w = (r, w')"
  shows "w_states w' = w_states w \<and> w_cm w' = w_cm w \<and> w_token_counter w' = w_token_counter w \<and>
    w_events w' = w_events w \<and> (w_timer_answers w = [] \<longrightarrow> w_timer_answers w' = [])"
  using set_timeout_frame [of ms ct w] set_timeout_ok [of w ms ct] assms by simp

lemma tcp_connect_eqD:
  assumes "tcp_connect w = (r, w')"
  shows "w_states w' = w_states w \<and> w_cm w' = w_cm w \<and> w_token_counter w' = w_token_counter w \<and>
    w_events w' = w_events w \<and> w_timer_answers w' = w_timer_answers w"
  using tcp_connect_frame [of w] assms by simp

lemma socket_connect_eqD:
  assumes "socket_connect w = (r, w')"
  shows "w_states w' = w_states w \<and> w_cm w' = w_cm w \<and> w_token_counter w' = w_token_counter w \<and>
    w_events w' = w_events w \<and> w_timer_answers w' = w_timer_answers w"
  using socket_connect_frame [of w] assms by simp

lemma read_config_file_eqD:
  assumes "read_config_file w = (r, w')"
  shows "w_states w' = w_states w \<and> w_cm w' = w_cm w \<and> w_token_counter w' = w_token_counter w \<and>
    w_events w' = w_events w \<and> w_timer_answers w' = w_timer_answers w"
  using read_config_file_frame [of w] assms by simp

lemma get_new_token_eqD:
  assumes "get_new_token w = (t, w')"
  shows "t = w_token_counter w \<and> w_states w' = w_states w \<and> w_cm w' = w_cm w \<and>
    w_token_counter w' = Suc (w_token_counter w) \<and> w_events w' = w_events w \<and>
    w_timer_answers w' = w_timer_answers w"
  using assms by (auto simp: get_new_token_def)

lemmas frame_eqDs = set_timeout_eqD tcp_connect_eqD socket_connect_eqD read_config_file_eqD
  get_new_token_eqD

lemma w_states_put:
  "w_states (put_state s w) =
     (case w_states w (state_token s) of
        Some s' \<Rightarrow> if kind_of s' = kind_of s then (w_states w)(state_token s \<mapsto> s) else w_states w
      | None \<Rightarrow> w_states w)"
  by (simp add: put_state_def get_state_def split: option.splits)

end
