(* ===== verification/Accounting.thy ===== *)
theory Accounting
  imports World
begin

text \<open>
  The accounting of handshakes: the connection map's counters and the states that live in the event
  loop tell the same story. \<open>counted s\<close> is the peer for which the state \<open>s\<close> holds one
  handshake of the connection map. While a handler runs, a handshake can be in the hands of the
  handler (the state has been taken out of the loop and its successor is not in yet); this debt is
  the function \<open>d\<close>. The lemmas are the moves of the handlers: each of them shifts one unit between
  the live states, the debt and the connection map. They are collected in \<open>acct\<close>.
\<close>

section \<open>The invariant\<close>

fun next_peer :: "'u next_state \<Rightarrow> 'u option" where
  "next_peer NsNone = None"
| "next_peer (NsActiveConnection u k) = Some u"
| "next_peer (NsConnectionCandidate u) = Some u"

fun counted :: "'u state \<Rightarrow> 'u option" where
  "counted (StCandidate c) = Some (cc_their_id c)"
| "counted (StConnectEx c) = Some (ce_expected_id c)"
| "counted (StListenEx c) = next_peer (le_next_state c)"
| "counted _ = None"

definition live :: "'u world \<Rightarrow> 'u \<Rightarrow> nat" where
  "live w u = count_where (\<lambda>s. counted s = Some u) (w_states w)"

definition owe :: "'u option \<Rightarrow> ('u \<Rightarrow> nat) \<Rightarrow> 'u \<Rightarrow> nat" where
  "owe x d u = d u + (if x = Some u then 1 else 0)"

abbreviation no_debt :: "'u \<Rightarrow> nat" where
  "no_debt \<equiv> (\<lambda>_. 0)"

definition active_of :: "'u \<Rightarrow> 'u state option \<Rightarrow> bool" where
  "active_of u so \<longleftrightarrow> (\<exists>a. so = Some (StActive a) \<and> ac_their_id a = u)"

text \<open>The kinds of the states under the reserved tokens, and the tokens given out so far.\<close>

definition reserved :: "'u state \<Rightarrow> bool" where
  "reserved s \<longleftrightarrow> kind_of s \<in> {KBootstrap, KServiceDisc, KListener, KRefresher}"

definition given :: "'u world \<Rightarrow> token \<Rightarrow> bool" where
  "given w t \<longleftrightarrow> FIRST_TOKEN \<le> t \<and> t < w_token_counter w"

declare given_def [simp]

definition tokens_ok :: "'u world \<Rightarrow> bool" where
  "tokens_ok w \<longleftrightarrow> finite (dom (w_states w)) \<and> FIRST_TOKEN \<le> w_token_counter w \<and>
     (\<forall>t s. w_states w t = Some s \<longrightarrow>
        state_token s = t \<and> t < w_token_counter w \<and> (t < FIRST_TOKEN \<longrightarrow> reserved s))"

definition acct :: "('u \<Rightarrow> nat) \<Rightarrow> 'u world \<Rightarrow> bool" where
  "acct d w \<longleftrightarrow> tokens_ok w \<and> cm_inv (w_cm w) \<and>
     (\<forall>u. cm_handshakes (w_cm w) u = live w u + d u) \<and>
     (\<forall>u t. cm_active (w_cm w) u = Some t \<longrightarrow> active_of u (w_states w t))"

section \<open>Debts\<close>

lemma owe_None [simp]: "owe None d = d"
  by (simp add: owe_def fun_eq_iff)

lemma owe_Some: "owe (Some u) d = d(u := d u + 1)"
  by (simp add: owe_def fun_eq_iff)

lemma owe_same [simp]: "owe (Some u) d u = Suc (d u)"
  by (simp add: owe_def)

section \<open>Moves\<close>

lemma acctD:
  assumes "acct d w"
  shows "finite (dom (w_states w))" and "cm_inv (w_cm w)"
    and "cm_handshakes (w_cm w) u = live w u + d u"
    and "cm_active (w_cm w) u = Some t \<Longrightarrow> active_of u (w_states w t)"
    and "w_states w t = Some s \<Longrightarrow> state_token s = t"
    and "w_states w t = Some s \<Longrightarrow> t < w_token_counter w"
    and "tokens_ok w"
    and "w_states w t = Some s \<Longrightarrow> \<not> reserved s \<Longrightarrow> given w t"
    and "FIRST_TOKEN \<le> w_token_counter w"
  using assms by (auto simp: acct_def tokens_ok_def) (meson not_less)

lemma active_of_simps [simp]:
  "active_of u (Some (StActive a)) \<longleftrightarrow> ac_their_id a = u"
  "\<not> active_of u None"
  by (simp_all add: active_of_def)

lemma active_of_not_counted: "active_of u (Some s) \<Longrightarrow> counted s = None"
  by (auto simp: active_of_def)

text \<open>Only the states, the connection map and the token counter matter.\<close>

lemma acct_cong:
  assumes "w_states w' = w_states w" and "w_cm w' = w_cm w" and "w_token_counter w \<le> w_token_counter w'"
  shows "acct d w \<Longrightarrow> acct d w'"
  using assms by (fastforce simp: acct_def tokens_ok_def live_def)

lemma acct_frame [simp]:
  "acct d (cancel_timeout x w) = acct d w"
  "acct d (send_event e w) = acct d w"
  "acct d w \<Longrightarrow> acct d (snd (get_new_token w))"
  "acct d (snd (set_timeout ms ct w)) = acct d w"
  "acct d (snd (socket_connect w)) = acct d w"
  "acct d (snd (tcp_connect w)) = acct d w"
  "acct d (snd (read_config_file w)) = acct d w"
  by (auto elim!: acct_cong [rotated -1] simp: world_simps)

lemma live_frame [simp]:
  "live (upd_cm f w) = live w"
  "live (cancel_timeout x w) = live w"
  "live (send_event e w) = live w"
  by (simp_all add: live_def fun_eq_iff)

lemma live_insert:
  assumes "finite (dom (w_states w))" and "w_states w t = None"
  shows "live (insert_state t s w) = owe (counted s) (live w)"
  using count_where_insert [OF assms] by (simp add: live_def owe_def fun_eq_iff)

lemma live_remove:
  assumes "finite (dom (w_states w))" and "w_states w t = Some s"
  shows "live w = owe (counted s) (live (remove_state t w))"
  using count_where_delete [OF assms] by (simp add: live_def owe_def fun_eq_iff)

lemma live_replace:
  assumes "finite (dom (w_states w))" and "w_states w t = Some s" and "counted s' = counted s"
  shows "live (insert_state t s' w) = live w"
proof
  fix u
  show "live (insert_state t s' w) u = live w u"
    using count_where_replace [OF assms(1,2), of "\<lambda>s. counted s = Some u" s'] assms(3)
    by (simp add: live_def)
qed

text \<open>A state that leaves the loop hands its handshake to the handler.\<close>

lemma acct_remove [acct]:
  assumes "acct d w" and "w_states w t = Some s" and "\<forall>u. \<not> active_of u (Some s)"
  shows "acct (owe (counted s) d) (remove_state t w)"
proof -
  have l: "live w u = live (remove_state t w) u + (if counted s = Some u then 1 else 0)" for u
    using live_remove [OF acctD(1) [OF assms(1)] assms(2)] by (simp add: owe_def fun_eq_iff)
  have "active_of u (((w_states w)(t := None)) t')" if "cm_active (w_cm w) u = Some t'" for u t'
    using acctD(4) [OF assms(1) that] assms(2,3) by (cases "t' = t") simp_all
  then show ?thesis
    using assms l by (simp add: acct_def tokens_ok_def owe_def)
qed

lemma acct_remove_None [acct]:
  assumes "acct d w" and "w_states w t = None"
  shows "acct d (remove_state t w)"
proof -
  have "(w_states w)(t := None) = w_states w"
    using assms(2) by (simp add: fun_upd_idem)
  then show ?thesis
    using assms(1) by (simp add: acct_def tokens_ok_def live_def)
qed

text \<open>A state that enters the loop takes over the handshake its handler holds.\<close>

lemma acct_insert [acct]:
  assumes "acct (owe (counted s) d) w" and "w_states w t = None"
    and "state_token s = t" and "t < w_token_counter w" and "t < FIRST_TOKEN \<Longrightarrow> reserved s"
  shows "acct d (insert_state t s w)"
proof -
  note fin = acctD(1) [OF assms(1)]
  have "active_of u (((w_states w)(t \<mapsto> s)) t')" if "cm_active (w_cm w) u = Some t'" for u t'
    using acctD(4) [OF assms(1) that] assms(2) by (cases "t' = t") simp_all
  then show ?thesis
    using assms live_insert [OF fin assms(2), of s]
    by (auto simp: acct_def tokens_ok_def owe_def)
qed

lemma acct_replace [acct]:
  assumes "acct d w" and "w_states w t = Some s" and "counted s' = counted s"
    and "state_token s' = t" and "\<And>u. active_of u (Some s) \<Longrightarrow> active_of u (Some s')"
    and "reserved s' = reserved s"
  shows "acct d (insert_state t s' w)"
proof -
  note fin = acctD(1) [OF assms(1)]
  have "active_of u (((w_states w)(t \<mapsto> s')) t')" if "cm_active (w_cm w) u = Some t'" for u t'
    using acctD(4) [OF assms(1) that] assms(2,5) by (cases "t' = t") simp_all
  then show ?thesis
    using assms acctD(6) [OF assms(1,2)] live_replace [OF fin assms(2,3)]
    by (auto simp: acct_def tokens_ok_def)
qed

text \<open>A handler that puts its record back changes nothing the accounting looks at.\<close>

lemma acct_put [acct]:
  assumes "acct d w"
    and "\<And>s'. \<lbrakk>w_states w (state_token s) = Some s'; kind_of s' = kind_of s\<rbrakk> \<Longrightarrow>
      counted s = counted s' \<and> (\<forall>u. active_of u (Some s') \<longrightarrow> active_of u (Some s))"
  shows "acct d (put_state s w)"
  using assms acct_replace [OF assms(1)]
  by (auto simp: put_state_def get_state_def reserved_def split: option.splits)

text \<open>The three ends of a handshake and its beginning, in the connection map.\<close>

lemma acct_enter [acct]:
  assumes "acct d w" and "live w u + d u + 1 < 2 ^ 64"
  shows "acct (owe (Some u) d) (upd_cm (cm_enter u) w)"
proof -
  have "cm_inv (cm_enter u (w_cm w)) \<and>
      cm_handshakes (cm_enter u (w_cm w)) = (cm_handshakes (w_cm w))(u := cm_handshakes (w_cm w) u + 1)
      \<and> cm_active (cm_enter u (w_cm w)) = cm_active (w_cm w)"
    by (rule cm.enter_law) (use assms acctD(2,3) [OF assms(1)] in simp_all)
  then show ?thesis
    using assms by (simp add: acct_def tokens_ok_def live_def owe_def)
qed

lemma acct_leave [acct]:
  assumes "acct (owe (Some u) d) w"
  shows "acct d (upd_cm (cm_leave u) w)"
proof -
  have "cm_inv (cm_leave u (w_cm w)) \<and>
      cm_handshakes (cm_leave u (w_cm w)) = (cm_handshakes (w_cm w))(u := cm_handshakes (w_cm w) u - 1)
      \<and> cm_active (cm_leave u (w_cm w)) = cm_active (w_cm w)"
    by (rule cm.leave_law) (use acctD(2,3) [OF assms] in simp_all)
  then show ?thesis
    using assms by (simp add: acct_def tokens_ok_def live_def owe_def)
qed

lemma acct_activate [acct]:
  assumes "acct (owe (Some u) d) w" and "active_of u (w_states w t)"
  shows "acct d (upd_cm (cm_activate u t) w)"
proof -
  have "cm_inv (cm_activate u t (w_cm w)) \<and>
      cm_handshakes (cm_activate u t (w_cm w)) = (cm_handshakes (w_cm w))(u := cm_handshakes (w_cm w) u - 1)
      \<and> cm_active (cm_activate u t (w_cm w)) = (cm_active (w_cm w))(u \<mapsto> t)"
    by (rule cm.activate_law) (use acctD(2,3) [OF assms(1)] in simp_all)
  then show ?thesis
    using assms by (auto simp: acct_def tokens_ok_def live_def owe_def)
qed

text \<open>A connection that skipped the handshake is fine only if its peer was unknown.\<close>

lemma acct_activate_fresh [acct]:
  assumes "acct d w" and "w_cm w u = None" and "active_of u (w_states w t)"
  shows "acct d (upd_cm (cm_activate u t) w)"
proof -
  have "cm_inv (cm_activate u t (w_cm w)) \<and>
      cm_handshakes (cm_activate u t (w_cm w)) = cm_handshakes (w_cm w)
      \<and> cm_active (cm_activate u t (w_cm w)) = (cm_active (w_cm w))(u \<mapsto> t)"
    by (rule cm.activate_fresh) (use assms acctD(2) [OF assms(1)] in simp_all)
  then show ?thesis
    using assms by (auto simp: acct_def tokens_ok_def live_def)
qed

text \<open>An active connection leaves the loop and the map together.\<close>

lemma acct_deactivate [acct]:
  assumes "acct d w" and "w_states w t = None \<or> active_of u (w_states w t)"
  shows "acct d (upd_cm (cm_deactivate u) (remove_state t w))"
proof -
  have law: "cm_inv (cm_deactivate u (w_cm w)) \<and>
      cm_handshakes (cm_deactivate u (w_cm w)) = cm_handshakes (w_cm w)
      \<and> cm_active (cm_deactivate u (w_cm w)) = (cm_active (w_cm w))(u := None)"
    by (rule cm.deactivate_law) (use assms acctD(2) [OF assms(1)] in simp_all)
  have "live (remove_state t w) = live w"
  proof (cases "w_states w t")
    case None
    then show ?thesis by (simp add: live_def fun_upd_idem fun_eq_iff)
  next
    case (Some s)
    then have "counted s = None"
      using assms(2) by (auto intro: active_of_not_counted)
    with live_remove [OF acctD(1) [OF assms(1)] Some] show ?thesis by simp
  qed
  moreover have "active_of v (((w_states w)(t := None)) t')"
    if "cm_active (w_cm w) v = Some t'" and "v \<noteq> u" for v t'
    using acctD(4) [OF assms(1) that(1)] assms(2) that(2)
    by (cases "t' = t") (auto simp: active_of_def)
  ultimately show ?thesis
    using assms(1) law
    by (auto simp: acct_def tokens_ok_def split: if_splits)
qed

text \<open>The number of live handshakes is bounded by the number of tokens given out.\<close>

lemma live_le_tokens:
  assumes "tokens_ok w"
  shows "live w u \<le> w_token_counter w"
proof -
  have "keys_where (\<lambda>s. counted s = Some u) (w_states w) \<subseteq> {..<w_token_counter w}"
    using assms by (auto simp: tokens_ok_def keys_where_mem)
  then have "live w u \<le> card {..<w_token_counter w}"
    unfolding live_def count_where_def by (rule card_mono [OF finite_lessThan])
  then show ?thesis by simp
qed

section \<open>What a handler leaves alone\<close>

text \<open>The states under other tokens and the token counter; and a timer that never refuses does not
  start to.\<close>

definition same_off :: "token set \<Rightarrow> 'u world \<Rightarrow> 'u world \<Rightarrow> bool" where
  "same_off T w w' \<longleftrightarrow> (\<forall>t. t \<notin> T \<longrightarrow> w_states w' t = w_states w t) \<and>
     w_token_counter w' = w_token_counter w \<and>
     (w_timer_answers w = [] \<longrightarrow> w_timer_answers w' = [])"

lemma same_off_refl [simp]: "same_off T w w"
  by (simp add: same_off_def)

lemma same_off_trans: "same_off T w w' \<Longrightarrow> same_off T w' w'' \<Longrightarrow> same_off T w w''"
  by (simp add: same_off_def)

lemma same_off_mono: "same_off T w w' \<Longrightarrow> T \<subseteq> T' \<Longrightarrow> same_off T' w w'"
  by (auto simp: same_off_def)

lemma same_off_ops [simp]:
  "same_off T w (cancel_timeout x w')  = same_off T w w'"
  "same_off T w (send_event e w') = same_off T w w'"
  "same_off T w (upd_cm f w') = same_off T w w'"
  "t \<in> T \<Longrightarrow> same_off T w (remove_state t w') = same_off T w w'"
  "t \<in> T \<Longrightarrow> same_off T w (insert_state t s w') = same_off T w w'"
  "same_off T w w' \<Longrightarrow> same_off T w (snd (set_timeout ms ct w'))"
  "same_off T w (snd (read_config_file w')) = same_off T w w'"
  by (auto simp: same_off_def set_timeout_ok)

lemma same_off_put [simp]: "state_token s \<in> T \<Longrightarrow> same_off T w (put_state s w') = same_off T w w'"
  by (simp add: put_state_def split: option.splits)

lemma set_timeout_same_off: "set_timeout ms ct w = (r, w') \<Longrightarrow> same_off T w w'"
  using same_off_ops(6) [of T w w ms ct] by simp

section \<open>Attempts and the connect they belong to\<close>

text \<open>The attempts of an outgoing connect: the parent's token and the peer.\<close>

fun child_of :: "'u state \<Rightarrow> (token \<times> 'u) option" where
  "child_of (StCandidate c) =
     (case cc_finish c of FinConnect p \<Rightarrow> Some (p, cc_their_id c) | FinListener \<Rightarrow> None)"
| "child_of (StConnectEx c) = Some (ce_parent c, ce_expected_id c)"
| "child_of _ = None"

definition parent_ok :: "'u world \<Rightarrow> token \<Rightarrow> token \<Rightarrow> 'u \<Rightarrow> bool" where
  "parent_ok w t p u \<longleftrightarrow>
     (\<exists>c. w_states w p = Some (StConnect c) \<and> t \<in> set (cn_children c) \<and> cn_their_id c = u)"

text \<open>Of all connects only \<open>p\<close> can list \<open>t\<close>.\<close>

definition only_parent :: "'u world \<Rightarrow> token \<Rightarrow> token \<Rightarrow> bool" where
  "only_parent w t p \<longleftrightarrow>
     (\<forall>p' c. w_states w p' = Some (StConnect c) \<and> t \<in> set (cn_children c) \<longrightarrow> p' = p)"

text \<open>
  No orphans: a live attempt is among the children of a live connect to the same peer. And a
  connect terminates nothing but its own attempts. The set \<open>P\<close> exempts the connects whose handler
  is running and whose record is therefore not the one in the loop.
\<close>

definition links :: "token set \<Rightarrow> 'u world \<Rightarrow> bool" where
  "links P w \<longleftrightarrow>
     (\<forall>t s p u. w_states w t = Some s \<and> child_of s = Some (p, u) \<and> p \<notin> P \<longrightarrow> parent_ok w t p u) \<and>
     (\<forall>p c t s. w_states w p = Some (StConnect c) \<and> p \<notin> P \<and> t \<in> set (cn_children c) \<and> w_states w t = Some s
        \<longrightarrow> (\<exists>u. child_of s = Some (p, u))) \<and>
     (\<forall>p c t. w_states w p = Some (StConnect c) \<and> t \<in> set (cn_children c) \<longrightarrow> given w t)"

text \<open>The whole invariant, for an event loop whose timer does not refuse.\<close>

definition sys :: "token set \<Rightarrow> ('u \<Rightarrow> nat) \<Rightarrow> 'u world \<Rightarrow> bool" where
  "sys P d w \<longleftrightarrow> acct d w \<and> links P w \<and> w_timer_answers w = []"

lemma sysD:
  assumes "sys P d w"
  shows "acct d w" and "links P w" and "w_timer_answers w = []"
  using assms by (simp_all add: sys_def)

lemma links_cong:
  assumes "w_states w' = w_states w" and "w_token_counter w \<le> w_token_counter w'"
  shows "links P w \<Longrightarrow> links P w'"
  using assms unfolding links_def parent_ok_def by fastforce

lemma links_mono: "links P w \<Longrightarrow> P \<subseteq> P' \<Longrightarrow> links P' w"
  unfolding links_def by blast

lemma sys_mono: "sys P d w \<Longrightarrow> P \<subseteq> P' \<Longrightarrow> sys P' d w"
  using links_mono by (auto simp: sys_def)

lemma links_ops [simp]:
  "links P (cancel_timeout x w) = links P w"
  "links P (send_event e w) = links P w"
  "links P (upd_cm f w) = links P w"
  "links P w \<Longrightarrow> links P (snd (get_new_token w))"
  "links P (snd (set_timeout ms ct w)) = links P w"
  "links P (snd (socket_connect w)) = links P w"
  "links P (snd (tcp_connect w)) = links P w"
  "links P (snd (read_config_file w)) = links P w"
  by (auto elim!: links_cong [rotated -1])

lemma linksD:
  assumes "links P w"
  shows "\<lbrakk>w_states w t = Some s; child_of s = Some (p, u); p \<notin> P\<rbrakk> \<Longrightarrow> parent_ok w t p u"
    and "\<lbrakk>w_states w p = Some (StConnect c); p \<notin> P; t \<in> set (cn_children c); w_states w t = Some s\<rbrakk>
      \<Longrightarrow> \<exists>u. child_of s = Some (p, u)"
    and "\<lbrakk>w_states w p = Some (StConnect c); t \<in> set (cn_children c)\<rbrakk> \<Longrightarrow> given w t"
  using assms unfolding links_def by blast+

lemma links_only_parent:
  assumes "links {} w" and "w_states w t = Some s" and "child_of s = Some (p, u)"
  shows "only_parent w t p"
  unfolding only_parent_def
  using linksD(2) [OF assms(1) _ _ _ assms(2)] assms(3) by fastforce

text \<open>States other than connects may disappear.\<close>

definition shrinks :: "token set \<Rightarrow> 'u world \<Rightarrow> 'u world \<Rightarrow> bool" where
  "shrinks T w w' \<longleftrightarrow>
     (\<forall>t. w_states w' t = w_states w t \<or>
          (t \<in> T \<and> w_states w' t = None \<and> (\<forall>c. w_states w t \<noteq> Some (StConnect c)))) \<and>
     w_token_counter w' = w_token_counter w"

lemma shrinks_refl [simp]: "shrinks T w w"
  by (simp add: shrinks_def)

lemma shrinks_trans: "shrinks T w w' \<Longrightarrow> shrinks T w' w'' \<Longrightarrow> shrinks T w w''"
  unfolding shrinks_def by metis

lemma shrinks_mono: "shrinks T w w' \<Longrightarrow> T \<subseteq> T' \<Longrightarrow> shrinks T' w w'"
  unfolding shrinks_def by blast

lemma shrinks_remove: "\<forall>c. w_states w t \<noteq> Some (StConnect c) \<Longrightarrow> shrinks {t} w (remove_state t w)"
  by (simp add: shrinks_def)

lemma shrinksD: "shrinks T w w' \<Longrightarrow> w_states w' t = Some s \<Longrightarrow> w_states w t = Some s"
  unfolding shrinks_def by (metis option.distinct(1))

lemma shrinks_connect: "shrinks T w w' \<Longrightarrow> w_states w t = Some (StConnect c) \<Longrightarrow> w_states w' t = Some (StConnect c)"
  unfolding shrinks_def by metis

lemma shrinks_None: "shrinks T w w' \<Longrightarrow> w_states w t = None \<Longrightarrow> w_states w' t = None"
  unfolding shrinks_def by metis

lemma links_shrink:
  assumes "links P w" and "shrinks T w w'"
  shows "links P w'"
proof -
  have ct: "w_token_counter w' = w_token_counter w"
    using assms(2) by (simp add: shrinks_def)
  show ?thesis
    using assms(1) shrinksD [OF assms(2)] shrinks_connect [OF assms(2)]
    unfolding links_def parent_ok_def given_def ct by blast
qed

lemma sys_frame [simp]:
  "sys P d (cancel_timeout x w) = sys P d w"
  "sys P d (send_event e w) = sys P d w"
  "sys P d w \<Longrightarrow> sys P d (snd (get_new_token w))"
  "sys P d w \<Longrightarrow> sys P d (snd (set_timeout ms ct w))"
  "sys P d (snd (socket_connect w)) = sys P d w"
  "sys P d (snd (tcp_connect w)) = sys P d w"
  "sys P d (snd (read_config_file w)) = sys P d w"
  by (auto simp: sys_def set_timeout_ok)

lemma sys_cong:
  assumes "w_states w' = w_states w" and "w_cm w' = w_cm w" and "w_token_counter w \<le> w_token_counter w'"
    and "w_timer_answers w' = w_timer_answers w"
  shows "sys P d w \<Longrightarrow> sys P d w'"
  using assms acct_cong [of w' w d] links_cong [of w' w P] by (simp add: sys_def)

lemma sys_remove [acct]:
  assumes "sys P d w" and "w_states w t = Some s" and "\<forall>u. \<not> active_of u (Some s)"
    and "kind_of s \<noteq> KConnect"
  shows "sys P (owe (counted s) d) (remove_state t w)"
proof -
  have "\<forall>c. w_states w t \<noteq> Some (StConnect c)"
    using assms(2,4) by auto
  then show ?thesis
    using assms acct_remove [OF sysD(1) [OF assms(1)] assms(2,3)]
      links_shrink [OF sysD(2) [OF assms(1)] shrinks_remove, of t]
    by (simp add: sys_def)
qed

lemma sys_cm [acct]:
  "sys P d w \<Longrightarrow> live w u + d u + 1 < 2 ^ 64 \<Longrightarrow> sys P (owe (Some u) d) (upd_cm (cm_enter u) w)"
  "sys P (owe (Some u) d) w \<Longrightarrow> sys P d (upd_cm (cm_leave u) w)"
  "sys P (owe (Some u) d) w \<Longrightarrow> active_of u (w_states w t) \<Longrightarrow> sys P d (upd_cm (cm_activate u t) w)"
  by (auto simp: sys_def acct_enter acct_leave acct_activate)

text \<open>A state that is no attempt, under a token that no connect lists.\<close>

lemma sys_insert [acct]:
  assumes "sys P (owe (counted s) d) w" and "w_states w t = None" and "state_token s = t"
    and "t < w_token_counter w" and "child_of s = None" and "kind_of s \<noteq> KConnect"
    and "t < FIRST_TOKEN \<Longrightarrow> reserved s"
    and "\<And>p c. \<lbrakk>w_states w p = Some (StConnect c); p \<notin> P\<rbrakk> \<Longrightarrow> t \<notin> set (cn_children c)"
  shows "sys P d (insert_state t s w)"
proof -
  have "links P (insert_state t s w)"
    using sysD(2) [OF assms(1)] assms(2,5,6,8)
    unfolding links_def parent_ok_def by (fastforce split: if_splits)
  then show ?thesis
    using assms acct_insert [OF sysD(1) [OF assms(1)] assms(2-4,7)] by (simp add: sys_def)
qed

text \<open>A handler's record is put back; a connect goes through \<open>sys_put_connect\<close> instead.\<close>

lemma sys_put [acct]:
  assumes "sys P d w" and "kind_of s \<noteq> KConnect"
    and "\<And>s'. \<lbrakk>w_states w (state_token s) = Some s'; kind_of s' = kind_of s\<rbrakk> \<Longrightarrow>
      counted s = counted s' \<and> child_of s = child_of s' \<and>
      (\<forall>u. active_of u (Some s') \<longrightarrow> active_of u (Some s))"
  shows "sys P d (put_state s w)"
proof -
  have "links P (put_state s w)"
  proof (cases "\<exists>s'. w_states w (state_token s) = Some s' \<and> kind_of s' = kind_of s")
    case True
    then obtain s' where s': "w_states w (state_token s) = Some s'" "kind_of s' = kind_of s"
      by blast
    then have "put_state s w = insert_state (state_token s) s w" "child_of s = child_of s'"
        "\<forall>c. s' \<noteq> StConnect c" "\<forall>c. s \<noteq> StConnect c"
      using assms(2,3) by (auto simp: put_state_def get_state_def)
    then show ?thesis
      using sysD(2) [OF assms(1)] s'(1)
      unfolding links_def parent_ok_def by (auto split: if_splits) (metis option.inject)+
  next
    case False
    then have "put_state s w = w"
      by (auto simp: put_state_def get_state_def split: option.splits)
    then show ?thesis using sysD(2) [OF assms(1)] by simp
  qed
  moreover have "acct d (put_state s w)"
    by (rule acct_put [OF sysD(1) [OF assms(1)]]) (use assms(3) in blast)
  ultimately show ?thesis
    using assms(1) by (simp add: sys_def)
qed

section \<open>States outside the accounting\<close>

text \<open>Kinds of states that hold no handshake, are no attempt and no connection.\<close>

definition plain :: "'u state \<Rightarrow> bool" where
  "plain s \<longleftrightarrow> kind_of s \<notin> {KActive, KCandidate, KConnectEx, KConnect, KListenEx}"

lemma plain_kinds [simp]:
  "plain (StReach r)" "plain (StListener l)" "plain (StTryPeer p)" "plain (StBootstrap b)"
  "plain (StGetExtAddr g)" "plain (StMapped m)" "plain (StServiceDisc sd)" "plain (StRefresher rf)"
  by (simp_all add: plain_def)

lemma plainD:
  assumes "plain s"
  shows "counted s = None" and "child_of s = None" and "kind_of s \<noteq> KConnect" and "\<not> active_of u (Some s)"
  using assms by (cases s; simp add: plain_def active_of_def)+

text \<open>A new state of such a kind.\<close>

lemma sys_insert_fresh:
  assumes "sys P d w" and "t = w_token_counter w" and "w_token_counter w' = Suc t"
    and "w_states w' = w_states w" and "w_cm w' = w_cm w" and "w_timer_answers w' = []"
    and "state_token s = t" and "plain s"
  shows "sys P d (insert_state t s w')"
proof -
  have s': "sys P d w'"
    by (rule sys_cong [OF _ _ _ _ assms(1)]) (use assms(2-6) sysD(3) [OF assms(1)] in simp_all)
  have "w_states w t = None"
    using acctD(6) [OF sysD(1) [OF assms(1)]] assms(2) by (metis less_irrefl not_None_eq)
  moreover have "t \<notin> set (cn_children c)" if "w_states w p = Some (StConnect c)" for p c
    using linksD(3) [OF sysD(2) [OF assms(1)] that] assms(2) by auto
  ultimately show ?thesis
    by (intro sys_insert) (use assms(2-4,7) plainD [OF assms(8)] s' acctD(9) [OF sysD(1) [OF assms(1)]] in auto)
qed

lemma sys_plain_remove:
  assumes "sys P d w" and "\<And>s. w_states w t = Some s \<Longrightarrow> plain s"
  shows "sys P d (remove_state t w)"
proof (cases "w_states w t")
  case None
  then have "w_states (remove_state t w) = w_states w" by (simp add: fun_upd_idem)
  then show ?thesis by (intro sys_cong [OF _ _ _ _ assms(1)]) simp_all
next
  case (Some s)
  with sys_remove [OF assms(1) Some] plainD [OF assms(2) [OF Some]] show ?thesis by simp
qed

lemma sys_plain:
  assumes "sys P d w" and "w_states w' = w_states w \<or> w_states w' = (w_states w)(t := None)"
    and "\<And>s. w_states w t = Some s \<Longrightarrow> plain s"
    and "w_cm w' = w_cm w" and "w_token_counter w \<le> w_token_counter w'"
    and "w_timer_answers w = [] \<Longrightarrow> w_timer_answers w' = []"
  shows "sys P d w'"
proof -
  have t: "w_timer_answers w' = w_timer_answers w"
    using assms(6) sysD(3) [OF assms(1)] by simp
  from assms(2) show ?thesis
  proof
    assume "w_states w' = w_states w"
    then show ?thesis
      by (rule sys_cong [OF _ assms(4,5) t assms(1)])
  next
    assume "w_states w' = (w_states w)(t := None)"
    then show ?thesis
      by (intro sys_cong [OF _ _ _ _ sys_plain_remove [OF assms(1,3)]]) (use assms(4,5) t in simp_all)
  qed
qed

lemma sys_put_plain:
  fixes s :: "'u state"
  assumes "sys P d w" and "plain s"
  shows "sys P d (put_state s w)"
proof (rule sys_put [OF assms(1)])
  fix s' :: "'u state"
  assume "kind_of s' = kind_of s"
  then have "plain s'" using assms(2) by (simp add: plain_def)
  with assms(2) show "counted s = counted s' \<and> child_of s = child_of s' \<and>
      (\<forall>u. active_of u (Some s') \<longrightarrow> active_of u (Some s))"
    by (simp add: plainD)
qed (use plainD [OF assms(2)] in simp)

text \<open>A state under its reserved token, whether or not one was there.\<close>

lemma sys_insert_reserved:
  assumes "sys {} no_debt w" and "state_token s = t" and "t < FIRST_TOKEN" and "reserved s"
  shows "sys {} no_debt (insert_state t s w)"
proof -
  have p: "plain s'" if "w_states w t = Some s'" for s'
    using acctD(8) [OF sysD(1) [OF assms(1)] that] assms(3) by (auto simp: reserved_def plain_def)
  have r: "sys {} no_debt (remove_state t w)"
    by (rule sys_plain_remove [OF assms(1) p])
  have "t \<notin> set (cn_children c)" if "w_states w q = Some (StConnect c)" for q c
    using linksD(3) [OF sysD(2) [OF assms(1)] that, of t] assms(3) by auto
  moreover have "plain s" using assms(4) by (auto simp: reserved_def plain_def)
  ultimately have "sys {} no_debt (insert_state t s (remove_state t w))"
    by (intro sys_insert)
      (use assms r plainD [of s] acctD(9) [OF sysD(1) [OF assms(1)]] in \<open>auto split: if_splits\<close>)
  moreover have "insert_state t s (remove_state t w) = insert_state t s w"
    by (simp add: insert_state_def remove_state_def)
  ultimately show ?thesis by simp
qed

end
