(* ===== verification/Active.thy ===== *)
theory Active
  imports Accounting
begin

text \<open>
  \<open>src/main/active_connection.rs\<close>: an established connection with its heartbeat. Reading delivers
  messages to the user, writing sends them, the heartbeat's two timers detect an inactive
  peer and keep the other side informed. The facts: reading ends, and every operation of an active
  connection keeps the accounting and touches no other state.
\<close>

section \<open>Heartbeat\<close>

definition INACTIVITY_TIMEOUT_MS :: nat where
  "INACTIVITY_TIMEOUT_MS = 120000"

definition HEARTBEAT_PERIOD_MS :: nat where
  "HEARTBEAT_PERIOD_MS = 20000"

definition CoreTimer :: "token \<Rightarrow> nat \<Rightarrow> core_timer" where
  "CoreTimer t n = \<lparr>state_id = t, timer_id = n\<rparr>"

definition hb_new :: "token \<Rightarrow> 'u world \<Rightarrow> (common_error + heartbeat) \<times> 'u world" where
  "hb_new sid w =
     (let recv_timer = CoreTimer sid 0 in
      case set_timeout INACTIVITY_TIMEOUT_MS recv_timer w of
        (Inl e, w) \<Rightarrow> (Inl e, w)
      | (Inr recv_timeout, w) \<Rightarrow>
          (let send_timer = CoreTimer sid 1 in
           case set_timeout HEARTBEAT_PERIOD_MS send_timer w of
             (Inl e, w) \<Rightarrow> (Inl e, w)
           | (Inr send_timeout, w) \<Rightarrow>
               (Inr \<lparr>hb_recv_timeout = recv_timeout, hb_recv_timer = recv_timer,
                     hb_send_timeout = send_timeout, hb_send_timer = send_timer\<rparr>, w)))"

datatype heartbeat_action = HbSend | HbTerminate

definition hb_timeout :: "nat \<Rightarrow> heartbeat \<Rightarrow> 'u world \<Rightarrow> heartbeat_action \<times> heartbeat \<times> 'u world" where
  "hb_timeout tid hb w =
     (if tid = timer_id (hb_recv_timer hb) then (HbTerminate, hb, w)
      else
        (case set_timeout HEARTBEAT_PERIOD_MS (hb_send_timer hb) w of
           (Inr t, w) \<Rightarrow> (HbSend, hb\<lparr>hb_send_timeout := t\<rparr>, w)
         | (Inl e, w) \<Rightarrow> (HbTerminate, hb, w)))"

definition hb_reset_receive :: "heartbeat \<Rightarrow> 'u world \<Rightarrow> (common_error + unit) \<times> heartbeat \<times> 'u world" where
  "hb_reset_receive hb w =
     (case set_timeout INACTIVITY_TIMEOUT_MS (hb_recv_timer hb) (cancel_timeout (hb_recv_timeout hb) w) of
        (Inl e, w) \<Rightarrow> (Inl e, hb, w)
      | (Inr t, w) \<Rightarrow> (Inr (), hb\<lparr>hb_recv_timeout := t\<rparr>, w))"

definition hb_reset_send :: "heartbeat \<Rightarrow> 'u world \<Rightarrow> (common_error + unit) \<times> heartbeat \<times> 'u world" where
  "hb_reset_send hb w =
     (case set_timeout HEARTBEAT_PERIOD_MS (hb_send_timer hb) (cancel_timeout (hb_send_timeout hb) w) of
        (Inl e, w) \<Rightarrow> (Inl e, hb, w)
      | (Inr t, w) \<Rightarrow> (Inr (), hb\<lparr>hb_send_timeout := t\<rparr>, w))"

definition hb_terminate :: "heartbeat \<Rightarrow> 'u world \<Rightarrow> 'u world" where
  "hb_terminate hb w = cancel_timeout (hb_send_timeout hb) (cancel_timeout (hb_recv_timeout hb) w)"

section \<open>The connection\<close>

definition ac_terminate :: "'u active_conn \<Rightarrow> 'u world \<Rightarrow> 'u active_conn \<times> 'u world" where
  "ac_terminate self w =
     (let w = hb_terminate (ac_heartbeat self) w;
          self = self\<lparr>ac_socket := snd (socket_deregister (ac_socket self))\<rparr>;
          w = remove_state (ac_token self) w;
          w = upd_cm (cm_deactivate (ac_their_id self)) w
      in (self, send_event (LostPeer (ac_their_id self)) w))"

definition ac_reset_receive_heartbeat :: "'u active_conn \<Rightarrow> 'u world \<Rightarrow> 'u active_conn \<times> 'u world" where
  "ac_reset_receive_heartbeat self w =
     (case hb_reset_receive (ac_heartbeat self) w of
        (res, hb, w) \<Rightarrow>
          (let self = self\<lparr>ac_heartbeat := hb\<rparr> in
           case res of Inl e \<Rightarrow> ac_terminate self w | Inr _ \<Rightarrow> (self, w)))"

definition ac_reset_send_heartbeat :: "'u active_conn \<Rightarrow> 'u world \<Rightarrow> 'u active_conn \<times> 'u world" where
  "ac_reset_send_heartbeat self w =
     (case hb_reset_send (ac_heartbeat self) w of
        (res, hb, w) \<Rightarrow>
          (let self = self\<lparr>ac_heartbeat := hb\<rparr> in
           case res of Inl e \<Rightarrow> ac_terminate self w | Inr _ \<Rightarrow> (self, w)))"

text \<open>What happens with one message that was read.\<close>

definition ac_receive :: "'u message \<Rightarrow> 'u active_conn \<Rightarrow> 'u world \<Rightarrow> 'u active_conn \<times> 'u world" where
  "ac_receive m self w =
     (case m of
        Data bytes \<Rightarrow>
          ac_reset_receive_heartbeat self
            (send_event (NewMessage (ac_their_id self) (ac_their_role self) bytes) w)
      | _ \<Rightarrow> ac_reset_receive_heartbeat self w)"

lemma sock_weight_deregister [simp]: "sock_weight (snd (socket_deregister s)) = sock_weight s"
  by (simp add: socket_deregister_def tcp_deregister_def split: option.splits prod.splits)

lemma ac_terminate_weight: "sock_weight (ac_socket (fst (ac_terminate self w))) = sock_weight (ac_socket self)"
  by (simp add: ac_terminate_def Let_def)

lemma ac_reset_receive_weight:
  "sock_weight (ac_socket (fst (ac_reset_receive_heartbeat self w))) = sock_weight (ac_socket self)"
  by (simp add: ac_reset_receive_heartbeat_def ac_terminate_weight Let_def split: prod.split sum.split)

lemma ac_receive_weight:
  "sock_weight (ac_socket (fst (ac_receive m self w))) = sock_weight (ac_socket self)"
  by (cases m) (simp_all add: ac_receive_def ac_reset_receive_weight)

text \<open>The loop of \<open>read\<close>.\<close>

function ac_read :: "'u env \<Rightarrow> 'u active_conn \<Rightarrow> 'u world \<Rightarrow> 'u active_conn \<times> 'u world" where
  "ac_read E self w =
     (case socket_read (e_des E) (ac_socket self) of
        (Inr (Some m), so) \<Rightarrow>
          (let (self', w') = ac_receive m (self\<lparr>ac_socket := so\<rparr>) w in ac_read E self' w')
      | (Inr None, so) \<Rightarrow> (self\<lparr>ac_socket := so\<rparr>, w)
      | (Inl e, so) \<Rightarrow> ac_terminate (self\<lparr>ac_socket := so\<rparr>) w)"
  by pat_completeness auto

termination ac_read
  by (relation "measure (\<lambda>(E, self, w). sock_weight (ac_socket self))")
    (auto simp: case_prod_beta ac_receive_weight dest: socket_read_weight [OF sym])

declare ac_read.simps [simp del]

definition ac_write ::
    "'u env \<Rightarrow> ('u message \<times> priority) option \<Rightarrow> 'u active_conn \<Rightarrow> 'u world
       \<Rightarrow> ('u active_conn \<times> 'u world) option" where
  "ac_write E msg self w =
     do { (res, so) \<leftarrow> socket_write (e_ser E) (w_now w) (ac_token self) msg (ac_socket self);
          let self = self\<lparr>ac_socket := so\<rparr>;
          Some (case res of Inl e \<Rightarrow> ac_terminate self w | Inr _ \<Rightarrow> (self, w)) }"

definition ac_start ::
    "'u env \<Rightarrow> token \<Rightarrow> socket \<Rightarrow> 'u \<Rightarrow> 'u \<Rightarrow> crust_user \<Rightarrow> 'u event \<Rightarrow> 'u world \<Rightarrow> 'u world" where
  "ac_start E tok so our_id their_id their_role ev w =
     (case hb_new tok w of
        (Inl e, w) \<Rightarrow> send_event (LostPeer their_id) w
      | (Inr hb, w) \<Rightarrow>
          (let self = \<lparr>ac_token = tok, ac_socket = so, ac_our_id = our_id, ac_their_id = their_id,
                       ac_their_role = their_role, ac_heartbeat = hb\<rparr>;
               w = insert_state tok (StActive self) w;
               w = upd_cm (cm_activate their_id tok) w;
               w = send_event ev w;
               (self, w) = ac_read E self w
           in put_state (StActive self) w))"

text \<open>\<open>State::ready\<close>, \<open>State::write\<close> and \<open>State::timeout\<close>.\<close>

definition ac_ready ::
    "'u env \<Rightarrow> ready \<Rightarrow> 'u active_conn \<Rightarrow> 'u world \<Rightarrow> ('u active_conn \<times> 'u world) option" where
  "ac_ready E kind self w =
     (if is_error kind \<or> is_hup kind then Some (ac_terminate self w)
      else
        do { (self, w) \<leftarrow> (if is_writable kind then ac_write E None self w else Some (self, w));
             Some (if is_readable kind then ac_read E self w else (self, w)) })"

definition ac_state_write ::
    "'u env \<Rightarrow> byte list \<Rightarrow> priority \<Rightarrow> 'u active_conn \<Rightarrow> 'u world \<Rightarrow> ('u active_conn \<times> 'u world) option" where
  "ac_state_write E bytes p self w =
     do { (self, w) \<leftarrow> ac_write E (Some (Data bytes, p)) self w;
          Some (ac_reset_send_heartbeat self w) }"

definition ac_timeout ::
    "'u env \<Rightarrow> nat \<Rightarrow> 'u active_conn \<Rightarrow> 'u world \<Rightarrow> ('u active_conn \<times> 'u world) option" where
  "ac_timeout E tid self w =
     (case hb_timeout tid (ac_heartbeat self) w of
        (act, hb, w) \<Rightarrow>
          (let self = self\<lparr>ac_heartbeat := hb\<rparr> in
           case act of
             HbSend \<Rightarrow> ac_write E (Some (Heartbeat, 0)) self w
           | HbTerminate \<Rightarrow> Some (ac_terminate self w)))"

definition ac_peer_addr :: "'u active_conn \<Rightarrow> crust_error + socket_addr" where
  "ac_peer_addr self = map_sum Common id (socket_peer_addr (ac_socket self))"

section \<open>Accounting\<close>

text \<open>
  The token of a running handler of an active connection holds that connection, or nothing once the
  handler has terminated it.
\<close>

definition ac_self :: "'u active_conn \<Rightarrow> 'u world \<Rightarrow> bool" where
  "ac_self self w \<longleftrightarrow> w_states w (ac_token self) = None \<or> active_of (ac_their_id self) (w_states w (ac_token self))"

text \<open>What every operation of an active connection guarantees.\<close>

definition ac_keeps :: "'u active_conn \<Rightarrow> 'u world \<Rightarrow> 'u active_conn \<times> 'u world \<Rightarrow> bool" where
  "ac_keeps self w r \<longleftrightarrow>
     (\<forall>d. acct d w \<and> ac_self self w \<longrightarrow> acct d (snd r)) \<and>
     (w_states (snd r) (ac_token self) = w_states w (ac_token self) \<or>
      w_states (snd r) (ac_token self) = None) \<and>
     ac_token (fst r) = ac_token self \<and> ac_their_id (fst r) = ac_their_id self \<and>
     same_off {ac_token self} w (snd r)"

lemma ac_keeps_refl:
  assumes "ac_token self' = ac_token self" and "ac_their_id self' = ac_their_id self"
    and "w_states w' = w_states w" and "w_cm w' = w_cm w" and "same_off {} w w'"
  shows "ac_keeps self w (self', w')"
  using assms acct_cong [of w' w] by (simp add: ac_keeps_def ac_self_def same_off_def)

lemma ac_keeps_trans:
  assumes "ac_keeps self w (self1, w1)" and "ac_keeps self1 w1 r"
  shows "ac_keeps self w r"
proof -
  have "ac_self self w \<longrightarrow> ac_self self1 w1"
    using assms(1) by (auto simp: ac_keeps_def ac_self_def)
  then show ?thesis
    using assms by (auto simp: ac_keeps_def intro: same_off_trans)
qed

lemma ac_keeps_terminate [acct]: "ac_keeps self w (ac_terminate self w)"
proof -
  let ?w = "hb_terminate (ac_heartbeat self) w"
  have w: "w_states ?w = w_states w" "w_cm ?w = w_cm w" "w_token_counter ?w = w_token_counter w"
      "w_timer_answers ?w = w_timer_answers w"
    by (simp_all add: hb_terminate_def)
  have "acct d (upd_cm (cm_deactivate (ac_their_id self)) (remove_state (ac_token self) ?w))"
    if "acct d w" "ac_self self w" for d
    by (rule acct_deactivate) (use that w acct_cong [of ?w w d] in \<open>simp_all add: ac_self_def\<close>)
  then show ?thesis
    using w by (simp add: ac_keeps_def ac_terminate_def ac_self_def same_off_def Let_def)
qed

lemma hb_reset_frame [simp]:
  "w_states (snd (snd (hb_reset_receive hb w))) = w_states w"
  "w_cm (snd (snd (hb_reset_receive hb w))) = w_cm w"
  "same_off T w (snd (snd (hb_reset_receive hb w)))"
  "w_states (snd (snd (hb_reset_send hb w))) = w_states w"
  "w_cm (snd (snd (hb_reset_send hb w))) = w_cm w"
  "same_off T w (snd (snd (hb_reset_send hb w)))"
  "w_states (snd (snd (hb_timeout tid hb w))) = w_states w"
  "w_cm (snd (snd (hb_timeout tid hb w))) = w_cm w"
  "same_off T w (snd (snd (hb_timeout tid hb w)))"
  by (auto simp: hb_reset_receive_def hb_reset_send_def hb_timeout_def same_off_def
      dest!: set_timeout_eqD split: prod.splits sum.splits)

lemma hb_new_frame [simp]:
  "w_states (snd (hb_new t w)) = w_states w"
  "w_cm (snd (hb_new t w)) = w_cm w"
  "same_off T w (snd (hb_new t w))"
  by (auto simp: hb_new_def Let_def same_off_def dest!: set_timeout_eqD split: prod.splits sum.splits)

lemma ac_keeps_reset_receive [acct]: "ac_keeps self w (ac_reset_receive_heartbeat self w)"
proof -
  obtain res hb w1 where r: "hb_reset_receive (ac_heartbeat self) w = (res, hb, w1)"
    by (cases "hb_reset_receive (ac_heartbeat self) w")
  have k: "ac_keeps self w (self\<lparr>ac_heartbeat := hb\<rparr>, w1)"
    using r hb_reset_frame(1,2) [of "ac_heartbeat self" w]
      hb_reset_frame(3) [of "{}" w "ac_heartbeat self"] by (auto intro!: ac_keeps_refl)
  show ?thesis
    using k ac_keeps_trans [OF k ac_keeps_terminate] r
    by (simp add: ac_reset_receive_heartbeat_def Let_def split: sum.split)
qed

lemma ac_keeps_reset_send [acct]: "ac_keeps self w (ac_reset_send_heartbeat self w)"
proof -
  obtain res hb w1 where r: "hb_reset_send (ac_heartbeat self) w = (res, hb, w1)"
    by (cases "hb_reset_send (ac_heartbeat self) w")
  have k: "ac_keeps self w (self\<lparr>ac_heartbeat := hb\<rparr>, w1)"
    using r hb_reset_frame(4,5) [of "ac_heartbeat self" w]
      hb_reset_frame(6) [of "{}" w "ac_heartbeat self"] by (auto intro!: ac_keeps_refl)
  show ?thesis
    using k ac_keeps_trans [OF k ac_keeps_terminate] r
    by (simp add: ac_reset_send_heartbeat_def Let_def split: sum.split)
qed

lemma ac_keeps_receive [acct]: "ac_keeps self w (ac_receive m self w)"
proof (cases m)
  case (Data bytes)
  let ?w = "send_event (NewMessage (ac_their_id self) (ac_their_role self) bytes) w"
  have "ac_keeps self w (self, ?w)"
    by (rule ac_keeps_refl) simp_all
  from ac_keeps_trans [OF this ac_keeps_reset_receive] Data show ?thesis
    by (simp add: ac_receive_def)
qed (simp_all add: ac_receive_def ac_keeps_reset_receive)

lemma ac_keeps_socket: "ac_keeps self w (self\<lparr>ac_socket := so\<rparr>, w)"
  by (rule ac_keeps_refl) simp_all

lemma ac_keeps_read [acct]: "ac_keeps self w (ac_read E self w)"
proof (induction E self w rule: ac_read.induct)
  case (1 E self w)
  obtain r so where r: "socket_read (e_des E) (ac_socket self) = (r, so)" by fastforce
  consider (err) e where "r = Inl e" | (msg) m where "r = Inr (Some m)" | (none) "r = Inr None"
    by (cases r) auto
  then show ?case
  proof cases
    case err
    then show ?thesis
      using r ac_keeps_trans [OF ac_keeps_socket ac_keeps_terminate]
      by (subst ac_read.simps) simp
  next
    case msg
    obtain self1 w1 where m: "ac_receive m (self\<lparr>ac_socket := so\<rparr>) w = (self1, w1)" by fastforce
    have "ac_keeps self w (self1, w1)"
      using ac_keeps_trans [OF ac_keeps_socket ac_keeps_receive] m by metis
    moreover have "ac_keeps self1 w1 (ac_read E self1 w1)"
      using 1 r msg m by simp
    ultimately show ?thesis
      using r msg m by (subst ac_read.simps) (auto intro: ac_keeps_trans)
  next
    case none
    then show ?thesis
      using r ac_keeps_socket by (subst ac_read.simps) simp
  qed
qed

lemma ac_keeps_write [acct]: "ac_write E msg self w = Some r \<Longrightarrow> ac_keeps self w r"
  using ac_keeps_socket ac_keeps_trans [OF ac_keeps_socket ac_keeps_terminate]
  by (auto simp: ac_write_def Let_def split: bind_splits sum.splits)

lemma ac_keeps_ready [acct]: "ac_ready E kind self w = Some r \<Longrightarrow> ac_keeps self w r"
  using ac_keeps_refl [of self self w w]
  by (auto simp: ac_ready_def ac_keeps_terminate ac_keeps_read split: bind_splits if_splits
      dest!: ac_keeps_write intro: ac_keeps_trans [OF _ ac_keeps_read])

lemma ac_keeps_state_write [acct]: "ac_state_write E bytes p self w = Some r \<Longrightarrow> ac_keeps self w r"
  by (auto simp: ac_state_write_def split: bind_splits
      dest!: ac_keeps_write intro: ac_keeps_trans [OF _ ac_keeps_reset_send])

lemma ac_keeps_timeout [acct]:
  assumes "ac_timeout E tid self w = Some r"
  shows "ac_keeps self w r"
proof -
  obtain act hb w1 where h: "hb_timeout tid (ac_heartbeat self) w = (act, hb, w1)"
    by (cases "hb_timeout tid (ac_heartbeat self) w")
  have k: "ac_keeps self w (self\<lparr>ac_heartbeat := hb\<rparr>, w1)"
    using h hb_reset_frame(7,8) [of tid "ac_heartbeat self" w]
      hb_reset_frame(9) [of "{}" w tid "ac_heartbeat self"] by (auto intro!: ac_keeps_refl)
  show ?thesis
  proof (cases act)
    case HbSend
    then show ?thesis
      using assms h ac_keeps_trans [OF k ac_keeps_write] by (simp add: ac_timeout_def Let_def)
  next
    case HbTerminate
    then show ?thesis
      using assms h ac_keeps_trans [OF k ac_keeps_terminate] by (auto simp: ac_timeout_def Let_def)
  qed
qed

lemma hb_new_ok:
  assumes "w_timer_answers w = []"
  obtains hb w' where "hb_new t w = (Inr hb, w')"
  using assms by (auto simp: hb_new_def Let_def set_timeout_def)

text \<open>The handshake that the caller holds becomes the connection; or there was none, which is fine
  for a peer that the connection map does not know.\<close>

lemma acct_ac_start_gen:
  assumes "acct e w" and "w_states w tok = None" and "given w tok"
    and "w_timer_answers w = []" and "e = owe (Some u) d \<or> e = d \<and> w_cm w u = None"
  shows "acct d (ac_start E tok so our_id u role ev w)"
    and "same_off {tok} w (ac_start E tok so our_id u role ev w)"
    and "w_states (ac_start E tok so our_id u role ev w) tok = None \<or>
      active_of u (w_states (ac_start E tok so our_id u role ev w) tok)"
proof -
  obtain hb w1 where hb: "hb_new tok w = (Inr hb, w1)"
    using hb_new_ok [OF assms(4)] by blast
  have w1: "w_states w1 = w_states w" "w_cm w1 = w_cm w" "same_off {tok} w w1"
    using hb hb_new_frame(1,2) [of tok w] hb_new_frame(3) [of "{tok}" w tok] by simp_all
  let ?self = "\<lparr>ac_token = tok, ac_socket = so, ac_our_id = our_id, ac_their_id = u,
                ac_their_role = role, ac_heartbeat = hb\<rparr>"
  let ?w2 = "insert_state tok (StActive ?self) w1"
  let ?w3 = "send_event ev (upd_cm (cm_activate u tok) ?w2)"
  have "acct e ?w2"
    by (rule acct_insert)
      (use assms w1 acct_cong [of w1 w e] in \<open>simp_all add: same_off_def\<close>)
  then have a3: "acct d ?w3"
    using assms(5) acct_activate [of u d ?w2 tok] acct_activate_fresh [of d ?w2 u tok] w1(2) by auto
  have self: "ac_self ?self ?w3"
    by (simp add: ac_self_def)
  obtain self4 w4 where r: "ac_read E ?self ?w3 = (self4, w4)" by fastforce
  have k: "ac_keeps ?self ?w3 (self4, w4)"
    using ac_keeps_read [of ?self ?w3 E] r by simp
  have res: "ac_start E tok so our_id u role ev w = put_state (StActive self4) w4"
    using hb r by (simp add: ac_start_def Let_def)
  have a4: "acct d w4" and t4: "ac_token self4 = tok" "ac_their_id self4 = u" "ac_self ?self w4"
    using k a3 self by (auto simp: ac_keeps_def ac_self_def)
  show "acct d (ac_start E tok so our_id u role ev w)"
    unfolding res by (rule acct_put [OF a4]) (use t4 in \<open>auto simp: ac_self_def active_of_def\<close>)
  show "same_off {tok} w (ac_start E tok so our_id u role ev w)"
  proof -
    have "same_off {tok} w ?w3"
      using w1(3) by simp
    moreover have "same_off {tok} ?w3 w4"
      using k by (simp add: ac_keeps_def)
    ultimately show ?thesis
      using t4(1) same_off_trans unfolding res by fastforce
  qed
  show "w_states (ac_start E tok so our_id u role ev w) tok = None \<or>
      active_of u (w_states (ac_start E tok so our_id u role ev w) tok)"
    using t4 by (auto simp: res w_states_put ac_self_def split: option.splits)
qed

lemma acct_ac_start [acct]:
  assumes "acct (owe (Some u) d) w" and "w_states w tok = None" and "given w tok"
    and "w_timer_answers w = []"
  shows "acct d (ac_start E tok so our_id u role ev w)"
    and "same_off {tok} w (ac_start E tok so our_id u role ev w)"
    and "w_states (ac_start E tok so our_id u role ev w) tok = None \<or>
      active_of u (w_states (ac_start E tok so our_id u role ev w) tok)"
  using acct_ac_start_gen [OF assms disjI1 [OF refl]] by blast+

lemma links_active:
  assumes "links P w" and "same_off {t} w w'" and "w_states w t = None"
    and "w_states w' t = None \<or> active_of u (w_states w' t)"
    and "\<And>p c. \<lbrakk>w_states w p = Some (StConnect c); p \<notin> P\<rbrakk> \<Longrightarrow> t \<notin> set (cn_children c)"
  shows "links P w'"
proof -
  have off: "w_states w' t' = w_states w t'" if "t' \<noteq> t" for t'
    using assms(2) that by (simp add: same_off_def)
  have at: "child_of s = None \<and> (\<forall>c. s \<noteq> StConnect c)" if "w_states w' t = Some s" for s
    using assms(4) that by (auto simp: active_of_def)
  show ?thesis
    unfolding links_def parent_ok_def
  proof (intro conjI allI impI, goal_cases)
    case (1 t' s p u)
    with at off have "t' \<noteq> t" by auto
    with 1 off linksD(1) [OF assms(1), of t' s p u] obtain c
      where "w_states w p = Some (StConnect c)" "t' \<in> set (cn_children c)" "cn_their_id c = u"
      by (auto simp: parent_ok_def)
    moreover from this assms(3) have "p \<noteq> t" by auto
    ultimately show ?case using off by auto
  next
    case (2 p c t' s)
    with at off have "w_states w p = Some (StConnect c)" by (cases "p = t") auto
    with 2 off assms(5) linksD(2) [OF assms(1), of p c t' s] show ?case
      by (cases "t' = t") auto
  next
    case (3 p c t')
    with at off have "w_states w p = Some (StConnect c)" by (cases "p = t") auto
    with 3 linksD(3) [OF assms(1), of p c t'] assms(2) show ?case
      by (simp add: same_off_def)
  qed
qed

lemma sys_ac_start [acct]:
  assumes "sys P (owe (Some u) d) w" and "w_states w tok = None" and "given w tok"
    and "\<And>p c. \<lbrakk>w_states w p = Some (StConnect c); p \<notin> P\<rbrakk> \<Longrightarrow> tok \<notin> set (cn_children c)"
  shows "sys P d (ac_start E tok so our_id u role ev w)"
proof -
  note a = acct_ac_start [OF sysD(1) [OF assms(1)] assms(2,3) sysD(3) [OF assms(1)],
      of E so our_id role ev]
  show ?thesis
    using a(1,2) links_active [OF sysD(2) [OF assms(1)] a(2) assms(2) a(3) assms(4)] sysD(3) [OF assms(1)]
    by (simp add: sys_def same_off_def)
qed

lemma sys_ac_start_fresh [acct]:
  assumes "sys P d w" and "w_states w tok = None" and "given w tok" and "w_cm w u = None"
    and "\<And>p c. \<lbrakk>w_states w p = Some (StConnect c); p \<notin> P\<rbrakk> \<Longrightarrow> tok \<notin> set (cn_children c)"
  shows "sys P d (ac_start E tok so our_id u role ev w)"
proof -
  note a = acct_ac_start_gen [OF sysD(1) [OF assms(1)] assms(2,3) sysD(3) [OF assms(1)],
      of u d E so our_id role ev]
  have a': "acct d (ac_start E tok so our_id u role ev w)"
    "same_off {tok} w (ac_start E tok so our_id u role ev w)"
    "w_states (ac_start E tok so our_id u role ev w) tok = None \<or>
      active_of u (w_states (ac_start E tok so our_id u role ev w) tok)"
    using a assms(4) by blast+
  show ?thesis
    using a'(1,2) links_active [OF sysD(2) [OF assms(1)] a'(2) assms(2) a'(3) assms(5)] sysD(3) [OF assms(1)]
    by (simp add: sys_def same_off_def)
qed

lemma ac_keeps_shrinks: "ac_keeps self w r \<Longrightarrow> ac_self self w \<Longrightarrow> shrinks {ac_token self} w (snd r)"
  unfolding shrinks_def
proof (intro conjI allI)
  assume k: "ac_keeps self w r" "ac_self self w"
  then show "w_token_counter (snd r) = w_token_counter w"
    by (simp add: ac_keeps_def same_off_def)
  fix t
  show "w_states (snd r) t = w_states w t \<or> t \<in> {ac_token self} \<and> w_states (snd r) t = None
      \<and> (\<forall>c. w_states w t \<noteq> Some (StConnect c))"
    using k by (cases "t = ac_token self") (auto simp: ac_keeps_def same_off_def ac_self_def active_of_def)
qed

text \<open>A handler of an active connection, run by the dispatcher.\<close>

lemma sys_ac_handler [acct]:
  assumes "sys P d w" and "w_states w t = Some (StActive self)" and "ac_keeps self w r"
  shows "sys P d (put_state (StActive (fst r)) (snd r))"
proof -
  have t: "ac_token self = t"
    using acctD(5) [OF sysD(1) [OF assms(1)] assms(2)] by simp
  then have self: "ac_self self w"
    using assms(2) by (simp add: ac_self_def)
  have "sys P d (snd r)"
    using assms links_shrink [OF sysD(2) [OF assms(1)] ac_keeps_shrinks [OF assms(3) self]] self
    by (auto simp: sys_def ac_keeps_def same_off_def)
  then show ?thesis
    by (rule sys_put) (use assms(2,3) t in \<open>auto simp: ac_keeps_def\<close>)
qed

end
