(* ===== verification/Candidate.thy ===== *)
theory Candidate
  imports Active
begin

text \<open>
  \<open>src/main/connection_candidate.rs\<close>: a connection on which both sides have identified
  themselves and that waits for the side with the greater identifier to choose it. The
  closure \<open>finish\<close> that the owner installed is the parameter \<open>fin\<close>; what the candidate relies on
  is the locale \<open>candidate_finish\<close>.
\<close>

type_synonym 'u cand_fin = "'u candidate \<Rightarrow> socket option \<Rightarrow> 'u world \<Rightarrow> 'u world option"

section \<open>Operations\<close>

text \<open>
  The borrow of the state in the condition of \<open>if let Err(e) = poll.reregister(&state.borrow().socket, ..)\<close>
  lives until the end of the body, so \<open>state.borrow_mut()\<close> in the body panics: when the
  re-registration fails there is no result. The \<open>Ok\<close> value is the token itself.
\<close>

definition cand_start ::
    "token \<Rightarrow> socket \<Rightarrow> 'u \<Rightarrow> 'u \<Rightarrow> cand_finish \<Rightarrow> 'u world \<Rightarrow> 'u world option" where
  "cand_start tok so our_id their_id finish w =
     (case socket_register tok ready_ehw so of
        (None, so) \<Rightarrow>
          Some (insert_state tok
            (StCandidate \<lparr>cc_token = tok, cc_socket = so, cc_our_id = our_id, cc_their_id = their_id,
               cc_msg = Some (ChooseConnection, 0), cc_finish = finish\<rparr>) w)
      | (Some e, so) \<Rightarrow> None)"

definition cand_terminate :: "'u candidate \<Rightarrow> 'u world \<Rightarrow> 'u candidate \<times> 'u world" where
  "cand_terminate self w =
     (let w = remove_state (cc_token self) w;
          self = self\<lparr>cc_socket := snd (socket_deregister (cc_socket self))\<rparr>
      in (self, upd_cm (cm_leave (cc_their_id self)) w))"

definition cand_done :: "'u cand_fin \<Rightarrow> 'u candidate \<Rightarrow> 'u world \<Rightarrow> ('u candidate \<times> 'u world) option" where
  "cand_done fin self w =
     (let w = remove_state (cc_token self) w;
          so = cc_socket self;
          self = self\<lparr>cc_socket := socket_default\<rparr>
      in do { w \<leftarrow> fin self (Some so) w; Some (self, w) })"

definition cand_handle_error :: "'u cand_fin \<Rightarrow> 'u candidate \<Rightarrow> 'u world \<Rightarrow> ('u candidate \<times> 'u world) option" where
  "cand_handle_error fin self w =
     (let (self, w) = cand_terminate self w in do { w \<leftarrow> fin self None w; Some (self, w) })"

definition cand_read ::
    "'u env \<Rightarrow> 'u cand_fin \<Rightarrow> 'u candidate \<Rightarrow> 'u world \<Rightarrow> ('u candidate \<times> 'u world) option" where
  "cand_read E fin self w =
     (case socket_read (e_des E) (cc_socket self) of
        (res, so) \<Rightarrow>
          (let self = self\<lparr>cc_socket := so\<rparr> in
           case res of
             Inr (Some ChooseConnection) \<Rightarrow> cand_done fin self w
           | Inr (Some _) \<Rightarrow> cand_handle_error fin self w
           | Inl e \<Rightarrow> cand_handle_error fin self w
           | Inr None \<Rightarrow> Some (self, w)))"

definition cand_write ::
    "'u::linorder env \<Rightarrow> 'u cand_fin \<Rightarrow> ('u message \<times> priority) option \<Rightarrow> 'u candidate \<Rightarrow> 'u world
       \<Rightarrow> ('u candidate \<times> 'u world) option" where
  "cand_write E fin msg self w =
     (if cm_active (w_cm w) (cc_their_id self) \<noteq> None then cand_handle_error fin self w
      else if cc_our_id self > cc_their_id self then
        do { (res, so) \<leftarrow> socket_write (e_ser E) (w_now w) (cc_token self) msg (cc_socket self);
             let self = self\<lparr>cc_socket := so\<rparr>;
             (case res of
                Inr True \<Rightarrow> cand_done fin self w
              | Inr False \<Rightarrow> Some (self, w)
              | Inl e \<Rightarrow> cand_handle_error fin self w) }
      else
        (case socket_register (cc_token self) ready_erh (cc_socket self) of
           (res, so) \<Rightarrow>
             (let self = self\<lparr>cc_socket := so\<rparr> in
              case res of
                Some e \<Rightarrow> cand_handle_error fin self w
              | None \<Rightarrow> cand_read E fin self w)))"

definition cand_ready ::
    "'u::linorder env \<Rightarrow> 'u cand_fin \<Rightarrow> ready \<Rightarrow> 'u candidate \<Rightarrow> 'u world
       \<Rightarrow> ('u candidate \<times> 'u world) option" where
  "cand_ready E fin kind self w =
     (if is_error kind \<or> is_hup kind then cand_handle_error fin self w
      else
        do { (self, w) \<leftarrow> (if is_readable kind then cand_read E fin self w else Some (self, w));
             (if is_writable kind then cand_write E fin (cc_msg self) (self\<lparr>cc_msg := None\<rparr>) w
              else Some (self, w)) })"

section \<open>The contract of the owner\<close>

text \<open>The token of a candidate that has just left the loop is accounted for by its owner.\<close>

definition cand_owner :: "'u candidate \<Rightarrow> 'u world \<Rightarrow> bool" where
  "cand_owner self w \<longleftrightarrow>
     (case cc_finish self of
        FinConnect p \<Rightarrow> parent_ok w (cc_token self) p (cc_their_id self) \<and> only_parent w (cc_token self) p
      | FinListener \<Rightarrow> \<forall>p c. w_states w p = Some (StConnect c) \<longrightarrow> cc_token self \<notin> set (cn_children c))"

definition no_cand :: "token \<Rightarrow> 'u world \<Rightarrow> bool" where
  "no_cand t w \<longleftrightarrow> (\<forall>c. w_states w t \<noteq> Some (StCandidate c))"

locale candidate_finish =
  fixes fin :: "'u::linorder cand_fin"
  assumes fin_none: "\<lbrakk>sys {} no_debt w; w_states w (cc_token self) = None; fin self None w = Some w'\<rbrakk>
      \<Longrightarrow> sys {} no_debt w' \<and> no_cand (cc_token self) w'"
    and fin_some: "\<lbrakk>sys {} (owe (Some (cc_their_id self)) no_debt) w; w_states w (cc_token self) = None;
        given w (cc_token self); cand_owner self w; fin self (Some so) w = Some w'\<rbrakk>
      \<Longrightarrow> sys {} no_debt w' \<and> no_cand (cc_token self) w'"

text \<open>The token of a running handler holds the candidate.\<close>

definition cand_self :: "'u candidate \<Rightarrow> 'u world \<Rightarrow> bool" where
  "cand_self self w \<longleftrightarrow>
     (\<exists>c. w_states w (cc_token self) = Some (StCandidate c) \<and> cc_their_id c = cc_their_id self
        \<and> cc_finish c = cc_finish self)"

definition cand_keeps :: "'u candidate \<Rightarrow> 'u candidate \<times> 'u world \<Rightarrow> bool" where
  "cand_keeps self r \<longleftrightarrow>
     sys {} no_debt (snd r) \<and> cc_token (fst r) = cc_token self \<and> cc_their_id (fst r) = cc_their_id self \<and>
     cc_finish (fst r) = cc_finish self \<and>
     (no_cand (cc_token self) (snd r) \<or> cand_self self (snd r))"

lemma cand_self_cong [simp]:
  "cand_self (self\<lparr>cc_socket := so\<rparr>) w = cand_self self w"
  "cand_self (self\<lparr>cc_msg := m\<rparr>) w = cand_self self w"
  by (simp_all add: cand_self_def)

lemma cand_owner_cong [simp]: "cand_owner (self\<lparr>cc_socket := so\<rparr>) w = cand_owner self w"
  by (simp add: cand_owner_def split: cand_finish.split)

lemma cand_keeps_cong [simp]:
  "cand_keeps (self\<lparr>cc_socket := so\<rparr>) = cand_keeps self"
  "cand_keeps (self\<lparr>cc_msg := m\<rparr>) = cand_keeps self"
  by (simp_all add: cand_keeps_def fun_eq_iff)

lemma cand_keeps_stay: "sys {} no_debt w \<Longrightarrow> cand_self self w \<Longrightarrow> cand_keeps self (self, w)"
  by (simp add: cand_keeps_def)

lemma cand_removed:
  assumes "sys P d w" and "cand_self self w"
  shows "sys P (owe (Some (cc_their_id self)) d) (remove_state (cc_token self) w)"
    and "given w (cc_token self)"
    and "P = {} \<Longrightarrow> cand_owner self (remove_state (cc_token self) w)"
proof -
  obtain c where c: "w_states w (cc_token self) = Some (StCandidate c)"
      "cc_their_id c = cc_their_id self" "cc_finish c = cc_finish self"
    using assms(2) by (auto simp: cand_self_def)
  show "sys P (owe (Some (cc_their_id self)) d) (remove_state (cc_token self) w)"
    using sys_remove [OF assms(1) c(1)] c(2) by (simp add: active_of_def)
  show "given w (cc_token self)"
    using acctD(8) [OF sysD(1) [OF assms(1)] c(1)] by (simp add: reserved_def)
  show "cand_owner self (remove_state (cc_token self) w)" if "P = {}"
  proof (cases "cc_finish self")
    case (FinConnect p)
    have l: "links {} w" using sysD(2) [OF assms(1)] that by simp
    show ?thesis
      using linksD(1) [OF l c(1)] links_only_parent [OF l c(1)] c FinConnect
      by (fastforce simp: cand_owner_def parent_ok_def only_parent_def)
  next
    case FinListener
    then show ?thesis
      using linksD(2) [OF sysD(2) [OF assms(1)] _ _ _ c(1)] c that
      by (fastforce simp: cand_owner_def split: if_splits)
  qed
qed

lemma cand_terminated [acct]:
  assumes "sys P d w" and "cand_self self w"
  shows "sys P d (snd (cand_terminate self w))"
  using sys_cm(2) [OF cand_removed(1) [OF assms]]
  by (simp add: cand_terminate_def Let_def)

lemma cand_terminate_fields [simp]:
  "cc_token (fst (cand_terminate self w)) = cc_token self"
  "cc_their_id (fst (cand_terminate self w)) = cc_their_id self"
  "cc_finish (fst (cand_terminate self w)) = cc_finish self"
  "w_states (snd (cand_terminate self w)) = (w_states w)(cc_token self := None)"
  by (simp_all add: cand_terminate_def Let_def)

context candidate_finish
begin

lemma handle_error_keeps:
  assumes "sys {} no_debt w" and "cand_self self w" and "cand_handle_error fin self w = Some r"
  shows "cand_keeps self r"
proof -
  obtain s1 w1 where t: "cand_terminate self w = (s1, w1)" by fastforce
  then have *: "sys {} no_debt w1" "cc_token s1 = cc_token self" "cc_their_id s1 = cc_their_id self"
      "cc_finish s1 = cc_finish self" "w_states w1 (cc_token s1) = None"
    using cand_terminated [OF assms(1,2)] cand_terminate_fields [of self w] by simp_all
  obtain w2 where "fin s1 None w1 = Some w2" "r = (s1, w2)"
    using assms(3) t by (auto simp: cand_handle_error_def split: bind_splits)
  with fin_none [OF *(1,5)] * show ?thesis
    by (simp add: cand_keeps_def)
qed

lemma done_keeps:
  assumes "sys {} no_debt w" and "cand_self self w" and "cand_done fin self w = Some r"
  shows "cand_keeps self r"
proof -
  let ?s = "self\<lparr>cc_socket := socket_default\<rparr>" and ?w = "remove_state (cc_token self) w"
  obtain w2 where w2: "fin ?s (Some (cc_socket self)) ?w = Some w2" "r = (?s, w2)"
    using assms(3) by (auto simp: cand_done_def Let_def split: bind_splits)
  have "sys {} no_debt w2 \<and> no_cand (cc_token ?s) w2"
    by (rule fin_some [OF _ _ _ _ w2(1)])
      (use cand_removed [OF assms(1,2)] in simp_all)
  with w2 show ?thesis
    by (simp add: cand_keeps_def)
qed

lemma read_keeps:
  assumes "sys {} no_debt w" and "cand_self self w" and "cand_read E fin self w = Some r"
  shows "cand_keeps self r"
proof -
  obtain res so where s: "socket_read (e_des E) (cc_socket self) = (res, so)" by fastforce
  let ?s = "self\<lparr>cc_socket := so\<rparr>"
  have self: "cand_self ?s w" using assms(2) by simp
  have k: "cand_keeps ?s r"
    if "cand_done fin ?s w = Some r \<or> cand_handle_error fin ?s w = Some r \<or> r = (?s, w)"
    using that handle_error_keeps [OF assms(1) self] done_keeps [OF assms(1) self]
      cand_keeps_stay [OF assms(1) self] by blast
  have "cand_done fin ?s w = Some r \<or> cand_handle_error fin ?s w = Some r \<or> r = (?s, w)"
    using assms(3) s by (auto simp: cand_read_def Let_def split: sum.splits option.splits message.splits)
  from k [OF this] show ?thesis by simp
qed

lemma write_keeps:
  assumes "sys {} no_debt w" and "cand_self self w" and "cand_write E fin msg self w = Some r"
  shows "cand_keeps self r"
proof -
  have k: "cand_keeps (self\<lparr>cc_socket := so\<rparr>) r"
    if "cand_done fin (self\<lparr>cc_socket := so\<rparr>) w = Some r \<or>
        cand_handle_error fin (self\<lparr>cc_socket := so\<rparr>) w = Some r \<or>
        cand_read E fin (self\<lparr>cc_socket := so\<rparr>) w = Some r \<or> r = (self\<lparr>cc_socket := so\<rparr>, w)" for so
  proof -
    have self: "cand_self (self\<lparr>cc_socket := so\<rparr>) w" using assms(2) by simp
    show ?thesis
      using that handle_error_keeps [OF assms(1) self] done_keeps [OF assms(1) self]
        read_keeps [OF assms(1) self] cand_keeps_stay [OF assms(1) self] by blast
  qed
  have "cand_handle_error fin self w = Some r \<or>
      (\<exists>so. cand_done fin (self\<lparr>cc_socket := so\<rparr>) w = Some r \<or>
        cand_handle_error fin (self\<lparr>cc_socket := so\<rparr>) w = Some r \<or>
        cand_read E fin (self\<lparr>cc_socket := so\<rparr>) w = Some r \<or> r = (self\<lparr>cc_socket := so\<rparr>, w))"
    using assms(3)
    by (auto simp: cand_write_def Let_def split: if_splits bind_splits prod.splits sum.splits
        bool.splits option.splits)
  then show ?thesis
    using handle_error_keeps [OF assms(1,2), of r] k by fastforce
qed

text \<open>One kind of readiness per event: a candidate that was completed by a read must not be
  written to in the same event.\<close>

lemma ready_keeps:
  assumes "sys {} no_debt w" and "cand_self self w" and "cand_ready E fin kind self w = Some r"
    and "\<not> (is_readable kind \<and> is_writable kind) \<or> is_error kind \<or> is_hup kind"
  shows "cand_keeps self r"
proof (cases "is_error kind \<or> is_hup kind")
  case True
  then show ?thesis
    using assms handle_error_keeps by (auto simp: cand_ready_def)
next
  case False
  have self: "cand_self (self\<lparr>cc_msg := None\<rparr>) w" using assms(2) by simp
  from False show ?thesis
    using assms(3,4) read_keeps [OF assms(1,2)] write_keeps [OF assms(1) self] cand_keeps_stay [OF assms(1,2)]
    by (auto simp: cand_ready_def split: if_splits bind_splits)
qed

end

lemma sys_cand_put [acct]:
  assumes "cand_keeps self r"
  shows "sys {} no_debt (put_state (StCandidate (fst r)) (snd r))"
proof (rule sys_put)
  show "sys {} no_debt (snd r)"
    using assms by (simp add: cand_keeps_def)
  fix s'
  assume s': "w_states (snd r) (state_token (StCandidate (fst r))) = Some s'"
    "kind_of s' = kind_of (StCandidate (fst r))"
  then obtain c where "s' = StCandidate c" by (cases s') auto
  with assms s' show "counted (StCandidate (fst r)) = counted s' \<and> child_of (StCandidate (fst r)) = child_of s' \<and>
      (\<forall>u. active_of u (Some s') \<longrightarrow> active_of u (Some (StCandidate (fst r))))"
    by (auto simp: cand_keeps_def cand_self_def no_cand_def active_of_def split: cand_finish.split)
qed simp

end
