(* ===== verification/ConnectEx.thy ===== *)
theory ConnectEx
  imports Candidate
begin

text \<open>
  \<open>src/main/connect/exchange_msg.rs\<close>: one outgoing attempt of a connect, which sends its identity and
  expects the peer's. Its \<open>finish\<close> closure is the parameter \<open>fin\<close>, its contract the locale
  \<open>connect_ex_finish\<close>.
\<close>

type_synonym 'u cex_fin = "'u connect_ex \<Rightarrow> socket option \<Rightarrow> 'u world \<Rightarrow> 'u world option"

section \<open>Operations\<close>

definition cex_start ::
    "socket \<Rightarrow> 'u \<Rightarrow> 'u \<Rightarrow> name_hash \<Rightarrow> token \<Rightarrow> 'u world \<Rightarrow> (crust_error + token) \<times> 'u world" where
  "cex_start so our_id expected_id nh parent w =
     (let (tok, w) = get_new_token w in
      case socket_register tok ready_ehw so of
        (Some e, so) \<Rightarrow> (Inl (CrustIo e), w)
      | (None, so) \<Rightarrow>
          (let w = upd_cm (cm_enter expected_id) w;
               state = \<lparr>ce_token = tok, ce_expected_id = expected_id, ce_expected_nh = nh, ce_socket = so,
                        ce_msg = Some (Connect our_id nh, 0), ce_parent = parent\<rparr>
           in (Inr tok, insert_state tok (StConnectEx state) w)))"

definition cex_terminate :: "'u connect_ex \<Rightarrow> 'u world \<Rightarrow> 'u connect_ex \<times> 'u world" where
  "cex_terminate self w =
     (let w = remove_state (ce_token self) w;
          self = self\<lparr>ce_socket := snd (socket_deregister (ce_socket self))\<rparr>
      in (self, upd_cm (cm_leave (ce_expected_id self)) w))"

definition cex_handle_error :: "'u cex_fin \<Rightarrow> 'u connect_ex \<Rightarrow> 'u world \<Rightarrow> ('u connect_ex \<times> 'u world) option" where
  "cex_handle_error fin self w =
     (let (self, w) = cex_terminate self w in do { w \<leftarrow> fin self None w; Some (self, w) })"

definition cex_write ::
    "'u env \<Rightarrow> 'u cex_fin \<Rightarrow> ('u message \<times> priority) option \<Rightarrow> 'u connect_ex \<Rightarrow> 'u world
       \<Rightarrow> ('u connect_ex \<times> 'u world) option" where
  "cex_write E fin msg self w =
     do { (res, so) \<leftarrow> socket_write (e_ser E) (w_now w) (ce_token self) msg (ce_socket self);
          let self = self\<lparr>ce_socket := so\<rparr>;
          (case res of Inl e \<Rightarrow> cex_handle_error fin self w | Inr _ \<Rightarrow> Some (self, w)) }"

definition cex_receive_response ::
    "'u env \<Rightarrow> 'u cex_fin \<Rightarrow> 'u connect_ex \<Rightarrow> 'u world \<Rightarrow> ('u connect_ex \<times> 'u world) option" where
  "cex_receive_response E fin self w =
     (case socket_read (e_des E) (ce_socket self) of
        (res, so) \<Rightarrow>
          (let self = self\<lparr>ce_socket := so\<rparr> in
           case res of
             Inr (Some (Connect their_uid nh)) \<Rightarrow>
               if their_uid \<noteq> ce_expected_id self \<or> nh \<noteq> ce_expected_nh self then
                 cex_handle_error fin self w
               else
                 (let w = remove_state (ce_token self) w;
                      self = self\<lparr>ce_socket := socket_default\<rparr>
                  in do { w \<leftarrow> fin self (Some so) w; Some (self, w) })
           | Inr None \<Rightarrow> Some (self, w)
           | Inr (Some _) \<Rightarrow> cex_handle_error fin self w
           | Inl e \<Rightarrow> cex_handle_error fin self w))"

definition cex_ready ::
    "'u env \<Rightarrow> 'u cex_fin \<Rightarrow> ready \<Rightarrow> 'u connect_ex \<Rightarrow> 'u world \<Rightarrow> ('u connect_ex \<times> 'u world) option" where
  "cex_ready E fin kind self w =
     (if is_error kind \<or> is_hup kind then cex_handle_error fin self w
      else
        do { (self, w) \<leftarrow>
               (if is_writable kind then cex_write E fin (ce_msg self) (self\<lparr>ce_msg := None\<rparr>) w
                else Some (self, w));
             (if is_readable kind then cex_receive_response E fin self w else Some (self, w)) })"

section \<open>The contract of the parent\<close>

definition no_cex :: "token \<Rightarrow> 'u world \<Rightarrow> bool" where
  "no_cex t w \<longleftrightarrow> (\<forall>c. w_states w t \<noteq> Some (StConnectEx c))"

locale connect_ex_finish =
  fixes fin :: "'u cex_fin"
  assumes fin_none: "\<lbrakk>sys {} no_debt w; w_states w (ce_token self) = None; fin self None w = Some w'\<rbrakk>
      \<Longrightarrow> sys {} no_debt w' \<and> no_cex (ce_token self) w'"
    and fin_some: "\<lbrakk>sys {} (owe (Some (ce_expected_id self)) no_debt) w; w_states w (ce_token self) = None;
        given w (ce_token self);
        parent_ok w (ce_token self) (ce_parent self) (ce_expected_id self);
        only_parent w (ce_token self) (ce_parent self);
        fin self (Some so) w = Some w'\<rbrakk>
      \<Longrightarrow> sys {} no_debt w' \<and> no_cex (ce_token self) w'"

definition cex_self :: "'u connect_ex \<Rightarrow> 'u world \<Rightarrow> bool" where
  "cex_self self w \<longleftrightarrow>
     (\<exists>c. w_states w (ce_token self) = Some (StConnectEx c) \<and> ce_expected_id c = ce_expected_id self
        \<and> ce_parent c = ce_parent self)"

definition cex_keeps :: "'u connect_ex \<Rightarrow> 'u connect_ex \<times> 'u world \<Rightarrow> bool" where
  "cex_keeps self r \<longleftrightarrow>
     sys {} no_debt (snd r) \<and> ce_token (fst r) = ce_token self \<and> ce_expected_id (fst r) = ce_expected_id self \<and>
     ce_parent (fst r) = ce_parent self \<and>
     (no_cex (ce_token self) (snd r) \<or> cex_self self (snd r))"

lemma cex_self_cong [simp]:
  "cex_self (self\<lparr>ce_socket := so\<rparr>) w = cex_self self w"
  "cex_self (self\<lparr>ce_msg := m\<rparr>) w = cex_self self w"
  by (simp_all add: cex_self_def)

lemma cex_keeps_cong [simp]:
  "cex_keeps (self\<lparr>ce_socket := so\<rparr>) = cex_keeps self"
  "cex_keeps (self\<lparr>ce_msg := m\<rparr>) = cex_keeps self"
  by (simp_all add: cex_keeps_def fun_eq_iff)

lemma cex_keeps_stay: "sys {} no_debt w \<Longrightarrow> cex_self self w \<Longrightarrow> cex_keeps self (self, w)"
  by (simp add: cex_keeps_def)

lemma cex_removed:
  assumes "sys P d w" and "cex_self self w"
  shows "sys P (owe (Some (ce_expected_id self)) d) (remove_state (ce_token self) w)"
    and "given w (ce_token self)"
    and "P = {} \<Longrightarrow>
      parent_ok (remove_state (ce_token self) w) (ce_token self) (ce_parent self) (ce_expected_id self)"
    and "P = {} \<Longrightarrow> only_parent (remove_state (ce_token self) w) (ce_token self) (ce_parent self)"
proof -
  obtain c where c: "w_states w (ce_token self) = Some (StConnectEx c)"
      "ce_expected_id c = ce_expected_id self" "ce_parent c = ce_parent self"
    using assms(2) by (auto simp: cex_self_def)
  show "sys P (owe (Some (ce_expected_id self)) d) (remove_state (ce_token self) w)"
    using sys_remove [OF assms(1) c(1)] c(2) by (simp add: active_of_def)
  show "given w (ce_token self)"
    using acctD(8) [OF sysD(1) [OF assms(1)] c(1)] by (simp add: reserved_def)
  show "parent_ok (remove_state (ce_token self) w) (ce_token self) (ce_parent self) (ce_expected_id self)"
    if "P = {}"
    using linksD(1) [OF sysD(2) [OF assms(1)] c(1)] c that
    by (fastforce simp: parent_ok_def)
  show "only_parent (remove_state (ce_token self) w) (ce_token self) (ce_parent self)" if "P = {}"
    using links_only_parent [OF _ c(1)] sysD(2) [OF assms(1)] c that
    by (auto simp: only_parent_def)
qed

lemma cex_terminated [acct]:
  assumes "sys P d w" and "cex_self self w"
  shows "sys P d (snd (cex_terminate self w))"
  using sys_cm(2) [OF cex_removed(1) [OF assms]]
  by (simp add: cex_terminate_def Let_def)

lemma cex_terminate_fields [simp]:
  "ce_token (fst (cex_terminate self w)) = ce_token self"
  "ce_expected_id (fst (cex_terminate self w)) = ce_expected_id self"
  "ce_parent (fst (cex_terminate self w)) = ce_parent self"
  "w_states (snd (cex_terminate self w)) = (w_states w)(ce_token self := None)"
  by (simp_all add: cex_terminate_def Let_def)

context connect_ex_finish
begin

lemma handle_error_keeps:
  assumes "sys {} no_debt w" and "cex_self self w" and "cex_handle_error fin self w = Some r"
  shows "cex_keeps self r"
proof -
  obtain s1 w1 where t: "cex_terminate self w = (s1, w1)" by fastforce
  then have *: "sys {} no_debt w1" "ce_token s1 = ce_token self" "ce_expected_id s1 = ce_expected_id self"
      "ce_parent s1 = ce_parent self" "w_states w1 (ce_token s1) = None"
    using cex_terminated [OF assms(1,2)] cex_terminate_fields [of self w] by simp_all
  obtain w2 where "fin s1 None w1 = Some w2" "r = (s1, w2)"
    using assms(3) t by (auto simp: cex_handle_error_def split: bind_splits)
  with fin_none [OF *(1,5)] * show ?thesis
    by (simp add: cex_keeps_def)
qed

lemma complete_keeps:
  assumes "sys {} no_debt w" and "cex_self self w"
    and "fin (self\<lparr>ce_socket := socket_default\<rparr>) (Some so) (remove_state (ce_token self) w) = Some w'"
  shows "cex_keeps self (self\<lparr>ce_socket := socket_default\<rparr>, w')"
proof -
  have "sys {} no_debt w' \<and> no_cex (ce_token (self\<lparr>ce_socket := socket_default\<rparr>)) w'"
    by (rule fin_some [OF _ _ _ _ _ assms(3)]) (use cex_removed [OF assms(1,2)] in simp_all)
  then show ?thesis
    by (simp add: cex_keeps_def)
qed

lemma write_keeps:
  assumes "sys {} no_debt w" and "cex_self self w" and "cex_write E fin msg self w = Some r"
  shows "cex_keeps self r"
proof -
  have "\<exists>so. cex_handle_error fin (self\<lparr>ce_socket := so\<rparr>) w = Some r \<or> r = (self\<lparr>ce_socket := so\<rparr>, w)"
    using assms(3) by (auto simp: cex_write_def Let_def split: bind_splits sum.splits)
  then obtain so where
    "cex_handle_error fin (self\<lparr>ce_socket := so\<rparr>) w = Some r \<or> r = (self\<lparr>ce_socket := so\<rparr>, w)" ..
  moreover have "cex_self (self\<lparr>ce_socket := so\<rparr>) w" using assms(2) by simp
  ultimately have "cex_keeps (self\<lparr>ce_socket := so\<rparr>) r"
    using handle_error_keeps [OF assms(1)] cex_keeps_stay [OF assms(1)] by blast
  then show ?thesis by simp
qed

lemma receive_response_keeps:
  assumes "sys {} no_debt w" and "cex_self self w" and "cex_receive_response E fin self w = Some r"
  shows "cex_keeps self r"
proof -
  obtain res so where s: "socket_read (e_des E) (ce_socket self) = (res, so)" by fastforce
  let ?s = "self\<lparr>ce_socket := so\<rparr>"
  have self: "cex_self ?s w" using assms(2) by simp
  have "cex_handle_error fin ?s w = Some r \<or> r = (?s, w) \<or>
      (\<exists>w'. fin (?s\<lparr>ce_socket := socket_default\<rparr>) (Some so) (remove_state (ce_token ?s) w) = Some w' \<and>
        r = (?s\<lparr>ce_socket := socket_default\<rparr>, w'))"
    using assms(3) s
    by (auto simp: cex_receive_response_def Let_def
        split: sum.splits option.splits message.splits if_splits bind_splits)
  then have "cex_keeps ?s r"
    using handle_error_keeps [OF assms(1) self] cex_keeps_stay [OF assms(1) self]
      complete_keeps [OF assms(1) self] by blast
  then show ?thesis by simp
qed

lemma ready_keeps:
  assumes "sys {} no_debt w" and "cex_self self w" and "cex_ready E fin kind self w = Some r"
    and "\<not> (is_readable kind \<and> is_writable kind) \<or> is_error kind \<or> is_hup kind"
  shows "cex_keeps self r"
proof (cases "is_error kind \<or> is_hup kind")
  case True
  then show ?thesis
    using assms handle_error_keeps by (auto simp: cex_ready_def)
next
  case False
  have self: "cex_self (self\<lparr>ce_msg := None\<rparr>) w" using assms(2) by simp
  from False show ?thesis
    using assms(3,4) receive_response_keeps [OF assms(1,2)] write_keeps [OF assms(1) self]
      cex_keeps_stay [OF assms(1,2)]
    by (auto simp: cex_ready_def split: if_splits bind_splits)
qed

end

lemma sys_cex_put [acct]:
  assumes "cex_keeps self r"
  shows "sys {} no_debt (put_state (StConnectEx (fst r)) (snd r))"
proof (rule sys_put)
  show "sys {} no_debt (snd r)"
    using assms by (simp add: cex_keeps_def)
  fix s'
  assume s': "w_states (snd r) (state_token (StConnectEx (fst r))) = Some s'"
    "kind_of s' = kind_of (StConnectEx (fst r))"
  then obtain c where "s' = StConnectEx c" by (cases s') auto
  with assms s' show "counted (StConnectEx (fst r)) = counted s' \<and> child_of (StConnectEx (fst r)) = child_of s' \<and>
      (\<forall>u. active_of u (Some s') \<longrightarrow> active_of u (Some (StConnectEx (fst r))))"
    by (auto simp: cex_keeps_def cex_self_def no_cex_def active_of_def)
qed simp

text \<open>The accounting of a new attempt; its link to the parent is the parent's business.\<close>

lemma cex_start_result:
  assumes "cex_start so our_id u nh p w = (r, w')"
  shows "(\<exists>e. r = Inl e \<and> w' = snd (get_new_token w)) \<or>
    (\<exists>c. r = Inr (w_token_counter w) \<and> ce_token c = w_token_counter w \<and> ce_expected_id c = u \<and> ce_parent c = p \<and>
       w' = insert_state (w_token_counter w) (StConnectEx c) (upd_cm (cm_enter u) (snd (get_new_token w))))"
proof (cases "socket_register (w_token_counter w) ready_ehw so")
  case (Pair e so')
  let ?c = "\<lparr>ce_token = w_token_counter w, ce_expected_id = u, ce_expected_nh = nh, ce_socket = so',
             ce_msg = Some (Connect our_id nh, 0), ce_parent = p\<rparr>"
  show ?thesis
  proof (cases e)
    case None
    with Pair assms show ?thesis
      by (intro disjI2 exI [of _ ?c]) (simp add: cex_start_def get_new_token_def Let_def)
  next
    case (Some x)
    with Pair assms show ?thesis
      by (auto simp: cex_start_def get_new_token_def Let_def)
  qed
qed

lemma acct_cex_start [acct]:
  assumes "acct d w" and "live w u + d u + 1 < 2 ^ 64" and "cex_start so our_id u nh p w = (r, w')"
  shows "acct d w'"
proof -
  let ?w = "snd (get_new_token w)"
  have a: "acct d ?w" using assms(1) by simp
  have l: "live ?w = live w" by (simp add: live_def fun_eq_iff)
  have none: "w_states w (w_token_counter w) = None"
    using acctD(6) [OF assms(1)] by (metis less_irrefl not_None_eq)
  have "acct d (insert_state (w_token_counter w) (StConnectEx c) (upd_cm (cm_enter u) ?w))"
    if "ce_token c = w_token_counter w" "ce_expected_id c = u" for c
    by (rule acct_insert) (use acct_enter [OF a, of u] assms(2) l none that acctD(9) [OF assms(1)] in simp_all)
  with cex_start_result [OF assms(3)] a show ?thesis by auto
qed

end
