(* ===== verification/NatUtil.thy ===== *)
theory NatUtil
  imports Accounting
begin

text \<open>
  \<open>src/nat/util.rs\<close> and \<open>src/nat/punch_hole.rs\<close>: reusably bound sockets, and the listener and
  unconnected sockets for hole punching. The outcomes of the calls of net2 are in the
  \<open>tcp_builder\<close> and in the world.
\<close>

definition tcp_builder_new :: "'u world \<Rightarrow> (io_error + tcp_builder) \<times> 'u world" where
  "tcp_builder_new w =
     (case pop_answer (Inl (OtherIo 0)) (w_builders w) of (r, rest) \<Rightarrow> (r, w\<lparr>w_builders := rest\<rparr>))"

text \<open>One of the calls \<open>reuse_address\<close>, \<open>reuse_port\<close>, \<open>bind\<close> on a builder.\<close>

definition tb_call :: "tcp_builder \<Rightarrow> io_error + tcp_builder" where
  "tb_call tb = (case pop_answer None (tb_opts tb) of (Some e, r) \<Rightarrow> Inl e | (None, r) \<Rightarrow> Inr (tb\<lparr>tb_opts := r\<rparr>))"

definition new_reusably_bound_tcp_socket :: "socket_addr \<Rightarrow> 'u world \<Rightarrow> (io_error + tcp_builder) \<times> 'u world" where
  "new_reusably_bound_tcp_socket local_addr w =
     (case (case sa_ip local_addr of V4 _ \<Rightarrow> tcp_builder_new w | V6 _ \<Rightarrow> tcp_builder_new w) of
        (Inl e, w) \<Rightarrow> (Inl e, w)
      | (Inr tb, w) \<Rightarrow>
          ((case tb_call tb of
              Inl e \<Rightarrow> Inl e
            | Inr tb \<Rightarrow>
                (case tb_call tb of
                   Inl e \<Rightarrow> Inl e
                 | Inr tb \<Rightarrow> tb_call tb)), w))"

text \<open>The loop that makes the required number of unconnected sockets.\<close>

fun unconnected_sockets :: "socket_addr \<Rightarrow> nat \<Rightarrow> 'u world \<Rightarrow> (nat_error + unit list) \<times> 'u world" where
  "unconnected_sockets local_addr 0 w = (Inr [], w)"
| "unconnected_sockets local_addr (Suc n) w =
     (case new_reusably_bound_tcp_socket local_addr w of
        (Inl e, w) \<Rightarrow> (Inl (NatIo e), w)
      | (Inr tb, w) \<Rightarrow>
          (case tb_to_stream tb of
             Some e \<Rightarrow> (Inl (NatIo e), w)
           | None \<Rightarrow>
               (case unconnected_sockets local_addr n w of
                  (Inl e, w) \<Rightarrow> (Inl e, w)
                | (Inr ss, w) \<Rightarrow> (Inr (() # ss), w))))"

definition get_sockets ::
    "tcp_builder \<Rightarrow> nat \<Rightarrow> 'u world \<Rightarrow> (nat_error + tcp_listener \<times> unit list) \<times> 'u world" where
  "get_sockets mapped_socket required w =
     (case tb_local mapped_socket of
        Inl e \<Rightarrow> (Inl (NatIo e), w)
      | Inr local_addr \<Rightarrow>
          (case unconnected_sockets local_addr required w of
             (Inl e, w) \<Rightarrow> (Inl e, w)
           | (Inr ss, w) \<Rightarrow>
               (case tb_listen mapped_socket of
                  Inl e \<Rightarrow> (Inl (NatIo e), w)
                | Inr l \<Rightarrow>
                    (case tb_from_listener mapped_socket of
                       Some e \<Rightarrow> (Inl (NatIo e), w)
                     | None \<Rightarrow> (Inr (l, ss), w)))))"

section \<open>Facts\<close>

text \<open>These calls leave the event loop alone.\<close>

definition quiet :: "'u world \<Rightarrow> 'u world \<Rightarrow> bool" where
  "quiet w w' \<longleftrightarrow> w_states w' = w_states w \<and> w_cm w' = w_cm w \<and> w_token_counter w' = w_token_counter w \<and>
     w_events w' = w_events w \<and> w_timer_answers w' = w_timer_answers w \<and> w_config w' = w_config w"

lemma quiet_refl [simp]: "quiet w w"
  by (simp add: quiet_def)

lemma quiet_trans: "quiet w w' \<Longrightarrow> quiet w' w'' \<Longrightarrow> quiet w w''"
  by (simp add: quiet_def)

lemma sys_quiet: "quiet w w' \<Longrightarrow> sys P d w \<Longrightarrow> sys P d w'"
  by (rule sys_cong) (auto simp: quiet_def)

lemma tcp_connect_quiet: "tcp_connect w = (r, w') \<Longrightarrow> quiet w w'"
  by (auto simp: tcp_connect_def quiet_def split: prod.splits)

lemma socket_connect_quiet: "socket_connect w = (r, w') \<Longrightarrow> quiet w w'"
  by (auto simp: socket_connect_def dest: tcp_connect_quiet split: prod.splits sum.splits)

lemma new_reusably_bound_quiet: "new_reusably_bound_tcp_socket a w = (r, w') \<Longrightarrow> quiet w w'"
  by (auto simp: new_reusably_bound_tcp_socket_def tcp_builder_new_def quiet_def
      split: prod.splits sum.splits ip_addr.splits)

lemma unconnected_sockets_quiet: "unconnected_sockets a n w = (r, w') \<Longrightarrow> quiet w w'"
proof (induction n arbitrary: w r w')
  case (Suc n)
  then show ?case
    by (auto split: prod.splits sum.splits option.splits
        dest!: new_reusably_bound_quiet intro: quiet_trans)
qed simp

lemma unconnected_sockets_length: "unconnected_sockets a n w = (Inr ss, w') \<Longrightarrow> length ss = n"
  by (induction n arbitrary: w ss w') (auto split: prod.splits sum.splits option.splits)

lemma get_sockets_quiet: "get_sockets m n w = (r, w') \<Longrightarrow> quiet w w'"
  by (auto simp: get_sockets_def dest: unconnected_sockets_quiet
      split: prod.splits sum.splits option.splits)

lemma get_sockets_length: "get_sockets m n w = (Inr (l, ss), w') \<Longrightarrow> length ss = n"
  by (auto simp: get_sockets_def dest: unconnected_sockets_length
      split: prod.splits sum.splits option.splits)

end
