(* ===== verification/Connect.thy ===== *)
theory Connect
  imports ConnectEx NatUtil
begin

text \<open>
  \<open>src/main/connect/mod.rs\<close>: an outgoing connect to one peer. It opens one attempt per address,
  turns the attempts that identified the peer into candidates, keeps the first candidate that is
  chosen, and gives up when no attempt is left or after a minute.
\<close>

section \<open>Terminating the attempts\<close>

text \<open>
  Dynamic dispatch of \<open>terminate\<close> on a child. The children of a connect are attempts
  and candidates (the second half of \<open>links\<close>); no other state is expected here.
\<close>

fun terminate_attempt :: "'u state \<Rightarrow> 'u world \<Rightarrow> 'u world option" where
  "terminate_attempt (StConnectEx c) w = Some (snd (cex_terminate c w))"
| "terminate_attempt (StCandidate c) w = Some (snd (cand_terminate c w))"
| "terminate_attempt (StActive a) w = Some (snd (ac_terminate a w))"
| "terminate_attempt _ w = None"

fun terminate_attempts :: "token list \<Rightarrow> 'u world \<Rightarrow> 'u world option" where
  "terminate_attempts [] w = Some w"
| "terminate_attempts (t # ts) w =
     (case get_state t w of
        None \<Rightarrow> terminate_attempts ts w
      | Some s \<Rightarrow> do { w \<leftarrow> terminate_attempt s w; terminate_attempts ts w })"

section \<open>Operations\<close>

definition TIMEOUT_SEC :: nat where
  "TIMEOUT_SEC = 60"

definition connect_terminate :: "'u connect_st \<Rightarrow> 'u world \<Rightarrow> ('u connect_st \<times> 'u world) option" where
  "connect_terminate self w =
     do { w \<leftarrow> terminate_attempts (cn_children self) w;
          let self = self\<lparr>cn_children := [], cn_listener := None\<rparr>;
          let w = cancel_timeout (cn_timeout self) w;
          let w = remove_state (cn_token self) w;
          Some (self, if w_cm w (cn_their_id self) = None
                      then send_event (ConnectFailure (cn_their_id self)) w else w) }"

definition connect_maybe_terminate :: "'u connect_st \<Rightarrow> 'u world \<Rightarrow> ('u connect_st \<times> 'u world) option" where
  "connect_maybe_terminate self w =
     (if cn_children self = [] then connect_terminate self w else Some (self, w))"

definition connect_exchange_msg ::
    "socket \<Rightarrow> 'u connect_st \<Rightarrow> 'u world \<Rightarrow> ('u connect_st \<times> 'u world) option" where
  "connect_exchange_msg so self w =
     (case cex_start so (cn_our_id self) (cn_their_id self) (cn_our_nh self) (cn_token self) w of
        (Inr child, w) \<Rightarrow>
          connect_maybe_terminate (self\<lparr>cn_children := hs_insert child (cn_children self)\<rparr>) w
      | (Inl e, w) \<Rightarrow> connect_maybe_terminate self w)"

definition connect_handle_exchange_msg ::
    "token \<Rightarrow> socket option \<Rightarrow> 'u connect_st \<Rightarrow> 'u world \<Rightarrow> ('u connect_st \<times> 'u world) option" where
  "connect_handle_exchange_msg child res self w =
     (let self = self\<lparr>cn_children := hs_remove child (cn_children self)\<rparr> in
      case res of
        Some so \<Rightarrow>
          do { w \<leftarrow> cand_start child so (cn_our_id self) (cn_their_id self) (FinConnect (cn_token self)) w;
               connect_maybe_terminate (self\<lparr>cn_children := hs_insert child (cn_children self)\<rparr>) w }
      | None \<Rightarrow> connect_maybe_terminate self w)"

definition connect_handle_candidate ::
    "'u env \<Rightarrow> token \<Rightarrow> socket option \<Rightarrow> 'u connect_st \<Rightarrow> 'u world \<Rightarrow> ('u connect_st \<times> 'u world) option" where
  "connect_handle_candidate E child res self w =
     (let self = self\<lparr>cn_children := hs_remove child (cn_children self)\<rparr> in
      case res of
        Some so \<Rightarrow>
          do { (self, w) \<leftarrow> connect_terminate self w;
               Some (self, ac_start E child so (cn_our_id self) (cn_their_id self) Node
                 (ConnectSuccess (cn_their_id self)) w) }
      | None \<Rightarrow> connect_maybe_terminate self w)"

text \<open>The closures that the attempts and the candidates call: the parent, if it still exists.\<close>

definition connect_ex_fin :: "'u cex_fin" where
  "connect_ex_fin child res w =
     (case get_state (ce_parent child) w of
        Some (StConnect self) \<Rightarrow>
          do { (self, w) \<leftarrow> connect_handle_exchange_msg (ce_token child) res self w;
               Some (put_state (StConnect self) w) }
      | _ \<Rightarrow> Some w)"

text \<open>The closure of the listener's candidates (\<open>connection_listener/exchange_msg.rs\<close>).\<close>

definition listener_cand_fin :: "'u env \<Rightarrow> 'u cand_fin" where
  "listener_cand_fin E child res w =
     (case res of
        Some so \<Rightarrow> Some (ac_start E (cc_token child) so (cc_our_id child) (cc_their_id child) Node
          (ConnectSuccess (cc_their_id child)) w)
      | None \<Rightarrow> Some w)"

definition cand_fin :: "'u env \<Rightarrow> 'u cand_fin" where
  "cand_fin E child res w =
     (case cc_finish child of
        FinListener \<Rightarrow> listener_cand_fin E child res w
      | FinConnect p \<Rightarrow>
          (case get_state p w of
             Some (StConnect self) \<Rightarrow>
               do { (self, w) \<leftarrow> connect_handle_candidate E (cc_token child) res self w;
                    Some (put_state (StConnect self) w) }
           | _ \<Rightarrow> Some w))"

text \<open>The loop of \<open>accept\<close>: no result is the panic of \<open>unwrap!(self.listener.as_ref())\<close>.\<close>

lemma connect_maybe_terminate_listener:
  "connect_maybe_terminate self w = Some (self', w') \<Longrightarrow>
     cn_listener self' = cn_listener self \<or> cn_listener self' = None"
  by (auto simp: connect_maybe_terminate_def connect_terminate_def Let_def split: if_splits bind_splits)

lemma connect_exchange_msg_listener:
  "connect_exchange_msg so self w = Some (self', w') \<Longrightarrow>
     cn_listener self' = cn_listener self \<or> cn_listener self' = None"
  by (auto simp: connect_exchange_msg_def dest!: connect_maybe_terminate_listener
      split: prod.splits sum.splits)

function connect_accept :: "'u connect_st \<Rightarrow> 'u world \<Rightarrow> ('u connect_st \<times> 'u world) option" where
  "connect_accept self w =
     (case cn_listener self of
        None \<Rightarrow> None
      | Some l \<Rightarrow>
          (case tl_accept l of
             (Inr st, l) \<Rightarrow>
               do { (self, w) \<leftarrow> connect_exchange_msg (socket_wrap st) (self\<lparr>cn_listener := Some l\<rparr>) w;
                    connect_accept self w }
           | (Inl e, l) \<Rightarrow> Some (self\<lparr>cn_listener := Some l\<rparr>, w)))"
  by pat_completeness auto

fun pending_accepts :: "tcp_listener option \<Rightarrow> nat" where
  "pending_accepts None = 0"
| "pending_accepts (Some l) = Suc (length (tl_accepts l))"

lemma tl_accept_shorter: "tl_accept l = (Inr st, l') \<Longrightarrow> length (tl_accepts l') < length (tl_accepts l)"
  by (cases "tl_accepts l") (auto simp: tl_accept_def)

lemma connect_accept_shorter:
  assumes "connect_exchange_msg so (self\<lparr>cn_listener := Some l'\<rparr>) w = Some (self', w')"
    and "cn_listener self = Some l" and "tl_accept l = (Inr st, l')"
  shows "pending_accepts (cn_listener self') < pending_accepts (cn_listener self)"
  using connect_exchange_msg_listener [OF assms(1)] tl_accept_shorter [OF assms(3)] assms(2) by auto

termination connect_accept
  by (relation "measure (\<lambda>(self, w). pending_accepts (cn_listener self))")
    (auto dest: connect_accept_shorter [OF _ _ sym])

declare connect_accept.simps [simp del]

text \<open>The addresses that can be reached at once: \<open>filter_map(|elt| Socket::connect(&elt).ok())\<close>, and the
  same for the punched sockets.\<close>

fun connect_all :: "'a list \<Rightarrow> 'u world \<Rightarrow> socket list \<times> 'u world" where
  "connect_all [] w = ([], w)"
| "connect_all (a # as) w =
     (case socket_connect w of
        (r, w) \<Rightarrow>
          (case connect_all as w of
             (ss, w) \<Rightarrow> (case r of Inl e \<Rightarrow> ss | Inr s \<Rightarrow> s # ss, w)))"

fun connect_exchange_all ::
    "socket list \<Rightarrow> 'u connect_st \<Rightarrow> 'u world \<Rightarrow> ('u connect_st \<times> 'u world) option" where
  "connect_exchange_all [] self w = Some (self, w)"
| "connect_exchange_all (so # ss) self w =
     do { (self, w) \<leftarrow> connect_exchange_msg so self w; connect_exchange_all ss self w }"

text \<open>The part of \<open>start\<close> that prepares hole punching: an error is the \<open>?\<close> of the registration.\<close>

definition connect_hole_punch ::
    "tcp_builder option \<Rightarrow> socket_addr list \<Rightarrow> token \<Rightarrow> 'u world
       \<Rightarrow> (crust_error + tcp_listener option \<times> socket list) \<times> 'u world" where
  "connect_hole_punch hps their_hole_punch tok w =
     (case hps of
        None \<Rightarrow> (Inr (None, []), w)
      | Some hole_punch_sock \<Rightarrow>
          (case get_sockets hole_punch_sock (length their_hole_punch) w of
             (Inl e, w) \<Rightarrow> (Inr (None, []), w)
           | (Inr (l, nat_sockets), w) \<Rightarrow>
               (case tl_register tok ready_erh l of
                  (Some e, l) \<Rightarrow> (Inl (CrustIo e), w)
                | (None, l) \<Rightarrow>
                    (case connect_all (zip nat_sockets their_hole_punch) w of
                       (ss, w) \<Rightarrow> (Inr (Some l, ss), w)))))"

definition connect_start ::
    "'u priv_connection_info \<Rightarrow> 'u pub_connection_info \<Rightarrow> name_hash \<Rightarrow> 'u world
       \<Rightarrow> ((crust_error + unit) \<times> 'u world) option" where
  "connect_start our_ci their_ci our_nh w =
     (let their_id = pub_id their_ci;
          their_direct = pub_for_direct their_ci;
          their_hole_punch = pub_for_hole_punch their_ci
      in
      if their_direct = [] \<and> their_hole_punch = [] then
        Some (Inl InsufficientConnectionInfo, send_event (ConnectFailure their_id) w)
      else
        (let (tok, w) = get_new_token w in
         case set_timeout (TIMEOUT_SEC * 1000) (CoreTimer tok 0) w of
           (Inl e, w) \<Rightarrow> Some (Inl (Common e), w)
         | (Inr tm, w) \<Rightarrow>
             (let self = \<lparr>cn_token = tok, cn_timeout = tm, cn_our_nh = our_nh, cn_our_id = priv_id our_ci,
                          cn_their_id = their_id, cn_listener = None, cn_children = []\<rparr>;
                  (sockets, w) = connect_all their_direct w
              in
              case connect_hole_punch (priv_hole_punch_socket our_ci) their_hole_punch tok w of
                (Inl e, w) \<Rightarrow> Some (Inl e, w)
              | (Inr (l, punched), w) \<Rightarrow>
                  do { (self, w) \<leftarrow> connect_exchange_all (sockets @ punched) (self\<lparr>cn_listener := l\<rparr>) w;
                       Some (Inr (), insert_state tok (StConnect self) w) })))"

definition connect_ready :: "ready \<Rightarrow> 'u connect_st \<Rightarrow> 'u world \<Rightarrow> ('u connect_st \<times> 'u world) option" where
  "connect_ready kind self w =
     (if \<not> is_error kind \<and> \<not> is_hup kind \<and> is_readable kind then connect_accept self w else Some (self, w))"

definition connect_timeout :: "'u connect_st \<Rightarrow> 'u world \<Rightarrow> ('u connect_st \<times> 'u world) option" where
  "connect_timeout self w = connect_terminate self w"

section \<open>Accounting\<close>

text \<open>What a running connect knows about its attempts.\<close>

definition conn_local :: "'u connect_st \<Rightarrow> 'u world \<Rightarrow> bool" where
  "conn_local self w \<longleftrightarrow>
     (\<forall>t s u. w_states w t = Some s \<and> child_of s = Some (cn_token self, u) \<longrightarrow>
        t \<in> set (cn_children self) \<and> u = cn_their_id self) \<and>
     (\<forall>t s. t \<in> set (cn_children self) \<and> w_states w t = Some s \<longrightarrow>
        (\<exists>u. child_of s = Some (cn_token self, u))) \<and>
     (\<forall>t \<in> set (cn_children self). given w t)"

lemma conn_localD:
  assumes "conn_local self w"
  shows "\<lbrakk>w_states w t = Some s; child_of s = Some (cn_token self, u)\<rbrakk> \<Longrightarrow>
      t \<in> set (cn_children self) \<and> u = cn_their_id self"
    and "\<lbrakk>t \<in> set (cn_children self); w_states w t = Some s\<rbrakk> \<Longrightarrow> \<exists>u. child_of s = Some (cn_token self, u)"
    and "t \<in> set (cn_children self) \<Longrightarrow> given w t"
  using assms unfolding conn_local_def by blast+

lemma conn_local_cong:
  assumes "conn_local self w" and "w_states w' = w_states w" and "w_token_counter w \<le> w_token_counter w'"
    and "cn_token self' = cn_token self" and "cn_their_id self' = cn_their_id self"
    and "cn_children self' = cn_children self"
  shows "conn_local self' w'"
  using assms by (fastforce simp: conn_local_def)

lemma conn_open:
  assumes "sys {} d w" and "w_states w p = Some (StConnect self)"
  shows "cn_token self = p" and "sys {p} d w" and "conn_local self w"
proof -
  show t: "cn_token self = p"
    using acctD(5) [OF sysD(1) [OF assms(1)] assms(2)] by simp
  show "sys {p} d w"
    using sys_mono [OF assms(1)] by simp
  show "conn_local self w"
    using linksD(1) [OF sysD(2) [OF assms(1)]] linksD(2,3) [OF sysD(2) [OF assms(1)] assms(2)] t assms(2)
    by (fastforce simp: conn_local_def parent_ok_def)
qed

text \<open>A child that has left the loop is struck off the list.\<close>

lemma conn_local_strike:
  assumes "conn_local self w" and "w_states w t = None"
  shows "conn_local (self\<lparr>cn_children := hs_remove t (cn_children self)\<rparr>) w"
  using assms by (fastforce simp: conn_local_def)

lemma child_of_cases:
  assumes "child_of s \<noteq> None"
  obtains c where "s = StConnectEx c" | c where "s = StCandidate c"
  using assms by (cases s) auto

lemma terminate_attempt_ok:
  assumes "sys P d w" and "w_states w t = Some s" and "child_of s \<noteq> None"
  shows "\<exists>w'. terminate_attempt s w = Some w' \<and> sys P d w' \<and> w_states w' = (w_states w)(t := None) \<and>
    w_token_counter w' = w_token_counter w"
proof -
  have tok: "state_token s = t"
    using acctD(5) [OF sysD(1) [OF assms(1)] assms(2)] .
  from assms(3) show ?thesis
  proof (cases rule: child_of_cases)
    case (1 c)
    then have "cex_self c w" using assms(2) tok by (simp add: cex_self_def)
    from cex_terminated [OF assms(1) this] 1 tok show ?thesis
      by (simp add: cex_terminate_def Let_def)
  next
    case (2 c)
    then have "cand_self c w" using assms(2) tok by (simp add: cand_self_def)
    from cand_terminated [OF assms(1) this] 2 tok show ?thesis
      by (simp add: cand_terminate_def Let_def)
  qed
qed

lemma terminate_attempts_ok:
  assumes "sys P d w" and "\<forall>t \<in> set ts. \<forall>s. w_states w t = Some s \<longrightarrow> child_of s \<noteq> None"
  shows "\<exists>w'. terminate_attempts ts w = Some w' \<and> sys P d w' \<and>
    w_states w' = (\<lambda>t. if t \<in> set ts then None else w_states w t) \<and>
    w_token_counter w' = w_token_counter w"
  using assms
proof (induction ts arbitrary: w)
  case (Cons t ts)
  show ?case
  proof (cases "w_states w t")
    case None
    with Cons.IH [OF Cons.prems(1)] Cons.prems(2) show ?thesis
      by (auto simp: get_state_def fun_eq_iff)
  next
    case (Some s)
    with Cons.prems obtain w1 where w1: "terminate_attempt s w = Some w1" "sys P d w1"
        "w_states w1 = (w_states w)(t := None)" "w_token_counter w1 = w_token_counter w"
      using terminate_attempt_ok [OF Cons.prems(1) Some] by auto
    have "\<forall>t \<in> set ts. \<forall>s. w_states w1 t = Some s \<longrightarrow> child_of s \<noteq> None"
      using Cons.prems(2) w1(3) by auto
    from Cons.IH [OF w1(2) this] obtain w2 where w2: "terminate_attempts ts w1 = Some w2" "sys P d w2"
        "w_states w2 = (\<lambda>t. if t \<in> set ts then None else w_states w1 t)"
        "w_token_counter w2 = w_token_counter w1"
      by blast
    show ?thesis
      by (rule exI [of _ w2]) (use w1 w2 Some in \<open>auto simp: get_state_def fun_eq_iff\<close>)
  qed
qed auto

lemma sys_remove_connect:
  assumes "sys {p} d w" and "\<forall>s. w_states w p = Some s \<longrightarrow> kind_of s = KConnect"
    and "\<forall>t s u. w_states w t = Some s \<longrightarrow> child_of s \<noteq> Some (p, u)"
  shows "sys {} d (remove_state p w)"
proof -
  have "acct d (remove_state p w)"
  proof (cases "w_states w p")
    case None
    then show ?thesis using acct_remove_None [OF sysD(1) [OF assms(1)]] by simp
  next
    case (Some s)
    with assms(2) obtain c where "s = StConnect c" by (cases s) auto
    with acct_remove [OF sysD(1) [OF assms(1)] Some] show ?thesis
      by (simp add: active_of_def)
  qed
  moreover have "links {} (remove_state p w)"
    unfolding links_def parent_ok_def
  proof (intro conjI allI impI, goal_cases)
    case (1 t s p' u)
    then have "p' \<noteq> p" "w_states w t = Some s" using assms(3) by (auto split: if_splits)
    with 1 linksD(1) [OF sysD(2) [OF assms(1)], of t s p' u] show ?case
      by (simp add: parent_ok_def)
  next
    case (2 p' c t s)
    then show ?case
      using linksD(2) [OF sysD(2) [OF assms(1)], of p' c t s] by (auto split: if_splits)
  next
    case (3 p' c t)
    then show ?case
      using linksD(3) [OF sysD(2) [OF assms(1)], of p' c t] by (auto split: if_splits)
  qed
  ultimately show ?thesis
    using sysD(3) [OF assms(1)] by (simp add: sys_def)
qed

text \<open>The running connect's record enters the loop, anew or again.\<close>

lemma links_connect:
  assumes "links {p} w" and "conn_local self w" and "cn_token self = p"
    and "\<And>s. w_states w p = Some s \<Longrightarrow> child_of s = None"
    and "\<And>p' c. \<lbrakk>w_states w p' = Some (StConnect c); p' \<noteq> p\<rbrakk> \<Longrightarrow> p \<notin> set (cn_children c)"
    and "p \<notin> set (cn_children self)"
  shows "links {} (insert_state p (StConnect self) w)"
  unfolding links_def parent_ok_def
proof (intro conjI allI impI, goal_cases)
  case (1 t s p' u)
  then have t: "t \<noteq> p" "w_states w t = Some s" by (auto split: if_splits)
  show ?case
  proof (cases "p' = p")
    case True
    with 1 t conn_localD(1) [OF assms(2), of t s u] assms(3) show ?thesis by simp
  next
    case False
    with 1 t linksD(1) [OF assms(1), of t s p' u] show ?thesis by (simp add: parent_ok_def)
  qed
next
  case (2 p' c t s)
  show ?case
  proof (cases "p' = p")
    case True
    with 2 assms(3,6) conn_localD(2) [OF assms(2), of t s] show ?thesis by (auto split: if_splits)
  next
    case False
    with 2 assms(5) linksD(2) [OF assms(1), of p' c t s] show ?thesis by (auto split: if_splits)
  qed
next
  case (3 p' c t)
  then show ?case
    using conn_localD(3) [OF assms(2), of t] linksD(3) [OF assms(1), of p' c t] by (auto split: if_splits)
qed

text \<open>Termination: everything of this connect is gone, the debts are untouched.\<close>

lemma connect_terminate_ok:
  assumes "sys {cn_token self} d w" and "conn_local self w"
    and "\<forall>s. w_states w (cn_token self) = Some s \<longrightarrow> kind_of s = KConnect"
  shows "\<exists>self' w'. connect_terminate self w = Some (self', w') \<and> sys {} d w' \<and>
    w_states w' = (\<lambda>t. if t = cn_token self \<or> t \<in> set (cn_children self) then None else w_states w t) \<and>
    w_token_counter w' = w_token_counter w \<and>
    self' = self\<lparr>cn_children := [], cn_listener := None\<rparr>"
proof -
  have "\<forall>t \<in> set (cn_children self). \<forall>s. w_states w t = Some s \<longrightarrow> child_of s \<noteq> None"
    using conn_localD(2) [OF assms(2)] by fastforce
  from terminate_attempts_ok [OF assms(1) this] obtain w1
    where w1: "terminate_attempts (cn_children self) w = Some w1" "sys {cn_token self} d w1"
      "w_states w1 = (\<lambda>t. if t \<in> set (cn_children self) then None else w_states w t)"
      "w_token_counter w1 = w_token_counter w"
    by blast
  let ?w2 = "cancel_timeout (cn_timeout self) w1" and ?self = "self\<lparr>cn_children := [], cn_listener := None\<rparr>"
  have "sys {} d (remove_state (cn_token self) ?w2)"
    by (rule sys_remove_connect)
      (use w1 assms(3) conn_localD(1) [OF assms(2)] in \<open>auto split: if_splits\<close>)
  then show ?thesis
    using w1 by (auto simp: connect_terminate_def Let_def fun_eq_iff)
qed

text \<open>The loop's state after an operation of a connect: the connect is in the loop as before, or has
  been terminated.\<close>

definition conn_result :: "'u connect_st \<Rightarrow> ('u \<Rightarrow> nat) \<Rightarrow> 'u world \<Rightarrow> 'u connect_st \<times> 'u world \<Rightarrow> bool" where
  "conn_result self d w r \<longleftrightarrow>
     (let (self', w') = r; p = cn_token self in
      sys {p} d w' \<and> conn_local self' w' \<and>
      cn_token self' = p \<and> cn_their_id self' = cn_their_id self \<and>
      (w_states w' p = w_states w p \<or> (w_states w' p = None \<and> cn_children self' = [] \<and> cn_listener self' = None)) \<and>
      w_token_counter w \<le> w_token_counter w' \<and>
      (\<forall>p' c. p' \<noteq> p \<longrightarrow> (w_states w' p' = Some (StConnect c) \<longleftrightarrow> w_states w p' = Some (StConnect c))) \<and>
      (\<forall>t \<in> set (cn_children self'). t \<in> set (cn_children self) \<or> w_token_counter w \<le> t))"

lemma conn_result_trans:
  assumes "conn_result self d w (self1, w1)" and "conn_result self1 d w1 r"
    and "w_states w1 (cn_token self) = w_states w (cn_token self)"
  shows "conn_result self d w r"
proof -
  obtain self2 w2 where r: "r = (self2, w2)" by fastforce
  note a = assms(1,2) [unfolded r conn_result_def Let_def prod.case]
  have "t \<in> set (cn_children self) \<or> w_token_counter w \<le> t" if "t \<in> set (cn_children self2)" for t
    using a that by (meson le_trans)
  then show ?thesis
    using a assms(3) unfolding r conn_result_def Let_def prod.case by auto
qed

lemma connect_maybe_terminate_ok:
  assumes "sys {cn_token self} d w" and "conn_local self w"
    and "\<forall>s. w_states w (cn_token self) = Some s \<longrightarrow> kind_of s = KConnect"
  shows "\<exists>r. connect_maybe_terminate self w = Some r \<and> conn_result self d w r"
proof (cases "cn_children self = []")
  case True
  from connect_terminate_ok [OF assms] obtain w' where
    w': "connect_terminate self w = Some (self\<lparr>cn_children := [], cn_listener := None\<rparr>, w')" "sys {} d w'"
      "w_states w' = (\<lambda>t. if t = cn_token self then None else w_states w t)"
      "w_token_counter w' = w_token_counter w"
    using True by auto
  have "conn_local (self\<lparr>cn_children := [], cn_listener := None\<rparr>) w'"
    using w'(3) conn_localD(1) [OF assms(2)] True by (auto simp: conn_local_def split: if_splits)
  then show ?thesis
    using w' True sys_mono [OF w'(2)] by (auto simp: connect_maybe_terminate_def conn_result_def)
next
  case False
  then show ?thesis
    using assms by (simp add: connect_maybe_terminate_def conn_result_def)
qed

text \<open>A new attempt, or an attempt that becomes a candidate.\<close>

lemma links_insert_attempt:
  assumes "links {p} w" and "child_of s = Some (p, u)" and "w_states w t = None"
    and "\<And>p' c. \<lbrakk>w_states w p' = Some (StConnect c); p' \<noteq> p\<rbrakk> \<Longrightarrow> t \<notin> set (cn_children c)"
  shows "links {p} (insert_state t s w)"
  unfolding links_def parent_ok_def
proof (intro conjI allI impI, goal_cases)
  case (1 t' s' p' u')
  then have "t' \<noteq> t" "w_states w t' = Some s'" using assms(2) by (auto split: if_splits)
  with 1 linksD(1) [OF assms(1), of t' s' p' u'] assms(3) show ?case
    by (auto simp: parent_ok_def)
next
  case (2 p' c t' s')
  then have "w_states w p' = Some (StConnect c)" using assms(2) by (auto split: if_splits)
  with 2 linksD(2) [OF assms(1), of p' c t' s'] assms(4) show ?case
    by (auto split: if_splits)
next
  case (3 p' c t')
  then have "w_states w p' = Some (StConnect c)" using assms(2) by (auto split: if_splits)
  with 3 linksD(3) [OF assms(1), of p' c t'] show ?case by simp
qed

lemma conn_local_insert:
  assumes "conn_local self w" and "child_of s = Some (cn_token self, cn_their_id self)"
    and "given w t"
  shows "conn_local (self\<lparr>cn_children := hs_insert t (cn_children self)\<rparr>) (insert_state t s w)"
  unfolding conn_local_def
proof (intro conjI allI impI ballI, goal_cases)
  case (1 t' s' u)
  then show ?case using conn_localD(1) [OF assms(1), of t' s' u] assms(2) by (auto split: if_splits)
next
  case (2 t' s' u)
  then show ?case using conn_localD(1) [OF assms(1), of t' s' u] assms(2) by (auto split: if_splits)
next
  case (3 t' s')
  then show ?case using conn_localD(2) [OF assms(1), of t' s'] assms(2) by (auto split: if_splits)
next
  case (4 t')
  then show ?case using conn_localD(3) [OF assms(1), of t'] assms(3) by auto
qed

lemma connect_exchange_msg_ok:
  assumes "sys {cn_token self} d w" and "conn_local self w"
    and "\<forall>s. w_states w (cn_token self) = Some s \<longrightarrow> kind_of s = KConnect"
    and "cn_token self < w_token_counter w"
    and "live w (cn_their_id self) + d (cn_their_id self) + 1 < 2 ^ 64"
  shows "\<exists>r. connect_exchange_msg so self w = Some r \<and> conn_result self d w r"
proof -
  let ?p = "cn_token self" and ?u = "cn_their_id self" and ?t = "w_token_counter w"
  obtain x w1 where x: "cex_start so (cn_our_id self) ?u (cn_our_nh self) ?p w = (x, w1)" by fastforce
  have fresh: "w_states w ?t = None"
    using acctD(6) [OF sysD(1) [OF assms(1)]] by (metis less_irrefl not_None_eq)
  from cex_start_result [OF x] show ?thesis
  proof (elim disjE exE conjE)
    fix e
    assume e: "x = Inl e" "w1 = snd (get_new_token w)"
    have "conn_local self w1"
      by (rule conn_local_cong [OF assms(2)]) (simp_all add: e)
    then obtain r where r: "connect_maybe_terminate self w1 = Some r" "conn_result self d w1 r"
      using connect_maybe_terminate_ok [of self d w1] assms(1,3) e by auto
    then have "conn_result self d w r"
      using e by (auto simp: conn_result_def Let_def)
    then show ?thesis
      using x e r by (simp add: connect_exchange_msg_def)
  next
    fix c
    assume c: "x = Inr ?t" "ce_token c = ?t" "ce_expected_id c = ?u" "ce_parent c = ?p"
      "w1 = insert_state ?t (StConnectEx c) (upd_cm (cm_enter ?u) (snd (get_new_token w)))"
    let ?self = "self\<lparr>cn_children := hs_insert ?t (cn_children self)\<rparr>"
    have st: "w_states w1 = (w_states w)(?t \<mapsto> StConnectEx c)" "w_token_counter w1 = Suc ?t"
      using c(5) by simp_all
    have "acct d w1"
      by (rule acct_cex_start [OF sysD(1) [OF assms(1)] assms(5) x])
    moreover have "links {?p} w1"
      unfolding c(5)
      by (rule links_insert_attempt)
        (use sysD(2) [OF assms(1)] fresh c linksD(3) [OF sysD(2) [OF assms(1)]] in \<open>auto\<close>)
    ultimately have "sys {?p} d w1"
      using sysD(3) [OF assms(1)] c(5) by (simp add: sys_def)
    moreover have "conn_local ?self w1"
      unfolding c(5)
      by (rule conn_local_insert) (use conn_local_cong [OF assms(2)] c acctD(9) [OF sysD(1) [OF assms(1)]] in simp_all)
    ultimately have "conn_result self d w (?self, w1)"
      using assms(4) st fresh by (auto simp: conn_result_def)
    then show ?thesis
      using x c by (auto simp: connect_exchange_msg_def connect_maybe_terminate_def)
  qed
qed

text \<open>Putting the record back closes the handler.\<close>

lemma conn_close:
  assumes "sys {} d0 w" and "w_states w p = Some (StConnect c0)" and "cn_token self = p"
    and "set (cn_children self) \<subseteq> set (cn_children c0)"
    and "conn_result self d w r"
  shows "sys {} d (put_state (StConnect (fst r)) (snd r))"
proof -
  obtain self' w' where r: "r = (self', w')" by fastforce
  note res = assms(5) [unfolded r conn_result_def Let_def prod.case assms(3)]
  have notin: "p \<notin> set (cn_children c)" if "w_states w p' = Some (StConnect c)" for p' c
    using linksD(2) [OF sysD(2) [OF assms(1)] that _ _ assms(2)] by auto
  have p: "p < w_token_counter w"
    using acctD(6) [OF sysD(1) [OF assms(1)] assms(2)] .
  have "p \<notin> set (cn_children self')"
    using res notin [OF assms(2)] p assms(4) by fastforce
  moreover have "p \<notin> set (cn_children c)" if "w_states w' p' = Some (StConnect c)" "p' \<noteq> p" for p' c
    using res notin that by metis
  ultimately have l: "links {} (insert_state p (StConnect self') w')"
    if "w_states w' p = w_states w p"
    using links_connect [OF sysD(2), of p d w' self'] res that assms(2) by auto
  show ?thesis
  proof (cases "w_states w' p = w_states w p")
    case True
    then have "acct d (insert_state p (StConnect self') w')"
      using acct_replace [of d w' p "StConnect c0" "StConnect self'"] res assms(2) sysD(1)
      by (auto simp: active_of_def reserved_def)
    with l [OF True] True assms(2) res show ?thesis
      by (simp add: r put_state_def get_state_def sys_def)
  next
    case False
    with res have n: "w_states w' p = None" "cn_children self' = []" by auto
    then have "sys {} d (remove_state p w')"
      using sys_remove_connect [of p d w'] res conn_localD(1) [of self' w'] by fastforce
    then have "sys {} d w'"
      using sys_cong [of w' "remove_state p w'" "{}" d] n by (simp add: fun_upd_idem)
    with n res show ?thesis
      by (simp add: r put_state_def get_state_def)
  qed
qed

text \<open>A terminating connect, or one that goes on, leaves a token that was free alone.\<close>

lemma connect_maybe_terminate_free:
  assumes "sys {cn_token self} d w" and "conn_local self w"
    and "\<forall>s. w_states w (cn_token self) = Some s \<longrightarrow> kind_of s = KConnect"
    and "connect_maybe_terminate self w = Some r" and "w_states w t = None"
  shows "w_states (snd r) t = None"
  using connect_terminate_ok [OF assms(1-3)] assms(4,5)
  by (auto simp: connect_maybe_terminate_def split: if_splits)

lemma connect_failed_child:
  assumes "sys {} d w" and "w_states w p = Some (StConnect self)" and "w_states w t = None"
    and "connect_maybe_terminate (self\<lparr>cn_children := hs_remove t (cn_children self)\<rparr>) w = Some r"
  shows "sys {} d (put_state (StConnect (fst r)) (snd r)) \<and>
    w_states (put_state (StConnect (fst r)) (snd r)) t = None"
proof -
  let ?self = "self\<lparr>cn_children := hs_remove t (cn_children self)\<rparr>"
  note o = conn_open [OF assms(1,2)]
  have loc: "conn_local ?self w"
    by (rule conn_local_strike [OF o(3) assms(3)])
  have pre: "sys {cn_token ?self} d w"
      "\<forall>s. w_states w (cn_token ?self) = Some s \<longrightarrow> kind_of s = KConnect"
    using o assms(2) by simp_all
  have res: "conn_result ?self d w r"
    using connect_maybe_terminate_ok [OF pre(1) loc pre(2)] assms(4) by auto
  have "w_states (snd r) t = None"
    by (rule connect_maybe_terminate_free [OF pre(1) loc pre(2) assms(4,3)])
  moreover have "t \<noteq> p" using assms(2,3) by auto
  ultimately have "w_states (put_state (StConnect (fst r)) (snd r)) t = None"
    using res o(1) by (auto simp: conn_result_def w_states_put Let_def split: option.splits prod.splits)
  then show ?thesis
    using conn_close [OF assms(1,2) _ _ res] o(1) by auto
qed

interpretation connect_attempt: connect_ex_finish connect_ex_fin
proof
  fix w w' :: "'u world" and self
  assume a: "sys {} no_debt w" "w_states w (ce_token self) = None" "connect_ex_fin self None w = Some w'"
  show "sys {} no_debt w' \<and> no_cex (ce_token self) w'"
  proof (cases "\<exists>c. w_states w (ce_parent self) = Some (StConnect c)")
    case True
    then obtain c where c: "w_states w (ce_parent self) = Some (StConnect c)" by blast
    with a(3) obtain r where
      "connect_maybe_terminate (c\<lparr>cn_children := hs_remove (ce_token self) (cn_children c)\<rparr>) w = Some r"
      "w' = put_state (StConnect (fst r)) (snd r)"
      by (auto simp: connect_ex_fin_def get_state_def connect_handle_exchange_msg_def Let_def split: bind_splits)
    with connect_failed_child [OF a(1) c a(2)] show ?thesis
      by (auto simp: no_cex_def)
  next
    case False
    with a(3) have "w' = w"
      by (auto simp: connect_ex_fin_def get_state_def split: option.splits state.splits)
    with a show ?thesis by (simp add: no_cex_def)
  qed
next
  fix w w' :: "'u world" and self :: "'u connect_ex" and so
  let ?t = "ce_token self" and ?p = "ce_parent self" and ?u = "ce_expected_id self"
  assume a: "sys {} (owe (Some ?u) no_debt) w" "w_states w ?t = None" "given w ?t"
    "parent_ok w ?t ?p ?u" "only_parent w ?t ?p" "connect_ex_fin self (Some so) w = Some w'"
  from a(4) obtain c where c: "w_states w ?p = Some (StConnect c)" "?t \<in> set (cn_children c)" "cn_their_id c = ?u"
    by (auto simp: parent_ok_def)
  note o = conn_open [OF a(1) c(1)]
  let ?c1 = "c\<lparr>cn_children := hs_remove ?t (cn_children c)\<rparr>"
  let ?c2 = "?c1\<lparr>cn_children := hs_insert ?t (cn_children ?c1)\<rparr>"
  from a(6) c obtain so' where so: "w' = put_state (StConnect ?c2) (insert_state ?t (StCandidate
      \<lparr>cc_token = ?t, cc_socket = so', cc_our_id = cn_our_id c, cc_their_id = ?u,
       cc_msg = Some (ChooseConnection, 0), cc_finish = FinConnect ?p\<rparr>) w)"
    by (auto simp: connect_ex_fin_def get_state_def connect_handle_exchange_msg_def Let_def o(1)
        cand_start_def connect_maybe_terminate_def split: bind_splits prod.splits option.splits)
  define s where "s = StCandidate \<lparr>cc_token = ?t, cc_socket = so', cc_our_id = cn_our_id c, cc_their_id = ?u,
       cc_msg = Some (ChooseConnection, 0), cc_finish = FinConnect ?p\<rparr>"
  have s: "child_of s = Some (?p, ?u)" "counted s = Some ?u" "state_token s = ?t" "\<forall>c. s \<noteq> StConnectEx c"
    by (simp_all add: s_def)
  have "acct no_debt (insert_state ?t s w)"
    using acct_insert [of s no_debt w ?t] sysD(1) [OF a(1)] a(2,3) s by simp
  moreover have "links {?p} (insert_state ?t s w)"
    by (rule links_insert_attempt [OF sysD(2) [OF o(2)] s(1) a(2)]) (use a(5) in \<open>auto simp: only_parent_def\<close>)
  ultimately have "sys {?p} no_debt (insert_state ?t s w)"
    using sysD(3) [OF a(1)] by (simp add: sys_def)
  moreover have "conn_local ?c2 (insert_state ?t s w)"
    by (rule conn_local_insert [OF conn_local_strike [OF o(3) a(2)]]) (use s(1) o(1) c a(3) in simp_all)
  moreover have "?t \<noteq> ?p" using a(2) c(1) by auto
  ultimately have "conn_result c no_debt w (?c2, insert_state ?t s w)"
    using o(1) c s a(2) by (auto simp: conn_result_def s_def)
  from conn_close [OF a(1) c(1) o(1) _ this] \<open>?t \<noteq> ?p\<close> show "sys {} no_debt w' \<and> no_cex ?t w'"
    using o(1) c(1) s(4) by (auto simp: so s_def [symmetric] no_cex_def w_states_put split: option.splits)
qed

lemma sys_ac_start_no_cand:
  assumes "sys {} (owe (Some u) no_debt) w" and "w_states w t = None" and "given w t"
    and "\<And>p c. w_states w p = Some (StConnect c) \<Longrightarrow> t \<notin> set (cn_children c)"
  shows "sys {} no_debt (ac_start E t so our u role ev w) \<and> no_cand t (ac_start E t so our u role ev w) \<and>
    same_off {t} w (ac_start E t so our u role ev w)"
proof -
  note a = acct_ac_start [OF sysD(1) [OF assms(1)] assms(2,3) sysD(3) [OF assms(1)], of E so our role ev]
  show ?thesis
    using sys_ac_start [OF assms(1-3)] assms(4) a(2,3) by (auto simp: no_cand_def active_of_def)
qed

lemma connect_chosen_child:
  assumes "sys {} (owe (Some u) no_debt) w" and "w_states w t = None" and "given w t"
    and "parent_ok w t p u" and "only_parent w t p" and "w_states w p = Some (StConnect self)"
    and "connect_handle_candidate E t (Some so) self w = Some r"
  shows "sys {} no_debt (put_state (StConnect (fst r)) (snd r)) \<and>
    no_cand t (put_state (StConnect (fst r)) (snd r))"
proof -
  let ?self = "self\<lparr>cn_children := hs_remove t (cn_children self)\<rparr>"
  note o = conn_open [OF assms(1,6)]
  have u: "cn_their_id self = u" using assms(4,6) by (auto simp: parent_ok_def)
  have tp: "t \<noteq> p" using assms(2,6) by auto
  have pre: "sys {cn_token ?self} (owe (Some u) no_debt) w"
      "\<forall>s. w_states w (cn_token ?self) = Some s \<longrightarrow> kind_of s = KConnect"
    using o assms(6) by simp_all
  from connect_terminate_ok [OF pre(1) conn_local_strike [OF o(3) assms(2)] pre(2)]
  obtain w1 where w1: "connect_terminate ?self w = Some (?self\<lparr>cn_children := [], cn_listener := None\<rparr>, w1)"
      "sys {} (owe (Some u) no_debt) w1"
      "w_states w1 = (\<lambda>t'. if t' = p \<or> t' \<in> set (cn_children ?self) then None else w_states w t')"
      "w_token_counter w1 = w_token_counter w"
    using o(1) by auto
  let ?w2 = "ac_start E t so (cn_our_id self) u Node (ConnectSuccess u) w1"
  have r: "r = (?self\<lparr>cn_children := [], cn_listener := None\<rparr>, ?w2)"
    using assms(7) w1(1) u by (auto simp: connect_handle_candidate_def Let_def)
  have *: "sys {} no_debt ?w2 \<and> no_cand t ?w2 \<and> same_off {t} w1 ?w2"
    by (rule sys_ac_start_no_cand [OF w1(2)])
      (use w1 assms(2,3,5) in \<open>auto simp: only_parent_def split: if_splits\<close>)
  then have "w_states ?w2 p = None"
    using w1(3) tp by (simp add: same_off_def)
  then have "put_state (StConnect (fst r)) (snd r) = ?w2"
    using r o(1) by (simp add: put_state_def get_state_def)
  with * show ?thesis by simp
qed

interpretation chosen: candidate_finish "cand_fin E" for E :: "'u::linorder env"
proof
  fix w w' :: "'u::linorder world" and self :: "'u candidate"
  assume a: "sys {} no_debt w" "w_states w (cc_token self) = None" "cand_fin E self None w = Some w'"
  show "sys {} no_debt w' \<and> no_cand (cc_token self) w'"
  proof (cases "\<exists>p c. cc_finish self = FinConnect p \<and> w_states w p = Some (StConnect c)")
    case True
    then obtain p c where c: "cc_finish self = FinConnect p" "w_states w p = Some (StConnect c)" by blast
    with a(3) obtain r where
      "connect_maybe_terminate (c\<lparr>cn_children := hs_remove (cc_token self) (cn_children c)\<rparr>) w = Some r"
      "w' = put_state (StConnect (fst r)) (snd r)"
      by (auto simp: cand_fin_def get_state_def connect_handle_candidate_def Let_def split: bind_splits)
    with connect_failed_child [OF a(1) c(2) a(2)] show ?thesis
      by (auto simp: no_cand_def)
  next
    case False
    with a(3) have "w' = w"
      by (auto simp: cand_fin_def listener_cand_fin_def get_state_def
          split: option.splits state.splits cand_finish.splits)
    with a show ?thesis by (simp add: no_cand_def)
  qed
next
  fix w w' :: "'u::linorder world" and self :: "'u candidate" and so
  assume a: "sys {} (owe (Some (cc_their_id self)) no_debt) w" "w_states w (cc_token self) = None"
    "given w (cc_token self)" "cand_owner self w" "cand_fin E self (Some so) w = Some w'"
  show "sys {} no_debt w' \<and> no_cand (cc_token self) w'"
  proof (cases "cc_finish self")
    case (FinConnect p)
    with a(4) obtain c where c: "w_states w p = Some (StConnect c)"
      and p: "parent_ok w (cc_token self) p (cc_their_id self)" "only_parent w (cc_token self) p"
      by (auto simp: cand_owner_def parent_ok_def)
    from a(5) FinConnect c obtain r where "connect_handle_candidate E (cc_token self) (Some so) c w = Some r"
      "w' = put_state (StConnect (fst r)) (snd r)"
      by (auto simp: cand_fin_def get_state_def split: bind_splits)
    with connect_chosen_child [OF a(1-3) p c] show ?thesis by blast
  next
    case FinListener
    then have "w' = ac_start E (cc_token self) so (cc_our_id self) (cc_their_id self) Node
        (ConnectSuccess (cc_their_id self)) w"
      using a(5) by (simp add: cand_fin_def listener_cand_fin_def)
    with sys_ac_start_no_cand [OF a(1-3)] a(4) FinListener show ?thesis
      by (auto simp: cand_owner_def)
  qed
qed

section \<open>Events of a connect\<close>

lemma terminate_attempt_counter:
  "terminate_attempt s w = Some w' \<Longrightarrow> w_token_counter w' = w_token_counter w"
  using ac_keeps_terminate
  by (cases s) (auto simp: cex_terminate_def cand_terminate_def Let_def ac_keeps_def same_off_def)

lemma terminate_attempts_counter:
  "terminate_attempts ts w = Some w' \<Longrightarrow> w_token_counter w' = w_token_counter w"
  by (induction ts arbitrary: w) (auto split: option.splits bind_splits dest: terminate_attempt_counter)

lemma connect_maybe_terminate_counter:
  "connect_maybe_terminate self w = Some (self', w') \<Longrightarrow> w_token_counter w' = w_token_counter w"
  by (auto simp: connect_maybe_terminate_def connect_terminate_def Let_def
      split: if_splits bind_splits dest: terminate_attempts_counter)

lemma connect_exchange_msg_counter:
  assumes "connect_exchange_msg so self w = Some (self', w')"
  shows "w_token_counter w' = Suc (w_token_counter w)"
proof -
  obtain x w1 where x: "cex_start so (cn_our_id self) (cn_their_id self) (cn_our_nh self) (cn_token self) w
      = (x, w1)" by fastforce
  have "w_token_counter w1 = Suc (w_token_counter w)"
    using cex_start_result [OF x] by auto
  with assms x show ?thesis
    by (auto simp: connect_exchange_msg_def split: sum.splits dest: connect_maybe_terminate_counter)
qed

lemma connect_accept_cases:
  assumes "connect_accept self w = Some r"
  obtains (stop) l e l' where "cn_listener self = Some l" "tl_accept l = (Inl e, l')"
      "r = (self\<lparr>cn_listener := Some l'\<rparr>, w)"
  | (more) l st l' self1 w1 where "cn_listener self = Some l" "tl_accept l = (Inr st, l')"
      "connect_exchange_msg (socket_wrap st) (self\<lparr>cn_listener := Some l'\<rparr>) w = Some (self1, w1)"
      "connect_accept self1 w1 = Some r"
  using assms
  by (subst (asm) connect_accept.simps) (auto split: option.splits prod.splits sum.splits bind_splits)

lemma connect_accept_counter:
  "connect_accept self w = Some r \<Longrightarrow> w_token_counter w \<le> w_token_counter (snd r)"
proof (induction self w rule: connect_accept.induct)
  case (1 self w)
  from 1(2) show ?case
  proof (cases rule: connect_accept_cases)
    case (more l st l' self1 w1)
    then show ?thesis
      using 1(1) [OF more(1) more(2) [symmetric] refl more(3) refl more(4)]
        connect_exchange_msg_counter [OF more(3)] by simp
  qed simp
qed

text \<open>
  Accepting keeps the invariant as long as fewer than \<open>2 ^ 64\<close> tokens are in use; an accept after the
  connect has terminated itself has no result.
\<close>

lemma live_no_debt:
  assumes "sys P no_debt w" and "w_token_counter w + 1 < 2 ^ 64"
  shows "live w u + 0 + 1 < 2 ^ 64"
  using live_le_tokens [OF acctD(7) [OF sysD(1) [OF assms(1)]], of u] assms(2) by simp

lemma connect_accept_ok:
  assumes "connect_accept self w = Some r" and "sys {cn_token self} no_debt w" and "conn_local self w"
    and "w_states w (cn_token self) = Some (StConnect c0)" and "w_token_counter (snd r) < 2 ^ 64"
  shows "conn_result self no_debt w r"
  using assms
proof (induction self w rule: connect_accept.induct)
  case (1 self w)
  from 1(2) show ?case
  proof (cases rule: connect_accept_cases)
    case (stop l e l')
    have "conn_local (self\<lparr>cn_listener := Some l'\<rparr>) w"
      by (rule conn_local_cong [OF 1(4)]) simp_all
    then show ?thesis
      using stop 1 by (simp add: conn_result_def)
  next
    case (more l st l' self1 w1)
    let ?self = "self\<lparr>cn_listener := Some l'\<rparr>"
    have c1: "w_token_counter w1 = Suc (w_token_counter w)" "w_token_counter w1 < 2 ^ 64"
      using connect_exchange_msg_counter [OF more(3)] connect_accept_counter [OF more(4)] 1(6) by simp_all
    have l: "conn_local ?self w"
      by (rule conn_local_cong [OF 1(4)]) simp_all
    have res: "conn_result ?self no_debt w (self1, w1)"
      using connect_exchange_msg_ok [of ?self no_debt w "socket_wrap st"] 1(3,5) l more(3)
        acctD(6) [OF sysD(1) [OF 1(3)] 1(5)] live_no_debt [OF 1(3), of "cn_their_id self"] c1 by auto
    have "cn_listener self1 \<noteq> None"
      using more(4) by (subst (asm) connect_accept.simps) (auto split: option.splits)
    then have st: "w_states w1 (cn_token self) = Some (StConnect c0)" "cn_token self1 = cn_token self"
      using res 1(5) by (auto simp: conn_result_def Let_def)
    have "conn_result self1 no_debt w1 r"
      by (rule 1(1) [OF more(1) more(2) [symmetric] refl more(3) refl more(4)])
        (use res st 1(6) in \<open>auto simp: conn_result_def Let_def\<close>)
    with conn_result_trans [OF res] st 1(5) show ?thesis
      by (simp add: conn_result_def Let_def)
  qed
qed

lemma sys_connect_ready [acct]:
  assumes "sys {} no_debt w" and "w_states w t = Some (StConnect self)"
    and "connect_ready kind self w = Some r" and "w_token_counter (snd r) < 2 ^ 64"
  shows "sys {} no_debt (put_state (StConnect (fst r)) (snd r))"
proof -
  note o = conn_open [OF assms(1,2)]
  have "conn_result self no_debt w r"
  proof (cases "connect_accept self w = Some r")
    case True
    with connect_accept_ok [OF True _ o(3)] o assms(2,4) show ?thesis by auto
  next
    case False
    with assms(3) have "r = (self, w)"
      by (auto simp: connect_ready_def split: if_splits)
    with o assms(2) show ?thesis by (simp add: conn_result_def)
  qed
  from conn_close [OF assms(1,2) o(1) _ this] show ?thesis by simp
qed

lemma sys_connect_timeout [acct]:
  assumes "sys {} no_debt w" and "w_states w t = Some (StConnect self)"
    and "connect_timeout self w = Some r"
  shows "sys {} no_debt (put_state (StConnect (fst r)) (snd r))"
proof -
  note o = conn_open [OF assms(1,2)]
  from connect_terminate_ok [OF _ o(3)] o assms(2,3) obtain w'
    where "r = (self\<lparr>cn_children := [], cn_listener := None\<rparr>, w')" "sys {} no_debt w'" "w_states w' t = None"
    by (fastforce simp: connect_timeout_def)
  with o(1) show ?thesis
    by (simp add: put_state_def get_state_def)
qed

lemma connect_all_quiet: "connect_all as w = (ss, w') \<Longrightarrow> quiet w w'"
proof (induction as arbitrary: w ss w')
  case (Cons a as)
  then show ?case
    by (auto split: prod.splits sum.splits dest!: socket_connect_quiet intro: quiet_trans)
qed simp

lemma connect_hole_punch_quiet: "connect_hole_punch hps hp tok w = (r, w') \<Longrightarrow> quiet w w'"
  by (auto simp: connect_hole_punch_def split: option.splits prod.splits sum.splits
      dest!: get_sockets_quiet connect_all_quiet intro: quiet_trans)

lemma connect_exchange_all_counter:
  "connect_exchange_all ss self w = Some r \<Longrightarrow> w_token_counter w \<le> w_token_counter (snd r)"
  by (induction ss arbitrary: self w)
    (auto split: bind_splits dest!: connect_exchange_msg_counter, fastforce)

lemma connect_exchange_all_ok:
  assumes "connect_exchange_all ss self w = Some r" and "sys {cn_token self} no_debt w"
    and "conn_local self w" and "w_states w (cn_token self) = None"
    and "cn_token self < w_token_counter w" and "w_token_counter (snd r) < 2 ^ 64"
  shows "conn_result self no_debt w r"
  using assms
proof (induction ss arbitrary: self w)
  case Nil
  then show ?case by (auto simp: conn_result_def)
next
  case (Cons so ss)
  from Cons.prems(1) obtain self1 w1 where m: "connect_exchange_msg so self w = Some (self1, w1)"
      "connect_exchange_all ss self1 w1 = Some r"
    by (auto split: bind_splits)
  have c1: "w_token_counter w1 = Suc (w_token_counter w)" "w_token_counter w1 < 2 ^ 64"
    using connect_exchange_msg_counter [OF m(1)] connect_exchange_all_counter [OF m(2)] Cons.prems(6)
    by simp_all
  have res: "conn_result self no_debt w (self1, w1)"
    using connect_exchange_msg_ok [of self no_debt w so] Cons.prems(2-5) m(1) c1
      live_no_debt [OF Cons.prems(2), of "cn_their_id self"] by auto
  then have st: "w_states w1 (cn_token self) = None" "cn_token self1 = cn_token self"
    using Cons.prems(4) by (auto simp: conn_result_def Let_def)
  have "conn_result self1 no_debt w1 r"
    by (rule Cons.IH [OF m(2)]) (use res st c1 Cons.prems(5,6) in \<open>auto simp: conn_result_def Let_def\<close>)
  from conn_result_trans [OF res this] st Cons.prems(4) show ?case by simp
qed

lemma connect_start_cases:
  assumes "connect_start our_ci their_ci nh w = Some (res, w')"
  obtains (refused) "w_states w' = w_states w" "w_cm w' = w_cm w" "w_token_counter w \<le> w_token_counter w'"
      "w_timer_answers w = [] \<longrightarrow> w_timer_answers w' = []"
  | (started) self self' w1 w2 ss where "quiet (snd (set_timeout (TIMEOUT_SEC * 1000)
        (CoreTimer (w_token_counter w) 0) (snd (get_new_token w)))) w1"
      "cn_token self = w_token_counter w" "cn_their_id self = pub_id their_ci" "cn_children self = []"
      "connect_exchange_all ss self w1 = Some (self', w2)"
      "w' = insert_state (w_token_counter w) (StConnect self') w2"
proof (cases "pub_for_direct their_ci = [] \<and> pub_for_hole_punch their_ci = []")
  case True
  with assms show ?thesis
    by (intro refused) (auto simp: connect_start_def Let_def)
next
  case False
  let ?tok = "w_token_counter w"
  obtain w0 where gt: "get_new_token w = (?tok, w0)" by (simp add: get_new_token_def)
  obtain tr wt where tm: "set_timeout (TIMEOUT_SEC * 1000) (CoreTimer ?tok 0) w0 = (tr, wt)" by fastforce
  note tmD = set_timeout_eqD [OF tm] get_new_token_eqD [OF gt]
  obtain ss wa where ca: "connect_all (pub_for_direct their_ci) wt = (ss, wa)" by fastforce
  obtain hr wb where hp: "connect_hole_punch (priv_hole_punch_socket our_ci) (pub_for_hole_punch their_ci) ?tok wa
      = (hr, wb)" by fastforce
  have q: "quiet wt wb"
    using connect_all_quiet [OF ca] connect_hole_punch_quiet [OF hp] quiet_trans by blast
  note unf = connect_start_def Let_def gt tm ca hp
  show ?thesis
  proof (cases tr)
    case (Inl e)
    with assms False have "w' = wt" by (auto simp: unf)
    with tmD show ?thesis by (intro refused) auto
  next
    case tr: (Inr tm')
    show ?thesis
    proof (cases hr)
      case (Inl e)
      with assms False tr have "w' = wb" by (auto simp: unf)
      with tmD q show ?thesis by (intro refused) (auto simp: quiet_def)
    next
      case (Inr lp)
      obtain l punched where lp: "lp = (l, punched)" by fastforce
      define self where "self = \<lparr>cn_token = ?tok, cn_timeout = tm', cn_our_nh = nh, cn_our_id = priv_id our_ci,
        cn_their_id = pub_id their_ci, cn_listener = l, cn_children = []\<rparr>"
      from assms False tr Inr lp obtain self' w2 where
        "connect_exchange_all (ss @ punched) self wb = Some (self', w2)"
        "w' = insert_state ?tok (StConnect self') w2"
        by (auto simp: unf self_def split: bind_splits)
      then show ?thesis
        by (intro started [of wb self "ss @ punched" self' w2]) (use q tm gt in \<open>simp_all add: self_def\<close>)
    qed
  qed
qed

lemma sys_connect_start [acct]:
  assumes "sys {} no_debt w" and "connect_start our_ci their_ci nh w = Some (res, w')"
    and "w_token_counter w' < 2 ^ 64"
  shows "sys {} no_debt w'"
  using assms(2)
proof (cases rule: connect_start_cases)
  case refused
  then show ?thesis
    using assms(1) acct_cong [of w' w no_debt] links_cong [of w' w "{}"] by (simp add: sys_def)
next
  case (started self self' w1 w2 ss)
  let ?p = "w_token_counter w"
  let ?w0 = "snd (set_timeout (TIMEOUT_SEC * 1000) (CoreTimer ?p 0) (snd (get_new_token w)))"
  have s1: "sys {} no_debt w1"
    by (rule sys_quiet [OF started(1)]) (use assms(1) in simp)
  have w1: "w_states w1 = w_states w" "w_token_counter w1 = Suc ?p"
    using started(1) by (simp_all add: quiet_def)
  have none: "w_states w ?p = None"
    using acctD(6) [OF sysD(1) [OF assms(1)]] by (metis less_irrefl not_None_eq)
  have orphan: "child_of s \<noteq> Some (?p, u)" if "w_states w t = Some s" for t s u
    using linksD(1) [OF sysD(2) [OF assms(1)] that, of ?p u] none by (auto simp: parent_ok_def)
  have loc: "conn_local self w1"
    using orphan started(2,4) w1 by (auto simp: conn_local_def)
  have res: "conn_result self no_debt w1 (self', w2)"
    by (rule connect_exchange_all_ok [OF started(5)])
      (use sys_mono [OF s1] loc none w1 started assms(3) in simp_all)
  note r = res [unfolded conn_result_def Let_def prod.case started(2)]
  have p2: "w_states w2 ?p = None" using r none w1 by auto
  have np: "?p \<notin> set (cn_children c)" if "w_states w2 p' = Some (StConnect c)" "p' \<noteq> ?p" for p' c
    using r that w1 linksD(3) [OF sysD(2) [OF assms(1)], of p' c ?p] by auto
  have "?p \<notin> set (cn_children self')"
    using r started(4) w1 by auto
  then have "links {} w'"
    unfolding started(6)
    by (intro links_connect) (use r np p2 sysD(2) in auto)
  moreover have "acct no_debt w'"
    unfolding started(6)
    by (rule acct_insert) (use r p2 w1 sysD(1) acctD(9) [OF sysD(1) [OF assms(1)]] in auto)
  ultimately show ?thesis
    using r sysD(3) started(6) by (auto simp: sys_def)
qed

end
