(* ===== verification/Reach.thy ===== *)
theory Reach
  imports Active NatUtil
begin

text \<open>
  \<open>src/main/connection_listener/check_reachability.rs\<close>: a connection attempt to one of the addresses
  a bootstrapping node claims to listen on. It succeeds when the socket becomes writable and
  fails on an error, a hang-up or after three seconds. The parent's closure is the parameter \<open>fin\<close>.
\<close>

type_synonym 'u reach_fin = "'u reach_check \<Rightarrow> unit + 'u \<Rightarrow> 'u world \<Rightarrow> 'u world option"

definition CHECK_REACHABILITY_TIMEOUT_SEC :: nat where
  "CHECK_REACHABILITY_TIMEOUT_SEC = 3"

definition reach_start ::
    "socket_addr \<Rightarrow> 'u \<Rightarrow> token \<Rightarrow> 'u world \<Rightarrow> (crust_error + token) \<times> 'u world" where
  "reach_start their_listener t parent w =
     (case socket_connect w of
        (Inl e, w) \<Rightarrow> (Inl (Common e), w)
      | (Inr so, w) \<Rightarrow>
          (let (tok, w) = get_new_token w in
           case socket_register tok ready_ehw so of
             (Some e, so) \<Rightarrow> (Inl (CrustIo e), w)
           | (None, so) \<Rightarrow>
               (case set_timeout (CHECK_REACHABILITY_TIMEOUT_SEC * 1000) (CoreTimer tok 0) w of
                  (Inl e, w) \<Rightarrow> (Inl (Common e), w)
                | (Inr tm, w) \<Rightarrow>
                    (Inr tok, insert_state tok (StReach \<lparr>cr_token = tok, cr_socket = so,
                       cr_timeout = tm, cr_t = t, cr_parent = parent\<rparr>) w))))"

definition reach_terminate :: "'u reach_check \<Rightarrow> 'u world \<Rightarrow> 'u reach_check \<times> 'u world" where
  "reach_terminate self w =
     (let w = cancel_timeout (cr_timeout self) w;
          w = remove_state (cr_token self) w
      in (self\<lparr>cr_socket := snd (socket_deregister (cr_socket self))\<rparr>, w))"

definition reach_handle_success ::
    "'u reach_fin \<Rightarrow> 'u reach_check \<Rightarrow> 'u world \<Rightarrow> ('u reach_check \<times> 'u world) option" where
  "reach_handle_success fin self w =
     (let (self, w) = reach_terminate self w in
      do { w \<leftarrow> fin self (Inr (cr_t self)) w; Some (self, w) })"

definition reach_handle_error ::
    "'u reach_fin \<Rightarrow> 'u reach_check \<Rightarrow> 'u world \<Rightarrow> ('u reach_check \<times> 'u world) option" where
  "reach_handle_error fin self w =
     (let (self, w) = reach_terminate self w in
      do { w \<leftarrow> fin self (Inl ()) w; Some (self, w) })"

definition reach_ready ::
    "'u reach_fin \<Rightarrow> ready \<Rightarrow> 'u reach_check \<Rightarrow> 'u world \<Rightarrow> ('u reach_check \<times> 'u world) option" where
  "reach_ready fin kind self w =
     (if is_error kind \<or> is_hup kind \<or> \<not> is_writable kind then reach_handle_error fin self w
      else reach_handle_success fin self w)"

definition reach_timeout ::
    "'u reach_fin \<Rightarrow> 'u reach_check \<Rightarrow> 'u world \<Rightarrow> ('u reach_check \<times> 'u world) option" where
  "reach_timeout fin self w = reach_handle_error fin self w"

section \<open>Facts\<close>

lemma reach_terminate_fields [simp]:
  "cr_token (fst (reach_terminate self w)) = cr_token self"
  "cr_parent (fst (reach_terminate self w)) = cr_parent self"
  "cr_t (fst (reach_terminate self w)) = cr_t self"
  "w_states (snd (reach_terminate self w)) = (w_states w)(cr_token self := None)"
  "w_token_counter (snd (reach_terminate self w)) = w_token_counter w"
  by (simp_all add: reach_terminate_def Let_def)

lemma sys_reach_start [acct]:
  assumes "sys P d w" and "reach_start a u p w = (r, w')"
  shows "sys P d w'"
proof -
  obtain cr w1 where c: "socket_connect w = (cr, w1)" by fastforce
  have s1: "sys P d w1" and c1: "w_token_counter w1 = w_token_counter w"
    using sys_frame(5) [of P d w] assms(1) c socket_connect_eqD [OF c] by auto
  obtain w2 where t: "get_new_token w1 = (w_token_counter w1, w2)" by (simp add: get_new_token_def)
  have s2: "sys P d w2" using sys_frame(3) [OF s1] t by simp
  obtain tr w3 where tm: "set_timeout (CHECK_REACHABILITY_TIMEOUT_SEC * 1000)
      (CoreTimer (w_token_counter w1) 0) w2 = (tr, w3)" by fastforce
  have s3: "sys P d w3" using sys_frame(4) [OF s2] tm by (metis snd_conv)
  have ins: "sys P d (insert_state (w_token_counter w1) (StReach x) w3)"
    if "cr_token x = w_token_counter w1" for x
    by (rule sys_insert_fresh [OF s1 refl])
      (use that set_timeout_eqD [OF tm] get_new_token_eqD [OF t] sysD(3) [OF s3] in auto)
  show ?thesis
    using assms(2) s1 s2 s3 ins
    by (auto simp: reach_start_def c t tm Let_def split: sum.splits option.splits prod.splits)
qed

lemma sys_reach_terminate [acct]:
  assumes "sys P d w" and "w_states w (cr_token self) = Some (StReach r)"
  shows "sys P d (snd (reach_terminate self w))"
  using sys_remove [of P d "cancel_timeout (cr_timeout self) w" "cr_token self" "StReach r"] assms
  by (simp add: reach_terminate_def Let_def active_of_def)

text \<open>A new check leaves the states that exist alone.\<close>

lemma reach_start_others:
  assumes "reach_start a u p w = (r, w')" and "sys P d w" and "w_states w t = Some s"
  shows "w_states w' t = Some s"
proof -
  obtain cr w1 where c: "socket_connect w = (cr, w1)" by fastforce
  obtain w2 where t: "get_new_token w1 = (w_token_counter w1, w2)" by (simp add: get_new_token_def)
  have "t < w_token_counter w"
    by (rule acctD(6) [OF sysD(1) [OF assms(2)] assms(3)])
  then have "t \<noteq> w_token_counter w1"
    using socket_connect_eqD [OF c] by simp
  then show ?thesis
    using assms(1,3) socket_connect_eqD [OF c] get_new_token_eqD [OF t]
    by (auto simp: reach_start_def c t Let_def dest!: set_timeout_eqD split: sum.splits option.splits prod.splits)
qed

end
