(* ===== verification/TryPeer.thy ===== *)
theory TryPeer
  imports Reach
begin

text \<open>
  \<open>src/main/bootstrap/try_peer.rs\<close>: a request to one contact to let us bootstrap off it, and
  \<open>src/main/bootstrap/cache.rs\<close>: the file of cached contacts, whose handler is in the world.
\<close>

type_synonym 'u try_peer_fin =
  "'u try_peer \<Rightarrow> (socket_addr \<times> bootstrap_deny_reason option) + (socket \<times> socket_addr \<times> 'u) \<Rightarrow> 'u world
     \<Rightarrow> 'u world option"

section \<open>The request\<close>

definition try_peer_start ::
    "socket_addr \<Rightarrow> 'u \<Rightarrow> name_hash \<Rightarrow> external_reachability \<Rightarrow> token \<Rightarrow> 'u world
       \<Rightarrow> (crust_error + token) \<times> 'u world" where
  "try_peer_start peer our_uid nh ext_reachability parent w =
     (case socket_connect w of
        (Inl e, w) \<Rightarrow> (Inl (Common e), w)
      | (Inr so, w) \<Rightarrow>
          (let (tok, w) = get_new_token w in
           case socket_register tok ready_ehw so of
             (Some e, so) \<Rightarrow> (Inl (CrustIo e), w)
           | (None, so) \<Rightarrow>
               (Inr tok, insert_state tok (StTryPeer \<lparr>tp_token = tok, tp_peer = peer, tp_socket = so,
                  tp_request = Some (BootstrapRequest our_uid nh ext_reachability, 0),
                  tp_parent = parent\<rparr>) w)))"

definition try_peer_terminate :: "'u try_peer \<Rightarrow> 'u world \<Rightarrow> 'u try_peer \<times> 'u world" where
  "try_peer_terminate self w =
     (let w = remove_state (tp_token self) w
      in (self\<lparr>tp_socket := snd (socket_deregister (tp_socket self))\<rparr>, w))"

definition try_peer_handle_error ::
    "'u try_peer_fin \<Rightarrow> bootstrap_deny_reason option \<Rightarrow> 'u try_peer \<Rightarrow> 'u world
       \<Rightarrow> ('u try_peer \<times> 'u world) option" where
  "try_peer_handle_error fin reason self w =
     (let (self, w) = try_peer_terminate self w in
      do { w \<leftarrow> fin self (Inl (tp_peer self, reason)) w; Some (self, w) })"

definition try_peer_write ::
    "'u env \<Rightarrow> 'u try_peer_fin \<Rightarrow> ('u message \<times> priority) option \<Rightarrow> 'u try_peer \<Rightarrow> 'u world
       \<Rightarrow> ('u try_peer \<times> 'u world) option" where
  "try_peer_write E fin msg self w =
     do { (res, so) \<leftarrow> socket_write (e_ser E) (w_now w) (tp_token self) msg (tp_socket self);
          let self = self\<lparr>tp_socket := so\<rparr>;
          (case res of Inl e \<Rightarrow> try_peer_handle_error fin None self w | Inr _ \<Rightarrow> Some (self, w)) }"

definition try_peer_read ::
    "'u env \<Rightarrow> 'u try_peer_fin \<Rightarrow> 'u try_peer \<Rightarrow> 'u world \<Rightarrow> ('u try_peer \<times> 'u world) option" where
  "try_peer_read E fin self w =
     (case socket_read (e_des E) (tp_socket self) of
        (res, so) \<Rightarrow>
          (let self = self\<lparr>tp_socket := so\<rparr> in
           case res of
             Inr (Some (BootstrapGranted peer_uid)) \<Rightarrow>
               (let w = remove_state (tp_token self) w;
                    self = self\<lparr>tp_socket := socket_default\<rparr>
                in do { w \<leftarrow> fin self (Inr (so, tp_peer self, peer_uid)) w; Some (self, w) })
           | Inr (Some (BootstrapDenied reason)) \<Rightarrow> try_peer_handle_error fin (Some reason) self w
           | Inr None \<Rightarrow> Some (self, w)
           | Inr (Some _) \<Rightarrow> try_peer_handle_error fin None self w
           | Inl e \<Rightarrow> try_peer_handle_error fin None self w))"

text \<open>A hang-up alone counts as a disrupted connection; together with readability the data is read
  first.\<close>

definition try_peer_ready ::
    "'u env \<Rightarrow> 'u try_peer_fin \<Rightarrow> ready \<Rightarrow> 'u try_peer \<Rightarrow> 'u world \<Rightarrow> ('u try_peer \<times> 'u world) option" where
  "try_peer_ready E fin kind self w =
     (if is_error kind then try_peer_handle_error fin None self w
      else if is_writable kind \<or> is_readable kind then
        do { (self, w) \<leftarrow>
               (if is_writable kind then try_peer_write E fin (tp_request self) (self\<lparr>tp_request := None\<rparr>) w
                else Some (self, w));
             (if is_readable kind then try_peer_read E fin self w else Some (self, w)) }
      else try_peer_handle_error fin None self w)"

section \<open>The cache\<close>

text \<open>
  \<open>Cache::new\<close> opens the file, \<open>read_file\<close> reads it: the outer error is of the former, the
  inner one of the latter, which counts as an empty file. The cache is never written:
  \<open>remove_peer_acceptor\<close> does nothing.
\<close>

definition cache_new :: "'u world \<Rightarrow> (crust_error + (crust_error + socket_addr list)) \<times> 'u world" where
  "cache_new w =
     (case pop_answer (Inl ConfigFileHandler) (w_cache_file w) of
        (r, rest) \<Rightarrow> (r, w\<lparr>w_cache_file := rest\<rparr>))"

definition cache_read_file :: "crust_error + socket_addr list \<Rightarrow> socket_addr list" where
  "cache_read_file c = (case c of Inl e \<Rightarrow> [] | Inr as \<Rightarrow> as)"

definition cache_remove_peer_acceptor :: "socket_addr \<Rightarrow> 'u bootstrap \<Rightarrow> 'u bootstrap" where
  "cache_remove_peer_acceptor peer self = self"

section \<open>Facts\<close>

lemma try_peer_terminate_fields [simp]:
  "tp_token (fst (try_peer_terminate self w)) = tp_token self"
  "tp_parent (fst (try_peer_terminate self w)) = tp_parent self"
  "tp_peer (fst (try_peer_terminate self w)) = tp_peer self"
  "w_states (snd (try_peer_terminate self w)) = (w_states w)(tp_token self := None)"
  "w_token_counter (snd (try_peer_terminate self w)) = w_token_counter w"
  by (simp_all add: try_peer_terminate_def Let_def)

lemma try_peer_start_result:
  assumes "try_peer_start peer our nh ext p w = (r, w')" and "sys P d w"
  shows "sys P d w' \<and> w_token_counter w \<le> w_token_counter w' \<and>
    (\<forall>t. r = Inr t \<longrightarrow> t = w_token_counter w)"
proof -
  obtain cr w1 where c: "socket_connect w = (cr, w1)" by fastforce
  have s1: "sys P d w1" and c1: "w_token_counter w1 = w_token_counter w"
    using sys_frame(5) [of P d w] assms(2) c socket_connect_eqD [OF c] by auto
  obtain w2 where t: "get_new_token w1 = (w_token_counter w1, w2)" by (simp add: get_new_token_def)
  have s2: "sys P d w2" using sys_frame(3) [OF s1] t by simp
  have ins: "sys P d (insert_state (w_token_counter w1) (StTryPeer x) w2)"
    if "tp_token x = w_token_counter w1" for x
    by (rule sys_insert_fresh [OF s1 refl]) (use that get_new_token_eqD [OF t] sysD(3) [OF s2] in auto)
  show ?thesis
    using assms(1) s1 s2 ins c1 get_new_token_eqD [OF t]
    by (auto simp: try_peer_start_def c t Let_def split: sum.splits option.splits prod.splits)
qed

lemma try_peer_start_old:
  assumes "try_peer_start peer our nh ext p w = (r, w')" and "t < w_token_counter w"
  shows "w_states w' t = w_states w t"
proof -
  obtain cr w1 where c: "socket_connect w = (cr, w1)" by fastforce
  obtain w2 where t: "get_new_token w1 = (w_token_counter w1, w2)" by (simp add: get_new_token_def)
  have "t \<noteq> w_token_counter w1"
    using socket_connect_eqD [OF c] assms(2) by simp
  then show ?thesis
    using assms(1) socket_connect_eqD [OF c] get_new_token_eqD [OF t]
    by (auto simp: try_peer_start_def c t Let_def split: sum.splits option.splits prod.splits)
qed

end
