(* ===== verification/GetExtAddr.thy ===== *)
theory GetExtAddr
  imports Reach
begin

text \<open>
  \<open>src/nat/mapped_tcp_socket/get_ext_addr.rs\<close>: asks one peer for the address it sees us under.
\<close>

type_synonym 'u get_ext_fin = "'u get_ext_addr \<Rightarrow> unit + socket_addr \<Rightarrow> 'u world \<Rightarrow> 'u world option"

definition get_ext_start ::
    "socket_addr \<Rightarrow> socket_addr \<Rightarrow> token \<Rightarrow> 'u world \<Rightarrow> (nat_error + token) \<times> 'u world" where
  "get_ext_start local_addr peer_stun parent w =
     (case new_reusably_bound_tcp_socket local_addr w of
        (Inl e, w) \<Rightarrow> (Inl (NatIo e), w)
      | (Inr query_socket, w) \<Rightarrow>
          (case tb_to_stream query_socket of
             Some e \<Rightarrow> (Inl (NatIo e), w)
           | None \<Rightarrow>
               (case tcp_connect w of
                  (Inl e, w) \<Rightarrow> (Inl (NatIo e), w)
                | (Inr st, w) \<Rightarrow>
                    (let so = socket_wrap st;
                         (tok, w) = get_new_token w
                     in
                     case socket_register tok ready_ehw so of
                       (Some e, so) \<Rightarrow> (Inl (NatIo e), w)
                     | (None, so) \<Rightarrow>
                         (Inr tok, insert_state tok (StGetExtAddr \<lparr>ge_token = tok, ge_socket = so,
                            ge_request = Some (EchoAddrReq, 0), ge_parent = parent\<rparr>) w)))))"

definition get_ext_terminate :: "'u get_ext_addr \<Rightarrow> 'u world \<Rightarrow> 'u get_ext_addr \<times> 'u world" where
  "get_ext_terminate self w =
     (let w = remove_state (ge_token self) w
      in (self\<lparr>ge_socket := snd (socket_deregister (ge_socket self))\<rparr>, w))"

definition get_ext_handle_error ::
    "'u get_ext_fin \<Rightarrow> 'u get_ext_addr \<Rightarrow> 'u world \<Rightarrow> ('u get_ext_addr \<times> 'u world) option" where
  "get_ext_handle_error fin self w =
     (let (self, w) = get_ext_terminate self w in
      do { w \<leftarrow> fin self (Inl ()) w; Some (self, w) })"

definition get_ext_write ::
    "'u env \<Rightarrow> 'u get_ext_fin \<Rightarrow> ('u message \<times> priority) option \<Rightarrow> 'u get_ext_addr \<Rightarrow> 'u world
       \<Rightarrow> ('u get_ext_addr \<times> 'u world) option" where
  "get_ext_write E fin msg self w =
     do { (res, so) \<leftarrow> socket_write (e_ser E) (w_now w) (ge_token self) msg (ge_socket self);
          let self = self\<lparr>ge_socket := so\<rparr>;
          (case res of Inl e \<Rightarrow> get_ext_handle_error fin self w | Inr _ \<Rightarrow> Some (self, w)) }"

definition get_ext_receive_response ::
    "'u env \<Rightarrow> 'u get_ext_fin \<Rightarrow> 'u get_ext_addr \<Rightarrow> 'u world \<Rightarrow> ('u get_ext_addr \<times> 'u world) option" where
  "get_ext_receive_response E fin self w =
     (case socket_read (e_des E) (ge_socket self) of
        (res, so) \<Rightarrow>
          (let self = self\<lparr>ge_socket := so\<rparr> in
           case res of
             Inr (Some (EchoAddrResp ext_addr)) \<Rightarrow>
               (let (self, w) = get_ext_terminate self w in
                do { w \<leftarrow> fin self (Inr ext_addr) w; Some (self, w) })
           | Inr None \<Rightarrow> Some (self, w)
           | Inr (Some _) \<Rightarrow> get_ext_handle_error fin self w
           | Inl e \<Rightarrow> get_ext_handle_error fin self w))"

definition get_ext_ready ::
    "'u env \<Rightarrow> 'u get_ext_fin \<Rightarrow> ready \<Rightarrow> 'u get_ext_addr \<Rightarrow> 'u world \<Rightarrow> ('u get_ext_addr \<times> 'u world) option" where
  "get_ext_ready E fin kind self w =
     (if is_error kind \<or> is_hup kind then get_ext_handle_error fin self w
      else
        do { (self, w) \<leftarrow>
               (if is_writable kind then get_ext_write E fin (ge_request self) (self\<lparr>ge_request := None\<rparr>) w
                else Some (self, w));
             (if is_readable kind then get_ext_receive_response E fin self w else Some (self, w)) })"

section \<open>Facts\<close>

lemma get_ext_terminate_fields [simp]:
  "ge_token (fst (get_ext_terminate self w)) = ge_token self"
  "ge_parent (fst (get_ext_terminate self w)) = ge_parent self"
  "w_states (snd (get_ext_terminate self w)) = (w_states w)(ge_token self := None)"
  "w_token_counter (snd (get_ext_terminate self w)) = w_token_counter w"
  by (simp_all add: get_ext_terminate_def Let_def)

lemma get_ext_start_result:
  assumes "get_ext_start a s p w = (r, w')" and "sys P d w"
  shows "sys P d w' \<and> w_token_counter w \<le> w_token_counter w' \<and>
    (\<forall>t. r = Inr t \<longrightarrow> t = w_token_counter w)"
proof -
  obtain br w1 where b: "new_reusably_bound_tcp_socket a w = (br, w1)" by fastforce
  obtain cr w2 where c: "tcp_connect w1 = (cr, w2)" by fastforce
  obtain w3 where t: "get_new_token w2 = (w_token_counter w2, w3)" by (simp add: get_new_token_def)
  have q: "quiet w w1" "quiet w w2"
    using new_reusably_bound_quiet [OF b] tcp_connect_quiet [OF c] quiet_trans by blast+
  have s: "sys P d w1" "sys P d w2"
    using sys_quiet assms(2) q by blast+
  have s3: "sys P d w3" using sys_frame(3) [OF s(2)] t by simp
  have ins: "sys P d (insert_state (w_token_counter w2) (StGetExtAddr x) w3)"
    if "ge_token x = w_token_counter w2" for x
    by (rule sys_insert_fresh [OF s(2) refl]) (use that get_new_token_eqD [OF t] sysD(3) [OF s3] in auto)
  have k: "w_token_counter w1 = w_token_counter w" "w_token_counter w2 = w_token_counter w"
      "w_token_counter w3 = Suc (w_token_counter w)"
    using q get_new_token_eqD [OF t] by (simp_all add: quiet_def)
  show ?thesis
    using assms(1) s s3 ins k
    by (auto simp: get_ext_start_def b c t Let_def split: sum.splits option.splits prod.splits)
qed

lemma get_ext_start_states:
  assumes "get_ext_start a s p w = (r, w')"
  shows "w_states w' t = w_states w t \<or> t = w_token_counter w \<and> (\<exists>g. w_states w' t = Some (StGetExtAddr g))"
proof -
  obtain br w1 where b: "new_reusably_bound_tcp_socket a w = (br, w1)" by fastforce
  obtain cr w2 where c: "tcp_connect w1 = (cr, w2)" by fastforce
  obtain w3 where t: "get_new_token w2 = (w_token_counter w2, w3)" by (simp add: get_new_token_def)
  show ?thesis
    using assms new_reusably_bound_quiet [OF b] tcp_connect_quiet [OF c] get_new_token_eqD [OF t]
    by (auto simp: get_ext_start_def b c t Let_def quiet_def split: sum.splits option.splits prod.splits if_splits)
qed

end
