(* ===== verification/Kids.thy ===== *)
theory Kids
  imports Connect TryPeer GetExtAddr
begin

text \<open>
  Dynamic dispatch of \<open>terminate\<close> on the children of a state: what a handler does that drains its
  set of child tokens (\<open>terminate_children\<close> of \<open>bootstrap/mod.rs\<close> and \<open>mapped_tcp_socket/mod.rs\<close>,
  \<open>terminate_childern\<close> of \<open>connection_listener/exchange_msg.rs\<close>). Only states without children of
  their own are given tokens by these parents, so the dispatch has no case for the others.
\<close>

fun terminate_kid :: "'u state \<Rightarrow> 'u world \<Rightarrow> 'u world option" where
  "terminate_kid (StActive s) w = Some (snd (ac_terminate s w))"
| "terminate_kid (StCandidate s) w = Some (snd (cand_terminate s w))"
| "terminate_kid (StConnectEx s) w = Some (snd (cex_terminate s w))"
| "terminate_kid (StReach s) w = Some (snd (reach_terminate s w))"
| "terminate_kid (StTryPeer s) w = Some (snd (try_peer_terminate s w))"
| "terminate_kid (StGetExtAddr s) w = Some (snd (get_ext_terminate s w))"
| "terminate_kid _ w = None"

fun terminate_kids :: "token list \<Rightarrow> 'u world \<Rightarrow> 'u world option" where
  "terminate_kids [] w = Some w"
| "terminate_kids (t # ts) w =
     (case get_state t w of
        None \<Rightarrow> terminate_kids ts w
      | Some s \<Rightarrow> do { w \<leftarrow> terminate_kid s w; terminate_kids ts w })"

section \<open>Facts\<close>

lemma plain_removed:
  assumes "sys P d w" and "w_states w t = Some s" and "plain s"
    and "w_states w' = (w_states w)(t := None)" and "w_cm w' = w_cm w"
    and "w_token_counter w' = w_token_counter w" and "w_timer_answers w' = w_timer_answers w"
  shows "sys P d w'"
  by (rule sys_plain [OF assms(1)]) (use assms in auto)

lemma sys_ac_terminate:
  assumes "sys P d w" and "w_states w (ac_token ac) = Some (StActive ac)"
  shows "sys P d (snd (ac_terminate ac w))"
proof -
  have k: "ac_keeps ac w (ac_terminate ac w)" by (rule ac_keeps_terminate)
  have self: "ac_self ac w" using assms(2) by (simp add: ac_self_def)
  show ?thesis
    using k self assms(1) links_shrink [OF sysD(2) [OF assms(1)] ac_keeps_shrinks [OF k self]]
    by (auto simp: sys_def ac_keeps_def same_off_def)
qed

lemma terminate_kid_ok:
  assumes "sys P d w" and "w_states w t = Some s" and "terminate_kid s w = Some w'"
  shows "sys P d w' \<and> w_states w' = (w_states w)(t := None) \<and> w_token_counter w' = w_token_counter w"
proof -
  have tok: "state_token s = t"
    using acctD(5) [OF sysD(1) [OF assms(1)] assms(2)] .
  show ?thesis
  proof (cases s)
    case (StActive c)
    with sys_ac_terminate [OF assms(1), of c] assms tok show ?thesis
      by (auto simp: ac_terminate_def hb_terminate_def Let_def)
  next
    case (StCandidate c)
    then have "cand_self c w" using assms(2) tok by (simp add: cand_self_def)
    from cand_terminated [OF assms(1) this] StCandidate assms(3) tok show ?thesis
      by (auto simp: cand_terminate_def Let_def)
  next
    case (StConnectEx c)
    then have "cex_self c w" using assms(2) tok by (simp add: cex_self_def)
    from cex_terminated [OF assms(1) this] StConnectEx assms(3) tok show ?thesis
      by (auto simp: cex_terminate_def Let_def)
  next
    case (StReach c)
    with plain_removed [OF assms(1,2), of w'] assms(3) tok show ?thesis
      by (auto simp: reach_terminate_def Let_def)
  next
    case (StTryPeer c)
    with plain_removed [OF assms(1,2), of w'] assms(3) tok show ?thesis
      by (auto simp: try_peer_terminate_def Let_def)
  next
    case (StGetExtAddr c)
    with plain_removed [OF assms(1,2), of w'] assms(3) tok show ?thesis
      by (auto simp: get_ext_terminate_def Let_def)
  qed (use assms(3) in simp_all)
qed

lemma terminate_kids_ok:
  assumes "sys P d w" and "terminate_kids ts w = Some w'"
  shows "sys P d w' \<and> w_states w' = (\<lambda>t. if t \<in> set ts then None else w_states w t) \<and>
    w_token_counter w' = w_token_counter w"
  using assms
proof (induction ts arbitrary: w)
  case (Cons t ts)
  show ?case
  proof (cases "w_states w t")
    case None
    with Cons.IH [OF Cons.prems(1)] Cons.prems(2) show ?thesis
      by (auto simp: get_state_def fun_eq_iff)
  next
    case (Some s)
    with Cons.prems(2) obtain w1 where w1: "terminate_kid s w = Some w1" "terminate_kids ts w1 = Some w'"
      by (auto simp: get_state_def split: bind_splits)
    from terminate_kid_ok [OF Cons.prems(1) Some w1(1)] Cons.IH [OF _ w1(2)] show ?thesis
      by (auto simp: fun_eq_iff)
  qed
qed (simp add: fun_eq_iff)

text \<open>The children that the parents have are of these kinds: then nothing is missing.\<close>

lemma terminate_kids_total:
  assumes "\<forall>t \<in> set ts. \<forall>s. w_states w t = Some s \<longrightarrow> kind_of s \<in> {KReach, KTryPeer, KGetExtAddr}"
    and "sys P d w"
  shows "\<exists>w'. terminate_kids ts w = Some w'"
  using assms
proof (induction ts arbitrary: w)
  case (Cons t ts)
  show ?case
  proof (cases "w_states w t")
    case None
    with Cons.IH Cons.prems show ?thesis by (simp add: get_state_def)
  next
    case (Some s)
    then have "\<exists>w1. terminate_kid s w = Some w1" using Cons.prems(1) by (cases s) auto
    then obtain w1 where w1: "terminate_kid s w = Some w1" by blast
    note k = terminate_kid_ok [OF Cons.prems(2) Some w1]
    have "\<exists>w'. terminate_kids ts w1 = Some w'"
      by (rule Cons.IH) (use k Cons.prems(1) in auto)
    with w1 Some show ?thesis by (simp add: get_state_def)
  qed
qed simp

end
