(* ===== verification/ListenEx.thy ===== *)
theory ListenEx
  imports Kids
begin

text \<open>
  \<open>src/main/connection_listener/exchange_msg.rs\<close>: an accepted connection whose first message decides
  what becomes of it. A bootstrap request is granted or denied, after a check that the node can be
  reached from outside where that is required; a connect request is answered and turned into
  a candidate; a request for the address is answered and the connection closed.

  The record of a state whose handler runs is updated in place in the source. Where the update
  matters to what the handler calls next (the field \<open>next_state\<close>, by which the handshake of the
  connection map is accounted for), the model writes the record back at once.
\<close>

section \<open>Operations\<close>

definition EXCHANGE_MSG_TIMEOUT_SEC :: nat where
  "EXCHANGE_MSG_TIMEOUT_SEC = 10 * 60"

definition lex_start ::
    "nat option \<Rightarrow> socket \<Rightarrow> bool \<Rightarrow> 'u \<Rightarrow> name_hash \<Rightarrow> 'u world \<Rightarrow> (crust_error + unit) \<times> 'u world" where
  "lex_start timeout_sec so accept_bootstrap our_uid nh w =
     (let (tok, w) = get_new_token w in
      case socket_register tok ready_erh so of
        (Some e, so) \<Rightarrow> (Inl (CrustIo e), w)
      | (None, so) \<Rightarrow>
          (case set_timeout (case_option EXCHANGE_MSG_TIMEOUT_SEC id timeout_sec * 1000) (CoreTimer tok 0) w of
             (Inl e, w) \<Rightarrow> (Inl (Common e), w)
           | (Inr tm, w) \<Rightarrow>
               (let require_reachability =
                      (case dev (cfg (w_config w)) of
                         None \<Rightarrow> True
                       | Some dc \<Rightarrow> \<not> disable_external_reachability_requirement dc)
                in
                (Inr (), insert_state tok (StListenEx \<lparr>le_token = tok, le_name_hash = nh,
                   le_next_state = NsNone, le_our_uid = our_uid, le_socket = so, le_timeout = tm,
                   le_children = [], le_accept_bootstrap = accept_bootstrap,
                   le_require_reachability = require_reachability\<rparr>) w))))"

definition lex_terminate_childern :: "'u listen_ex \<Rightarrow> 'u world \<Rightarrow> ('u listen_ex \<times> 'u world) option" where
  "lex_terminate_childern self w =
     do { w \<leftarrow> terminate_kids (le_children self) w; Some (self\<lparr>le_children := []\<rparr>, w) }"

definition lex_terminate :: "'u listen_ex \<Rightarrow> 'u world \<Rightarrow> ('u listen_ex \<times> 'u world) option" where
  "lex_terminate self w =
     do { (self, w) \<leftarrow> lex_terminate_childern self w;
          let w = remove_state (le_token self) w;
          let w = (case le_next_state self of
                     NsConnectionCandidate their_uid \<Rightarrow> upd_cm (cm_leave their_uid) w
                   | NsActiveConnection their_uid _ \<Rightarrow> upd_cm (cm_leave their_uid) w
                   | NsNone \<Rightarrow> w);
          let w = cancel_timeout (le_timeout self) w;
          Some (self\<lparr>le_socket := snd (socket_deregister (le_socket self))\<rparr>, w) }"

definition lex_done :: "'u env \<Rightarrow> 'u listen_ex \<Rightarrow> 'u world \<Rightarrow> ('u listen_ex \<times> 'u world) option" where
  "lex_done E self w =
     (let w = remove_state (le_token self) w;
          w = cancel_timeout (le_timeout self) w;
          so = le_socket self
      in
      case le_next_state self of
        NsActiveConnection their_uid peer_kind \<Rightarrow>
          Some (self\<lparr>le_socket := socket_default\<rparr>,
                ac_start E (le_token self) so (le_our_uid self) their_uid peer_kind
                  (BootstrapAccept their_uid peer_kind) w)
      | NsConnectionCandidate their_uid \<Rightarrow>
          do { w \<leftarrow> cand_start (le_token self) so (le_our_uid self) their_uid FinListener w;
               Some (self\<lparr>le_socket := socket_default\<rparr>, w) }
      | NsNone \<Rightarrow> lex_terminate self w)"

text \<open>The guard at the beginning of \<open>write\<close>: the peer of a bootstrap is connected already.\<close>

definition lex_multiple_bootstrap :: "'u listen_ex \<Rightarrow> 'u world \<Rightarrow> bool" where
  "lex_multiple_bootstrap self w =
     (case le_next_state self of
        NsActiveConnection their_uid _ \<Rightarrow> cm_active (w_cm w) their_uid \<noteq> None
      | _ \<Rightarrow> False)"

definition lex_write ::
    "'u env \<Rightarrow> ('u message \<times> priority) option \<Rightarrow> 'u listen_ex \<Rightarrow> 'u world
       \<Rightarrow> ('u listen_ex \<times> 'u world) option" where
  "lex_write E msg self w =
     (if lex_multiple_bootstrap self w then lex_terminate self w
      else
        do { (res, so) \<leftarrow> socket_write (e_ser E) (w_now w) (le_token self) msg (le_socket self);
             let self = self\<lparr>le_socket := so\<rparr>;
             (case res of
                Inr True \<Rightarrow> lex_done E self w
              | Inr False \<Rightarrow> Some (self, w)
              | Inl e \<Rightarrow> lex_terminate self w) })"

definition lex_enter_handshaking_mode :: "'u \<Rightarrow> 'u world \<Rightarrow> 'u world" where
  "lex_enter_handshaking_mode their_uid w = upd_cm (cm_enter their_uid) w"

definition lex_send_bootstrap_grant ::
    "'u env \<Rightarrow> 'u \<Rightarrow> crust_user \<Rightarrow> 'u listen_ex \<Rightarrow> 'u world \<Rightarrow> ('u listen_ex \<times> 'u world) option" where
  "lex_send_bootstrap_grant E their_uid peer_kind self w =
     (let w = lex_enter_handshaking_mode their_uid w;
          self = self\<lparr>le_next_state := NsActiveConnection their_uid peer_kind\<rparr>;
          w = put_state (StListenEx self) w
      in lex_write E (Some (BootstrapGranted (le_our_uid self), 0)) self w)"

definition lex_is_peer_whitelisted :: "crust_user \<Rightarrow> 'u listen_ex \<Rightarrow> 'u world \<Rightarrow> bool" where
  "lex_is_peer_whitelisted peer_kind self w =
     (case socket_peer_addr (le_socket self) of
        Inl e \<Rightarrow> False
      | Inr s \<Rightarrow>
          (case peer_kind of
             Node \<Rightarrow> whitelisted (whitelisted_node_ips (cfg (w_config w))) (sa_ip s)
           | Client \<Rightarrow> whitelisted (whitelisted_client_ips (cfg (w_config w))) (sa_ip s)))"

definition lex_is_valid_name_hash :: "name_hash \<Rightarrow> 'u listen_ex \<Rightarrow> bool" where
  "lex_is_valid_name_hash nh self \<longleftrightarrow> le_name_hash self = nh"

definition lex_validate_peer_uid :: "'u \<Rightarrow> 'u listen_ex \<Rightarrow> unit + 'u" where
  "lex_validate_peer_uid their_uid self = (if le_our_uid self = their_uid then Inl () else Inr their_uid)"

definition lex_try_update_crust_config :: "'u world \<Rightarrow> 'u world" where
  "lex_try_update_crust_config w =
     (case read_config_file w of
        (Inl e, w) \<Rightarrow> w
      | (Inr c, w) \<Rightarrow> w\<lparr>w_config := check_for_update_and_mark_modified c (w_config w)\<rparr>)"

text \<open>One reachability check per global address of the peer; the others are dropped.\<close>

fun lex_check_all :: "socket_addr list \<Rightarrow> 'u \<Rightarrow> 'u listen_ex \<Rightarrow> 'u world \<Rightarrow> 'u listen_ex \<times> 'u world" where
  "lex_check_all [] their_uid self w = (self, w)"
| "lex_check_all (a # as) their_uid self w =
     (case reach_start a their_uid (le_token self) w of
        (Inl e, w) \<Rightarrow> lex_check_all as their_uid self w
      | (Inr child, w) \<Rightarrow>
          lex_check_all as their_uid (self\<lparr>le_children := hs_insert child (le_children self)\<rparr>) w)"

definition lex_deny ::
    "'u env \<Rightarrow> bootstrap_deny_reason \<Rightarrow> 'u listen_ex \<Rightarrow> 'u world \<Rightarrow> ('u listen_ex \<times> 'u world) option" where
  "lex_deny E reason self w = lex_write E (Some (BootstrapDenied reason, 0)) self w"

definition lex_handle_bootstrap_req ::
    "'u env \<Rightarrow> 'u \<Rightarrow> name_hash \<Rightarrow> external_reachability \<Rightarrow> 'u listen_ex \<Rightarrow> 'u world
       \<Rightarrow> ('u listen_ex \<times> 'u world) option" where
  "lex_handle_bootstrap_req E their_uid nh ext_reachability self w =
     (if \<not> lex_is_valid_name_hash nh self then lex_deny E InvalidNameHash self w
      else
        (let w = lex_try_update_crust_config w in
         case ext_reachability of
           Required listeners \<Rightarrow>
             if \<not> lex_is_peer_whitelisted Node self w then lex_deny E NodeNotWhitelisted self w
             else if \<not> le_require_reachability self then
               lex_send_bootstrap_grant E their_uid Node self w
             else
               (let (self, w) = lex_check_all (filter (\<lambda>a. ip_addr_is_global (sa_ip a)) listeners)
                                  their_uid self w
                in if le_children self = [] then lex_deny E FailedExternalReachability self w
                   else Some (self, w))
         | NotRequired \<Rightarrow>
             if \<not> lex_is_peer_whitelisted Client self w then lex_deny E ClientNotWhitelisted self w
             else lex_send_bootstrap_grant E their_uid Client self w))"

definition lex_handle_check_reachability ::
    "'u env \<Rightarrow> token \<Rightarrow> unit + 'u \<Rightarrow> 'u listen_ex \<Rightarrow> 'u world \<Rightarrow> ('u listen_ex \<times> 'u world) option" where
  "lex_handle_check_reachability E child res self w =
     (let self = self\<lparr>le_children := hs_remove child (le_children self)\<rparr> in
      case res of
        Inr their_uid \<Rightarrow>
          do { (self, w) \<leftarrow> lex_terminate_childern self w;
               lex_send_bootstrap_grant E their_uid Node self w }
      | Inl _ \<Rightarrow>
          if le_children self = [] then lex_deny E FailedExternalReachability self w else Some (self, w))"

definition lex_handle_connect ::
    "'u env \<Rightarrow> 'u \<Rightarrow> name_hash \<Rightarrow> 'u listen_ex \<Rightarrow> 'u world \<Rightarrow> ('u listen_ex \<times> 'u world) option" where
  "lex_handle_connect E their_uid nh self w =
     (if \<not> lex_is_valid_name_hash nh self then lex_terminate self w
      else
        (let w = lex_try_update_crust_config w in
         if \<not> lex_is_peer_whitelisted Node self w then lex_terminate self w
         else
           (let w = lex_enter_handshaking_mode their_uid w;
                self = self\<lparr>le_next_state := NsConnectionCandidate their_uid\<rparr>;
                w = put_state (StListenEx self) w
            in lex_write E (Some (message.Connect (le_our_uid self) (le_name_hash self), 0)) self w)))"

definition lex_handle_echo_addr_req ::
    "'u env \<Rightarrow> 'u listen_ex \<Rightarrow> 'u world \<Rightarrow> ('u listen_ex \<times> 'u world) option" where
  "lex_handle_echo_addr_req E self w =
     (let self = self\<lparr>le_next_state := NsNone\<rparr>;
          w = put_state (StListenEx self) w
      in
      case socket_peer_addr (le_socket self) of
        Inr peer_addr \<Rightarrow> lex_write E (Some (EchoAddrResp peer_addr, 0)) self w
      | Inl e \<Rightarrow> lex_terminate self w)"

definition lex_read :: "'u env \<Rightarrow> 'u listen_ex \<Rightarrow> 'u world \<Rightarrow> ('u listen_ex \<times> 'u world) option" where
  "lex_read E self w =
     (case socket_read (e_des E) (le_socket self) of
        (res, so) \<Rightarrow>
          (let self = self\<lparr>le_socket := so\<rparr> in
           case res of
             Inr (Some (BootstrapRequest their_uid nh ext_reachability)) \<Rightarrow>
               if \<not> le_accept_bootstrap self then lex_terminate self w
               else (case lex_validate_peer_uid their_uid self of
                       Inr their_uid \<Rightarrow> lex_handle_bootstrap_req E their_uid nh ext_reachability self w
                     | Inl _ \<Rightarrow> lex_terminate self w)
           | Inr (Some (message.Connect their_uid nh)) \<Rightarrow>
               (case lex_validate_peer_uid their_uid self of
                  Inr their_uid \<Rightarrow> lex_handle_connect E their_uid nh self w
                | Inl _ \<Rightarrow> lex_terminate self w)
           | Inr (Some EchoAddrReq) \<Rightarrow> lex_handle_echo_addr_req E self w
           | Inr (Some _) \<Rightarrow> lex_terminate self w
           | Inr None \<Rightarrow> Some (self, w)
           | Inl e \<Rightarrow> lex_terminate self w))"

definition lex_ready ::
    "'u env \<Rightarrow> ready \<Rightarrow> 'u listen_ex \<Rightarrow> 'u world \<Rightarrow> ('u listen_ex \<times> 'u world) option" where
  "lex_ready E kind self w =
     (if is_error kind \<or> is_hup kind then lex_terminate self w
      else
        do { (self, w) \<leftarrow> (if is_readable kind then lex_read E self w else Some (self, w));
             (if is_writable kind then lex_write E None self w else Some (self, w)) })"

definition lex_timeout :: "'u listen_ex \<Rightarrow> 'u world \<Rightarrow> ('u listen_ex \<times> 'u world) option" where
  "lex_timeout self w = lex_terminate self w"

text \<open>The closure that the reachability checks call.\<close>

definition lex_reach_fin :: "'u env \<Rightarrow> 'u reach_fin" where
  "lex_reach_fin E child res w =
     (case get_state (cr_parent child) w of
        Some (StListenEx self) \<Rightarrow>
          do { (self, w) \<leftarrow> lex_handle_check_reachability E (cr_token child) res self w;
               Some (put_state (StListenEx self) w) }
      | _ \<Rightarrow> Some w)"

section \<open>Accounting\<close>

definition lex_self :: "'u listen_ex \<Rightarrow> 'u world \<Rightarrow> bool" where
  "lex_self self w \<longleftrightarrow>
     (\<exists>c. w_states w (le_token self) = Some (StListenEx c) \<and> le_next_state c = le_next_state self)"

definition lex_keeps :: "'u listen_ex \<Rightarrow> 'u listen_ex \<times> 'u world \<Rightarrow> bool" where
  "lex_keeps self r \<longleftrightarrow>
     sys {} no_debt (snd r) \<and> le_token (fst r) = le_token self \<and>
     (\<forall>c. w_states (snd r) (le_token self) = Some (StListenEx c) \<longrightarrow> le_next_state c = le_next_state (fst r))"

lemma lex_self_cong [simp]:
  "lex_self (self\<lparr>le_socket := so\<rparr>) w = lex_self self w"
  "lex_self (self\<lparr>le_children := ts\<rparr>) w = lex_self self w"
  by (simp_all add: lex_self_def)

lemma lex_keeps_cong [simp]:
  "lex_keeps (self\<lparr>le_socket := so\<rparr>) = lex_keeps self"
  "lex_keeps (self\<lparr>le_children := ts\<rparr>) = lex_keeps self"
  "lex_keeps (self\<lparr>le_next_state := ns\<rparr>) = lex_keeps self"
  by (simp_all add: lex_keeps_def fun_eq_iff)

lemma lex_keeps_stay: "sys {} no_debt w \<Longrightarrow> lex_self self w \<Longrightarrow> lex_keeps self (self, w)"
  by (auto simp: lex_keeps_def lex_self_def)

text \<open>Draining the children does not touch a state that is nobody's child.\<close>

lemma terminate_kids_spares:
  assumes "terminate_kids ts w = Some w'" and "w_states w t = Some s" and "\<And>w. terminate_kid s w = None"
    and "sys P d w"
  shows "w_states w' t = Some s"
  using assms(1,2,4)
proof (induction ts arbitrary: w)
  case (Cons t' ts)
  show ?case
  proof (cases "w_states w t'")
    case None
    with Cons show ?thesis by (simp add: get_state_def)
  next
    case (Some s')
    with Cons.prems(1) obtain w1 where w1: "terminate_kid s' w = Some w1" "terminate_kids ts w1 = Some w'"
      by (auto simp: get_state_def split: bind_splits)
    with assms(3) Some Cons.prems(2) have "t' \<noteq> t" by auto
    with terminate_kid_ok [OF Cons.prems(3) Some w1(1)] Cons.IH [OF w1(2)] Cons.prems(2) show ?thesis
      by auto
  qed
qed simp

lemma lex_terminate_childern_ok:
  assumes "sys {} no_debt w" and "lex_self self w" and "lex_terminate_childern self w = Some (self', w')"
  shows "sys {} no_debt w' \<and> lex_self self' w' \<and> self' = self\<lparr>le_children := []\<rparr> \<and>
    w_token_counter w' = w_token_counter w"
proof -
  obtain c where c: "w_states w (le_token self) = Some (StListenEx c)" "le_next_state c = le_next_state self"
    using assms(2) by (auto simp: lex_self_def)
  from assms(3) have k: "terminate_kids (le_children self) w = Some w'" "self' = self\<lparr>le_children := []\<rparr>"
    by (auto simp: lex_terminate_childern_def split: bind_splits)
  from terminate_kids_spares [OF k(1) c(1) _ assms(1)] terminate_kids_ok [OF assms(1) k(1)] k(2) c(2)
  show ?thesis by (auto simp: lex_self_def)
qed

lemma lex_removed:
  assumes "sys {} no_debt w" and "lex_self self w"
  shows "sys {} (owe (next_peer (le_next_state self)) no_debt) (remove_state (le_token self) w)"
    and "given w (le_token self)"
    and "w_states w p = Some (StConnect k) \<Longrightarrow> le_token self \<notin> set (cn_children k)"
proof -
  obtain c where c: "w_states w (le_token self) = Some (StListenEx c)" "le_next_state c = le_next_state self"
    using assms(2) by (auto simp: lex_self_def)
  show "sys {} (owe (next_peer (le_next_state self)) no_debt) (remove_state (le_token self) w)"
    using sys_remove [OF assms(1) c(1)] c(2) by (simp add: active_of_def)
  show "given w (le_token self)"
    using acctD(8) [OF sysD(1) [OF assms(1)] c(1)] by (simp add: reserved_def)
  show "le_token self \<notin> set (cn_children k)" if "w_states w p = Some (StConnect k)"
    using linksD(2) [OF sysD(2) [OF assms(1)] that _ _ c(1)] by auto
qed

lemma lex_terminate_keeps:
  assumes "sys {} no_debt w" and "lex_self self w" and "lex_terminate self w = Some r"
  shows "lex_keeps self r"
proof -
  obtain self1 w1 where k: "lex_terminate_childern self w = Some (self1, w1)"
    using assms(3) by (auto simp: lex_terminate_def split: bind_splits)
  note ok = lex_terminate_childern_ok [OF assms(1,2) k]
  let ?w = "remove_state (le_token self) w1"
  have "sys {} no_debt (case le_next_state self of
          NsConnectionCandidate u \<Rightarrow> upd_cm (cm_leave u) ?w
        | NsActiveConnection u _ \<Rightarrow> upd_cm (cm_leave u) ?w
        | NsNone \<Rightarrow> ?w)"
    using lex_removed(1) [of w1 self1] ok sys_cm(2) [of "{}" _ no_debt ?w]
    by (auto split: next_state.splits)
  then show ?thesis
    using assms(3) k ok
    by (auto simp: lex_terminate_def lex_keeps_def Let_def split: next_state.splits)
qed

lemma lex_done_keeps:
  assumes "sys {} no_debt w" and "lex_self self w" and "lex_done E self w = Some r"
  shows "lex_keeps self r"
proof -
  let ?w = "cancel_timeout (le_timeout self) (remove_state (le_token self) w)" and ?t = "le_token self"
  note R = lex_removed [OF assms(1,2)]
  have np: "?t \<notin> set (cn_children k)" if "w_states ?w p = Some (StConnect k)" for p k
    using that R(3) [of p k] by (auto split: if_splits)
  show ?thesis
  proof (cases "le_next_state self")
    case NsNone
    from NsNone R(1) have s: "sys {} no_debt ?w" by simp
    from NsNone assms(3) have "lex_terminate self ?w = Some r" by (simp add: lex_done_def Let_def)
    then obtain w1 where k: "terminate_kids (le_children self) ?w = Some w1"
      "fst r = self\<lparr>le_children := [], le_socket := snd (socket_deregister (le_socket self))\<rparr>"
      "snd r = cancel_timeout (le_timeout self) (remove_state ?t w1)"
      using NsNone by (auto simp: lex_terminate_def lex_terminate_childern_def Let_def split: bind_splits)
    have w1: "sys {} no_debt w1" "w_states w1 ?t = None"
      using terminate_kids_ok [OF s k(1)] by simp_all
    have "sys {} no_debt (snd r)" "w_states (snd r) ?t = None"
      unfolding k(3) using sys_plain_remove [OF w1(1), of ?t] w1(2) by simp_all
    with k show ?thesis by (simp add: lex_keeps_def)
  next
    case (NsActiveConnection u k)
    have "sys {} no_debt (ac_start E ?t (le_socket self) (le_our_uid self) u k (BootstrapAccept u k) ?w) \<and>
        no_cand ?t (ac_start E ?t (le_socket self) (le_our_uid self) u k (BootstrapAccept u k) ?w) \<and>
        same_off {?t} ?w (ac_start E ?t (le_socket self) (le_our_uid self) u k (BootstrapAccept u k) ?w)"
      by (rule sys_ac_start_no_cand) (use NsActiveConnection R np in auto)
    moreover have "w_states (ac_start E ?t (le_socket self) (le_our_uid self) u k (BootstrapAccept u k) ?w) ?t = None \<or>
        active_of u (w_states (ac_start E ?t (le_socket self) (le_our_uid self) u k (BootstrapAccept u k) ?w) ?t)"
      by (rule acct_ac_start(3) [where d = no_debt])
        (use R(1,2) NsActiveConnection sysD(1,3) [OF R(1)] in simp_all)
    ultimately show ?thesis
      using assms(3) NsActiveConnection by (auto simp: lex_done_def Let_def lex_keeps_def active_of_def)
  next
    case (NsConnectionCandidate u)
    have ins: "sys {} no_debt (insert_state ?t (StCandidate c) ?w)"
      if "cc_token c = ?t" "cc_their_id c = u" "cc_finish c = FinListener" for c
      by (rule sys_insert) (use that NsConnectionCandidate R np in \<open>auto split: if_splits\<close>)
    from assms(3) NsConnectionCandidate ins show ?thesis
      by (auto simp: lex_done_def Let_def lex_keeps_def cand_start_def split: bind_splits prod.splits option.splits)
  qed
qed

lemma lex_write_keeps:
  assumes "sys {} no_debt w" and "lex_self self w" and "lex_write E msg self w = Some r"
  shows "lex_keeps self r"
proof -
  have k: "lex_keeps (self\<lparr>le_socket := so\<rparr>) r"
    if "lex_done E (self\<lparr>le_socket := so\<rparr>) w = Some r \<or>
        lex_terminate (self\<lparr>le_socket := so\<rparr>) w = Some r \<or> r = (self\<lparr>le_socket := so\<rparr>, w)" for so
  proof -
    have self: "lex_self (self\<lparr>le_socket := so\<rparr>) w" using assms(2) by simp
    show ?thesis
      using that lex_done_keeps [OF assms(1) self] lex_terminate_keeps [OF assms(1) self]
        lex_keeps_stay [OF assms(1) self] by blast
  qed
  have "lex_terminate self w = Some r \<or>
      (\<exists>so. lex_done E (self\<lparr>le_socket := so\<rparr>) w = Some r \<or>
        lex_terminate (self\<lparr>le_socket := so\<rparr>) w = Some r \<or> r = (self\<lparr>le_socket := so\<rparr>, w))"
    using assms(3)
    by (auto simp: lex_write_def Let_def split: if_splits bind_splits prod.splits sum.splits bool.splits)
  then show ?thesis
    using lex_terminate_keeps [OF assms(1,2)] k by fastforce
qed

text \<open>Entering the handshake: the connection map and the state take the new peer together.\<close>

lemma live_less_tokens:
  assumes "sys P d w" and "w_states w t = Some s" and "counted s \<noteq> Some u"
  shows "live w u < w_token_counter w"
proof -
  have "keys_where (\<lambda>s. counted s = Some u) (w_states w) \<subseteq> {..<w_token_counter w} - {t}"
    using acctD(6) [OF sysD(1) [OF assms(1)]] assms(2,3) by (auto simp: keys_where_mem)
  then have "live w u \<le> card ({..<w_token_counter w} - {t})"
    unfolding live_def count_where_def by (rule card_mono [rotated]) simp
  also have "\<dots> < w_token_counter w"
    using acctD(6) [OF sysD(1) [OF assms(1)] assms(2)] by simp
  finally show ?thesis .
qed

lemma lex_take_peer:
  assumes "sys {} no_debt w" and "lex_self self w" and "le_next_state self = NsNone"
    and "w_token_counter w < 2 ^ 64" and "next_peer ns = Some u"
  shows "sys {} no_debt (put_state (StListenEx (self\<lparr>le_next_state := ns\<rparr>)) (upd_cm (cm_enter u) w))"
    and "lex_self (self\<lparr>le_next_state := ns\<rparr>)
      (put_state (StListenEx (self\<lparr>le_next_state := ns\<rparr>)) (upd_cm (cm_enter u) w))"
proof -
  let ?t = "le_token self" and ?s = "StListenEx (self\<lparr>le_next_state := ns\<rparr>)" and ?w = "upd_cm (cm_enter u) w"
  obtain c where c: "w_states w ?t = Some (StListenEx c)" "le_next_state c = NsNone"
    using assms(2,3) by (auto simp: lex_self_def)
  have put: "put_state ?s ?w = insert_state ?t ?s ?w"
    using c(1) by (simp add: put_state_def get_state_def)
  then show "lex_self (self\<lparr>le_next_state := ns\<rparr>) (put_state ?s ?w)"
    by (simp add: lex_self_def)
  have "live w u < w_token_counter w"
    by (rule live_less_tokens [OF assms(1) c(1)]) (simp add: c(2))
  then have e: "sys {} (owe (Some u) no_debt) ?w"
    by (intro sys_cm(1) [OF assms(1)]) (use assms(4) in simp)
  have r: "sys {} (owe (Some u) no_debt) (remove_state ?t ?w)"
    using sys_remove [OF e, of ?t "StListenEx c"] c by (simp add: active_of_def)
  have "sys {} no_debt (insert_state ?t ?s (remove_state ?t ?w))"
    by (rule sys_insert)
      (use r assms(5) lex_removed(2,3) [OF assms(1,2)] in \<open>auto split: if_splits\<close>)
  moreover have "insert_state ?t ?s (remove_state ?t ?w) = insert_state ?t ?s ?w"
    by (simp add: insert_state_def remove_state_def)
  ultimately show "sys {} no_debt (put_state ?s ?w)"
    using put by simp
qed

lemma lex_grant_keeps:
  assumes "sys {} no_debt w" and "lex_self self w" and "le_next_state self = NsNone"
    and "w_token_counter w < 2 ^ 64" and "lex_send_bootstrap_grant E u k self w = Some r"
  shows "lex_keeps self r"
proof -
  note t = lex_take_peer [OF assms(1-4), of "NsActiveConnection u k" u, simplified]
  from lex_write_keeps [OF t] assms(5) show ?thesis
    by (auto simp: lex_send_bootstrap_grant_def lex_enter_handshaking_mode_def Let_def)
qed

lemma lex_update_config_frame [simp]:
  "sys P d (lex_try_update_crust_config w) = sys P d w"
  "w_states (lex_try_update_crust_config w) = w_states w"
  "w_token_counter (lex_try_update_crust_config w) = w_token_counter w"
  "lex_self self (lex_try_update_crust_config w) = lex_self self w"
proof -
  obtain rc w1 where r: "read_config_file w = (rc, w1)" by fastforce
  note f = read_config_file_eqD [OF r]
  show st: "w_states (lex_try_update_crust_config w) = w_states w"
    and ct: "w_token_counter (lex_try_update_crust_config w) = w_token_counter w"
    using f by (simp_all add: lex_try_update_crust_config_def r split: sum.splits)
  show "lex_self self (lex_try_update_crust_config w) = lex_self self w"
    by (simp add: lex_self_def st)
  have cm: "w_cm (lex_try_update_crust_config w) = w_cm w"
    and ta: "w_timer_answers (lex_try_update_crust_config w) = w_timer_answers w"
    using f by (simp_all add: lex_try_update_crust_config_def r split: sum.splits)
  show "sys P d (lex_try_update_crust_config w) = sys P d w"
    by (rule iffI; rule sys_cong [rotated 4], assumption) (simp_all add: st ct cm ta)
qed

lemma lex_check_all_ok:
  assumes "lex_check_all as u self w = (self', w')" and "sys {} no_debt w" and "lex_self self w"
  shows "sys {} no_debt w' \<and> lex_self self' w' \<and> le_token self' = le_token self \<and>
    le_next_state self' = le_next_state self"
  using assms
proof (induction as u self w rule: lex_check_all.induct)
  case (2 a as u self w)
  obtain r w1 where r: "reach_start a u (le_token self) w = (r, w1)" by fastforce
  have s: "sys {} no_debt w1" by (rule sys_reach_start [OF 2(4) r])
  have l: "lex_self self w1"
    using 2(5) reach_start_others [OF r 2(4)] by (auto simp: lex_self_def)
  show ?case
  proof (cases r)
    case (Inl e)
    with 2(1) [OF r [symmetric] Inl] 2(3) r s l show ?thesis by simp
  next
    case (Inr child)
    with 2(2) [OF r [symmetric] Inr] 2(3) r s l show ?thesis by simp
  qed
qed simp

lemma lex_deny_keeps:
  "\<lbrakk>sys {} no_debt w; lex_self self w; lex_deny E reason self w = Some r\<rbrakk> \<Longrightarrow> lex_keeps self r"
  unfolding lex_deny_def by (rule lex_write_keeps)

lemma lex_handle_bootstrap_req_keeps:
  assumes "sys {} no_debt w" and "lex_self self w" and "le_next_state self = NsNone"
    and "w_token_counter w < 2 ^ 64" and "lex_handle_bootstrap_req E u nh ext self w = Some r"
  shows "lex_keeps self r"
proof -
  let ?w = "lex_try_update_crust_config w"
  have u: "sys {} no_debt ?w" "lex_self self ?w" "w_token_counter ?w < 2 ^ 64"
    using assms(1,2,4) by simp_all
  note k = lex_deny_keeps [OF assms(1,2)] lex_deny_keeps [OF u(1,2)]
    lex_grant_keeps [OF u(1,2) assms(3) u(3)]
  show ?thesis
  proof (cases "lex_is_valid_name_hash nh self \<and> (\<exists>ls. ext = Required ls) \<and>
      lex_is_peer_whitelisted Node self ?w \<and> le_require_reachability self")
    case True
    then obtain ls where ls: "ext = Required ls" by blast
    obtain self1 w1 where c: "lex_check_all (filter (\<lambda>a. ip_addr_is_global (sa_ip a)) ls) u self ?w = (self1, w1)"
      by fastforce
    note ok = lex_check_all_ok [OF c u(1,2)]
    have "lex_keeps self1 r"
      using assms(5) True ls c lex_deny_keeps [of w1 self1] lex_keeps_stay [of w1 self1] ok
      by (auto simp: lex_handle_bootstrap_req_def Let_def split: if_splits)
    with ok show ?thesis by (simp add: lex_keeps_def)
  next
    case False
    with assms(5) k show ?thesis
      by (auto simp: lex_handle_bootstrap_req_def Let_def split: if_splits external_reachability.splits)
  qed
qed

lemma lex_handle_connect_keeps:
  assumes "sys {} no_debt w" and "lex_self self w" and "le_next_state self = NsNone"
    and "w_token_counter w < 2 ^ 64" and "lex_handle_connect E u nh self w = Some r"
  shows "lex_keeps self r"
proof -
  let ?w = "lex_try_update_crust_config w"
  have u: "sys {} no_debt ?w" "lex_self self ?w" "w_token_counter ?w < 2 ^ 64"
    using assms(1,2,4) by simp_all
  note t = lex_take_peer [OF u(1,2) assms(3) u(3), of "NsConnectionCandidate u" u, simplified]
  show ?thesis
    using assms(5) lex_write_keeps [OF t] lex_terminate_keeps [OF assms(1,2)] lex_terminate_keeps [OF u(1,2)]
    by (auto simp: lex_handle_connect_def lex_enter_handshaking_mode_def Let_def split: if_splits)
qed

lemma lex_handle_echo_keeps:
  assumes "sys {} no_debt w" and "lex_self self w" and "le_next_state self = NsNone"
    and "lex_handle_echo_addr_req E self w = Some r"
  shows "lex_keeps self r"
proof -
  let ?s = "self\<lparr>le_next_state := NsNone\<rparr>"
  have self: "?s = self" using assms(3) by simp
  have p: "sys {} no_debt (put_state (StListenEx self) w)" "lex_self self (put_state (StListenEx self) w)"
  proof -
    show "sys {} no_debt (put_state (StListenEx self) w)"
      by (rule sys_put [OF assms(1)]) (use assms(2) in \<open>auto simp: lex_self_def active_of_def\<close>)
    show "lex_self self (put_state (StListenEx self) w)"
      using assms(2) by (auto simp: lex_self_def w_states_put)
  qed
  show ?thesis
    using assms(4) lex_write_keeps [OF p] lex_terminate_keeps [OF p]
    by (auto simp: lex_handle_echo_addr_req_def self Let_def split: sum.splits)
qed

lemma lex_read_keeps:
  assumes "sys {} no_debt w" and "lex_self self w" and "le_next_state self = NsNone"
    and "w_token_counter w < 2 ^ 64" and "lex_read E self w = Some r"
  shows "lex_keeps self r"
proof -
  obtain res so where s: "socket_read (e_des E) (le_socket self) = (res, so)" by fastforce
  let ?s = "self\<lparr>le_socket := so\<rparr>"
  have self: "lex_self ?s w" "le_next_state ?s = NsNone" using assms(2,3) by simp_all
  note k = lex_terminate_keeps [OF assms(1) self(1)] lex_keeps_stay [OF assms(1) self(1)]
    lex_handle_bootstrap_req_keeps [OF assms(1) self assms(4)] lex_handle_connect_keeps [OF assms(1) self assms(4)]
    lex_handle_echo_keeps [OF assms(1) self]
  have "lex_terminate ?s w = Some r \<or> r = (?s, w) \<or> lex_handle_echo_addr_req E ?s w = Some r \<or>
      (\<exists>u nh. lex_handle_connect E u nh ?s w = Some r) \<or>
      (\<exists>u nh ext. lex_handle_bootstrap_req E u nh ext ?s w = Some r)"
    using assms(5) s
    by (auto simp: lex_read_def Let_def split: sum.splits option.splits message.splits if_splits)
  with k have "lex_keeps ?s r" by blast
  then show ?thesis by simp
qed

text \<open>One kind of readiness per event, and no further message once the next state is decided.\<close>

lemma lex_ready_keeps:
  assumes "sys {} no_debt w" and "lex_self self w" and "lex_ready E kind self w = Some r"
    and "w_token_counter w < 2 ^ 64"
    and "is_error kind \<or> is_hup kind \<or> \<not> is_readable kind \<or>
      (\<not> is_writable kind \<and> le_next_state self = NsNone)"
  shows "lex_keeps self r"
  using assms(3,5) lex_terminate_keeps [OF assms(1,2)] lex_write_keeps [OF assms(1,2)]
    lex_read_keeps [OF assms(1,2) _ assms(4)] lex_keeps_stay [OF assms(1,2)]
  by (auto simp: lex_ready_def split: if_splits bind_splits)

lemma lex_check_result_keeps:
  assumes "sys {} no_debt w" and "lex_self self w" and "le_next_state self = NsNone"
    and "w_token_counter w < 2 ^ 64" and "lex_handle_check_reachability E child res self w = Some r"
  shows "lex_keeps self r"
proof -
  let ?s = "self\<lparr>le_children := hs_remove child (le_children self)\<rparr>"
  have self: "lex_self ?s w" using assms(2) by simp
  show ?thesis
  proof (cases res)
    case (Inl e)
    with assms(5) lex_deny_keeps [OF assms(1) self] lex_keeps_stay [OF assms(1) self] show ?thesis
      by (auto simp: lex_handle_check_reachability_def Let_def split: if_splits)
  next
    case (Inr u)
    with assms(5) obtain s1 w1 where t: "lex_terminate_childern ?s w = Some (s1, w1)"
      and g: "lex_send_bootstrap_grant E u Node s1 w1 = Some r"
      by (auto simp: lex_handle_check_reachability_def Let_def split: bind_splits)
    note k = lex_terminate_childern_ok [OF assms(1) self t]
    have "lex_keeps s1 r"
      by (rule lex_grant_keeps [OF _ _ _ _ g]) (use k assms(3,4) in auto)
    with k show ?thesis by simp
  qed
qed

lemma sys_lex_put [acct]:
  assumes "lex_keeps self r"
  shows "sys {} no_debt (put_state (StListenEx (fst r)) (snd r))"
proof (rule sys_put)
  show "sys {} no_debt (snd r)"
    using assms by (simp add: lex_keeps_def)
  fix s'
  assume s': "w_states (snd r) (state_token (StListenEx (fst r))) = Some s'"
    "kind_of s' = kind_of (StListenEx (fst r))"
  then obtain c where "s' = StListenEx c" by (cases s') auto
  with assms s' show "counted (StListenEx (fst r)) = counted s' \<and> child_of (StListenEx (fst r)) = child_of s' \<and>
      (\<forall>u. active_of u (Some s') \<longrightarrow> active_of u (Some (StListenEx (fst r))))"
    by (auto simp: lex_keeps_def active_of_def)
qed simp

lemma sys_lex_start [acct]:
  assumes "sys P d w" and "lex_start tmo so ab our nh w = (r, w')"
  shows "sys P d w' \<and> w_token_counter w' = Suc (w_token_counter w)"
proof -
  let ?t = "w_token_counter w"
  obtain w1 where t: "get_new_token w = (?t, w1)" by (simp add: get_new_token_def)
  note T = get_new_token_eqD [OF t]
  have s1: "sys P d w1" using sys_frame(3) [OF assms(1)] t by simp
  have none: "w_states w ?t = None"
    using acctD(6) [OF sysD(1) [OF assms(1)]] by (metis less_irrefl not_None_eq)
  have np: "?t \<notin> set (cn_children c)" if "w_states w p = Some (StConnect c)" for p c
    using linksD(3) [OF sysD(2) [OF assms(1)] that] by auto
  have ins: "sys P d (insert_state ?t (StListenEx c) w2)"
    if "le_token c = ?t" "le_next_state c = NsNone" "set_timeout ms ct w1 = (tr, w2)" for c w2 ms ct tr
  proof -
    have s2: "sys P d w2" using sys_frame(4) [OF s1] that(3) by (metis snd_conv)
    show ?thesis
      by (rule sys_insert)
        (use that none np T set_timeout_eqD [OF that(3)] s2 acctD(9) [OF sysD(1) [OF assms(1)]] in auto)
  qed
  have "sys P d w2" if "set_timeout ms ct w1 = (tr, w2)" for w2 ms ct tr
    using sys_frame(4) [OF s1] that by (metis snd_conv)
  then show ?thesis
    using assms(2) s1 ins T
    by (auto simp: lex_start_def t Let_def split: sum.splits option.splits prod.splits
        dest: set_timeout_eqD)
qed

section \<open>Events of a reachability check\<close>

lemma sys_reach_fin:
  assumes "sys {} no_debt w" and "w_token_counter w < 2 ^ 64"
    and "\<And>c. w_states w (cr_parent child) = Some (StListenEx c) \<Longrightarrow> le_next_state c = NsNone"
    and "lex_reach_fin E child res w = Some w'"
  shows "sys {} no_debt w'"
proof (cases "\<exists>c. w_states w (cr_parent child) = Some (StListenEx c)")
  case True
  then obtain c where c: "w_states w (cr_parent child) = Some (StListenEx c)" by blast
  have "le_token c = cr_parent child"
    using acctD(5) [OF sysD(1) [OF assms(1)] c] by simp
  with c have self: "lex_self c w" by (simp add: lex_self_def)
  from assms(4) c obtain r where "lex_handle_check_reachability E (cr_token child) res c w = Some r"
    "w' = put_state (StListenEx (fst r)) (snd r)"
    by (auto simp: lex_reach_fin_def get_state_def split: bind_splits)
  with sys_lex_put [OF lex_check_result_keeps [OF assms(1) self assms(3) [OF c] assms(2)]] show ?thesis
    by blast
next
  case False
  with assms(1,4) show ?thesis
    by (auto simp: lex_reach_fin_def get_state_def split: option.splits state.splits)
qed

lemma sys_reach_event:
  assumes "sys {} no_debt w" and "w_states w t = Some (StReach self)" and "w_token_counter w < 2 ^ 64"
    and "\<And>c. w_states w (cr_parent self) = Some (StListenEx c) \<Longrightarrow> le_next_state c = NsNone"
    and "reach_ready (lex_reach_fin E) kind self w = Some r \<or> reach_timeout (lex_reach_fin E) self w = Some r"
  shows "sys {} no_debt (put_state (StReach (fst r)) (snd r))"
proof (rule sys_put_plain)
  have "cr_token self = t"
    using acctD(5) [OF sysD(1) [OF assms(1)] assms(2)] by simp
  then have st: "sys {} no_debt (snd (reach_terminate self w))"
    using sys_reach_terminate [OF assms(1)] assms(2) by simp
  from assms(5) obtain res where
    "lex_reach_fin E (fst (reach_terminate self w)) res (snd (reach_terminate self w)) = Some (snd r)"
    by (auto simp: reach_ready_def reach_timeout_def reach_handle_error_def reach_handle_success_def
        Let_def case_prod_beta split: if_splits bind_splits)
  then show "sys {} no_debt (snd r)"
    by (rule sys_reach_fin [OF st, rotated 2]) (use assms(3,4) in \<open>auto split: if_splits\<close>)
qed simp

end
