(* ===== verification/IfAddrs.thy ===== *)
theory IfAddrs
  imports Net_Addr
begin

text \<open>
  \<open>src/common/get_if_addrs.rs\<close>: the network interfaces of the host. The lists that the operating
  system hands out behind pointers are lists here, a pointer to a socket address is an option
  (\<open>None\<close> is null), and the outcome of the system call is an argument. On Windows the netmask is
  computed by comparing an address with the prefixes of its adapter.
\<close>

unbundle bit_operations_syntax

section \<open>Interfaces\<close>

record ifv4_addr =
  if4_ip :: ipv4_addr
  if4_netmask :: ipv4_addr
  if4_broadcast :: "ipv4_addr option"

record ifv6_addr =
  if6_ip :: ipv6_addr
  if6_netmask :: ipv6_addr
  if6_broadcast :: "ipv6_addr option"

datatype if_addr = IfV4 ifv4_addr | IfV6 ifv6_addr

record network_interface =
  if_name :: string
  if_addr :: if_addr

fun if_addr_ip :: "if_addr \<Rightarrow> ip_addr" where
  "if_addr_ip (IfV4 a) = V4 (if4_ip a)"
| "if_addr_ip (IfV6 a) = V6 (if6_ip a)"

definition if_is_loopback :: "network_interface \<Rightarrow> bool" where
  "if_is_loopback i =
     (case if_addr i of
        IfV4 a \<Rightarrow> ipv4_octets (if4_ip a) ! 0 = 127
      | IfV6 a \<Rightarrow> ipv6_segments (if6_ip a) = [0, 0, 0, 0, 0, 0, 0, 1])"

text \<open>A socket address of the system: IPv4 in the 32 bits of \<open>s_addr\<close>, IPv6 as 16 bytes.\<close>

datatype sockaddr = SockaddrIn u32 | SockaddrIn6 "byte list" | SockaddrOther

definition octets_of_s_addr :: "u32 \<Rightarrow> ipv4_addr" where
  "octets_of_s_addr a =
     Ipv4Addr (ucast (a AND 255)) (ucast (drop_bit 8 a AND 255)) (ucast (drop_bit 16 a AND 255))
       (ucast (drop_bit 24 a AND 255))"

definition segment_at :: "byte list \<Rightarrow> nat \<Rightarrow> u16" where
  "segment_at bs n = push_bit 8 (ucast (bs ! n) AND 255) OR ucast (bs ! Suc n)"

definition segments_of_s6_addr :: "byte list \<Rightarrow> ipv6_addr" where
  "segments_of_s6_addr bs =
     Ipv6Addr (segment_at bs 0) (segment_at bs 2) (segment_at bs 4) (segment_at bs 6)
       (segment_at bs 8) (segment_at bs 10) (segment_at bs 12) (segment_at bs 14)"

section \<open>POSIX\<close>

text \<open>Link-local IPv6 addresses are ignored.\<close>

definition sockaddr_to_ipaddr :: "sockaddr option \<Rightarrow> ip_addr option" where
  "sockaddr_to_ipaddr p =
     (case p of
        None \<Rightarrow> None
      | Some (SockaddrIn a) \<Rightarrow> Some (V4 (octets_of_s_addr a))
      | Some (SockaddrIn6 bs) \<Rightarrow>
          if bs ! 0 = 0xfe \<and> bs ! 1 = 0x80 then None else Some (V6 (segments_of_s6_addr bs))
      | Some SockaddrOther \<Rightarrow> None)"

text \<open>One entry of the list; \<open>ifa_ifu\<close> is the field \<open>ifa_ifu\<close> or \<open>ifa_dstaddr\<close>.\<close>

record posix_ifaddrs =
  ifa_name :: string
  ifa_flags :: u32
  ifa_addr :: "sockaddr option"
  ifa_netmask :: "sockaddr option"
  ifa_ifu :: "sockaddr option"

definition do_broadcast :: "posix_ifaddrs \<Rightarrow> ip_addr option" where
  "do_broadcast ifaddr = sockaddr_to_ipaddr (ifa_ifu ifaddr)"

definition posix_interface :: "posix_ifaddrs \<Rightarrow> network_interface option" where
  "posix_interface ifaddr =
     (if ifa_addr ifaddr = None then None
      else
        (case sockaddr_to_ipaddr (ifa_addr ifaddr) of
           None \<Rightarrow> None
         | Some (V4 ip) \<Rightarrow>
             (let netmask = (case sockaddr_to_ipaddr (ifa_netmask ifaddr) of
                    Some (V4 netmask) \<Rightarrow> netmask | _ \<Rightarrow> Ipv4Addr 0 0 0 0);
                  broadcast = (if ifa_flags ifaddr AND 2 \<noteq> 0 then
                    (case do_broadcast ifaddr of Some (V4 b) \<Rightarrow> Some b | _ \<Rightarrow> None) else None)
              in Some \<lparr>if_name = ifa_name ifaddr,
                       if_addr = IfV4 \<lparr>if4_ip = ip, if4_netmask = netmask, if4_broadcast = broadcast\<rparr>\<rparr>)
         | Some (V6 ip) \<Rightarrow>
             (let netmask = (case sockaddr_to_ipaddr (ifa_netmask ifaddr) of
                    Some (V6 netmask) \<Rightarrow> netmask | _ \<Rightarrow> Ipv6Addr 0 0 0 0 0 0 0 0);
                  broadcast = (if ifa_flags ifaddr AND 2 \<noteq> 0 then
                    (case do_broadcast ifaddr of Some (V6 b) \<Rightarrow> Some b | _ \<Rightarrow> None) else None)
              in Some \<lparr>if_name = ifa_name ifaddr,
                       if_addr = IfV6 \<lparr>if6_ip = ip, if6_netmask = netmask, if6_broadcast = broadcast\<rparr>\<rparr>)))"

definition get_if_addrs :: "io_error + posix_ifaddrs list \<Rightarrow> io_error + network_interface list" where
  "get_if_addrs answer = (case answer of Inl e \<Rightarrow> Inl e | Inr ifs \<Rightarrow> Inr (List.map_filter posix_interface ifs))"

section \<open>Windows\<close>

text \<open>The addresses 169.254.x.x are ignored as well.\<close>

definition win_sockaddr_to_ipaddr :: "sockaddr option \<Rightarrow> ip_addr option" where
  "win_sockaddr_to_ipaddr p =
     (case p of
        None \<Rightarrow> None
      | Some (SockaddrIn a) \<Rightarrow>
          if a AND 65535 = 0xfea9 then None else Some (V4 (octets_of_s_addr a))
      | Some (SockaddrIn6 bs) \<Rightarrow>
          if bs ! 0 = 0xfe \<and> bs ! 1 = 0x80 then None else Some (V6 (segments_of_s6_addr bs))
      | Some SockaddrOther \<Rightarrow> None)"

text \<open>
  The loop over the bits of one element of the netmask: \<open>None\<close> is the jump to the next prefix. It is
  the same for the bytes of an IPv4 address and for the segments of an IPv6 address.
\<close>

fun prefix_bits :: "nat \<Rightarrow> nat \<Rightarrow> 'w::len word \<Rightarrow> 'w word \<Rightarrow> nat list \<Rightarrow> 'w word \<Rightarrow> 'w word option" where
  "prefix_bits base plen x y [] netmask_elt = Some netmask_elt"
| "prefix_bits base plen x y (m # ms) netmask_elt =
     (if base + m > plen then Some netmask_elt
      else
        (let bit = push_bit m 1 in
         if x AND bit = y AND bit then prefix_bits base plen x y ms (netmask_elt OR bit) else None))"

text \<open>The loop over the elements, up to the one in which the prefix ends; the others stay 0.\<close>

fun prefix_mask :: "nat \<Rightarrow> nat \<Rightarrow> nat \<Rightarrow> 'w::len word list \<Rightarrow> 'w word list \<Rightarrow> 'w word list option" where
  "prefix_mask width plen n (x # xs) (y # ys) =
     do { e \<leftarrow> (if n < (plen + width - 1) div width then prefix_bits (n * width) plen x y [0..<width] 0
               else Some 0);
          es \<leftarrow> prefix_mask width plen (Suc n) xs ys;
          Some (e # es) }"
| "prefix_mask width plen n _ _ = Some []"

fun ipv4_of_octets :: "byte list \<Rightarrow> ipv4_addr" where
  "ipv4_of_octets [a, b, c, d] = Ipv4Addr a b c d"
| "ipv4_of_octets _ = Ipv4Addr 0 0 0 0"

fun ipv6_of_segments :: "u16 list \<Rightarrow> ipv6_addr" where
  "ipv6_of_segments [a, b, c, d, e, f, g, h] = Ipv6Addr a b c d e f g h"
| "ipv6_of_segments _ = Ipv6Addr 0 0 0 0 0 0 0 0"

fun find_prefix4 :: "ipv4_addr \<Rightarrow> (sockaddr option \<times> nat) list \<Rightarrow> ipv4_addr \<times> ipv4_addr option" where
  "find_prefix4 ip [] = (Ipv4Addr 0 0 0 0, None)"
| "find_prefix4 ip ((sa, plen) # ps) =
     (case win_sockaddr_to_ipaddr sa of
        Some (V4 a) \<Rightarrow>
          (case prefix_mask 8 plen 0 (ipv4_octets ip) (ipv4_octets a) of
             Some netmask \<Rightarrow>
               (ipv4_of_octets netmask,
                Some (ipv4_of_octets (map2 (\<lambda>x m. x OR NOT m) (ipv4_octets ip) netmask)))
           | None \<Rightarrow> find_prefix4 ip ps)
      | _ \<Rightarrow> find_prefix4 ip ps)"

fun find_prefix6 :: "ipv6_addr \<Rightarrow> (sockaddr option \<times> nat) list \<Rightarrow> ipv6_addr" where
  "find_prefix6 ip [] = Ipv6Addr 0 0 0 0 0 0 0 0"
| "find_prefix6 ip ((sa, plen) # ps) =
     (case win_sockaddr_to_ipaddr sa of
        Some (V6 a) \<Rightarrow>
          (case prefix_mask 16 plen 0 (ipv6_segments ip) (ipv6_segments a) of
             Some netmask \<Rightarrow> ipv6_of_segments netmask
           | None \<Rightarrow> find_prefix6 ip ps)
      | _ \<Rightarrow> find_prefix6 ip ps)"

record adapter =
  adapter_name :: string
  unicast_addresses :: "sockaddr option list"
  prefixes :: "(sockaddr option \<times> nat) list"

definition win_interface :: "adapter \<Rightarrow> sockaddr option \<Rightarrow> network_interface option" where
  "win_interface ad sa =
     (case win_sockaddr_to_ipaddr sa of
        None \<Rightarrow> None
      | Some (V4 ip) \<Rightarrow>
          (let (netmask, broadcast) = find_prefix4 ip (prefixes ad)
           in Some \<lparr>if_name = adapter_name ad,
                    if_addr = IfV4 \<lparr>if4_ip = ip, if4_netmask = netmask, if4_broadcast = broadcast\<rparr>\<rparr>)
      | Some (V6 ip) \<Rightarrow>
          Some \<lparr>if_name = adapter_name ad,
                if_addr = IfV6 \<lparr>if6_ip = ip, if6_netmask = find_prefix6 ip (prefixes ad), if6_broadcast = None\<rparr>\<rparr>)"

text \<open>
  The loop around \<open>GetAdaptersAddresses\<close> ends with the first answer that is not a buffer overflow;
  the list holds the answers of successive calls.
\<close>

datatype win_answer = Adapters "adapter list" | BufferOverflow | WinError io_error

fun win_query :: "win_answer list \<Rightarrow> (io_error + adapter list) option" where
  "win_query [] = None"
| "win_query (Adapters ads # _) = Some (Inr ads)"
| "win_query (BufferOverflow # as) = win_query as"
| "win_query (WinError e # _) = Some (Inl e)"

definition win_get_if_addrs :: "win_answer list \<Rightarrow> (io_error + network_interface list) option" where
  "win_get_if_addrs answers =
     map_option (map_sum id (\<lambda>ads. concat (map (\<lambda>ad. List.map_filter (win_interface ad) (unicast_addresses ad)) ads)))
       (win_query answers)"

end
