(* ===== verification/Mapped.thy ===== *)
theory Mapped
  imports Kids IfAddrs
begin

text \<open>
  \<open>src/nat/mapping_context.rs\<close> and \<open>src/nat/mapped_tcp_socket/mod.rs\<close>: a reusably bound socket whose
  external addresses are collected from gateways (threads of the igd crate that report through the
  message channel) and from peers (\<open>GetExtAddr\<close> children) for up to three seconds. The closure
  \<open>finish\<close> is the parameter \<open>fin\<close>.
\<close>

section \<open>The mapping context\<close>

text \<open>
  The interfaces are the result of \<open>get_if_addrs\<close> (theory \<open>IfAddrs\<close>); \<open>search\<close> is the search for a gateway, which runs in one
  thread per interface that is not the loopback.
\<close>

definition mapping_context_new ::
    "io_error + network_interface list \<Rightarrow> (ipv4_addr \<Rightarrow> gateway option) \<Rightarrow> nat_error + mapping_context" where
  "mapping_context_new ifs search =
     (case ifs of
        Inl e \<Rightarrow> Inl (NatIo e)
      | Inr ifs \<Rightarrow>
          (let ifv4s = List.map_filter (\<lambda>i. case if_addr i of IfV4 a \<Rightarrow> Some (if4_ip a) | IfV6 _ \<Rightarrow> None) ifs;
               ifv6s = List.map_filter (\<lambda>i. case if_addr i of IfV4 _ \<Rightarrow> None | IfV6 a \<Rightarrow> Some (if6_ip a)) ifs
           in Inr \<lparr>our_ifv4s = map (\<lambda>ip. (ip, if ipv4_is_loopback ip then None else search ip)) ifv4s,
                   our_ifv6s = ifv6s, peer_stuns = []\<rparr>))"

definition mapping_add_peer_stuns :: "socket_addr list \<Rightarrow> mapping_context \<Rightarrow> mapping_context" where
  "mapping_add_peer_stuns stun_addrs self =
     self\<lparr>peer_stuns := peer_stuns self @ filter (\<lambda>elt. ip_addr_is_global (sa_ip elt)) stun_addrs\<rparr>"

section \<open>The mapped socket\<close>

type_synonym 'u mapped_fin =
  "'u mapped_finish \<Rightarrow> tcp_builder \<Rightarrow> socket_addr list \<Rightarrow> 'u world \<Rightarrow> 'u world"

definition MAPPED_TIMEOUT_SEC :: nat where
  "MAPPED_TIMEOUT_SEC = 3"

definition mapped_terminate ::
    "'u mapped_fin \<Rightarrow> 'u mapped_socket \<Rightarrow> 'u world \<Rightarrow> ('u mapped_socket \<times> 'u world) option" where
  "mapped_terminate fin self w =
     do { w \<leftarrow> terminate_kids (mp_stun_children self) w;
          let self = self\<lparr>mp_stun_children := []\<rparr>;
          let w = remove_state (mp_token self) w;
          let w = cancel_timeout (mp_timeout self) w;
          so \<leftarrow> mp_socket self;
          let mapped_addrs = mp_mapped_addrs self;
          let self = self\<lparr>mp_socket := None, mp_mapped_addrs := []\<rparr>;
          finish \<leftarrow> mp_finish self;
          Some (self\<lparr>mp_finish := None\<rparr>, fin finish so mapped_addrs w) }"

text \<open>The end of the two response handlers.\<close>

definition mapped_maybe_terminate ::
    "'u mapped_fin \<Rightarrow> 'u mapped_socket \<Rightarrow> 'u world \<Rightarrow> ('u mapped_socket \<times> 'u world) option" where
  "mapped_maybe_terminate fin self w =
     (if mp_stun_children self = [] \<and> mp_igd_children self = 0 then mapped_terminate fin self w
      else Some (self, w))"

definition mapped_handle_stun_resp ::
    "'u mapped_fin \<Rightarrow> token \<Rightarrow> unit + socket_addr \<Rightarrow> 'u mapped_socket \<Rightarrow> 'u world
       \<Rightarrow> ('u mapped_socket \<times> 'u world) option" where
  "mapped_handle_stun_resp fin child res self w =
     (let self = self\<lparr>mp_stun_children := hs_remove child (mp_stun_children self)\<rparr>;
          self = (case res of
                    Inr our_ext_addr \<Rightarrow> self\<lparr>mp_mapped_addrs := mp_mapped_addrs self @ [our_ext_addr]\<rparr>
                  | Inl _ \<Rightarrow> self)
      in mapped_maybe_terminate fin self w)"

definition mapped_handle_igd_resp ::
    "'u mapped_fin \<Rightarrow> socket_addr \<Rightarrow> 'u mapped_socket \<Rightarrow> 'u world \<Rightarrow> ('u mapped_socket \<times> 'u world) option" where
  "mapped_handle_igd_resp fin our_ext_addr self w =
     (let self = self\<lparr>mp_igd_children := mp_igd_children self - 1\<rparr>;
          self = self\<lparr>mp_mapped_addrs := mp_mapped_addrs self @ [our_ext_addr]\<rparr>
      in mapped_maybe_terminate fin self w)"

definition mapped_timeout ::
    "'u mapped_fin \<Rightarrow> 'u mapped_socket \<Rightarrow> 'u world \<Rightarrow> ('u mapped_socket \<times> 'u world) option" where
  "mapped_timeout fin self w = mapped_terminate fin self w"

text \<open>The threads that \<open>start\<close> spawns, one per interface with a gateway.\<close>

definition igd_requests :: "token \<Rightarrow> u16 \<Rightarrow> mapping_context \<Rightarrow> (token \<times> gateway \<times> socket_addr) list" where
  "igd_requests tok port mc =
     List.map_filter (\<lambda>(ip, gateway).
       case gateway of
         None \<Rightarrow> None
       | Some g \<Rightarrow> Some (tok, g, \<lparr>sa_ip = V4 ip, sa_port = port\<rparr>)) (our_ifv4s mc)"

fun ask_stuns :: "socket_addr list \<Rightarrow> socket_addr \<Rightarrow> 'u mapped_socket \<Rightarrow> 'u world \<Rightarrow> 'u mapped_socket \<times> 'u world" where
  "ask_stuns [] addr self w = (self, w)"
| "ask_stuns (stun # stuns) addr self w =
     (case get_ext_start addr stun (mp_token self) w of
        (Inl e, w) \<Rightarrow> ask_stuns stuns addr self w
      | (Inr child, w) \<Rightarrow>
          ask_stuns stuns addr (self\<lparr>mp_stun_children := hs_insert child (mp_stun_children self)\<rparr>) w)"

definition mapped_start ::
    "'u mapped_fin \<Rightarrow> u16 \<Rightarrow> 'u mapped_finish \<Rightarrow> 'u world \<Rightarrow> ((nat_error + unit) \<times> 'u world) option" where
  "mapped_start fin port finish w =
     (let mc = w_mc w;
          (tok, w) = get_new_token w
      in
      case new_reusably_bound_tcp_socket \<lparr>sa_ip = V4 (Ipv4Addr 0 0 0 0), sa_port = port\<rparr> w of
        (Inl e, w) \<Rightarrow> Some (Inl (NatIo e), w)
      | (Inr so, w) \<Rightarrow>
          (case tb_local so of
             Inl e \<Rightarrow> Some (Inl (NatIo e), w)
           | Inr addr \<Rightarrow>
               (let igd = igd_requests tok (sa_port addr) mc;
                    w = w\<lparr>w_igd := w_igd w @ igd\<rparr>;
                    mapped_addrs = map (\<lambda>(ip, _). \<lparr>sa_ip = V4 ip, sa_port = sa_port addr\<rparr>) (our_ifv4s mc)
                in
                case set_timeout (MAPPED_TIMEOUT_SEC * 1000) (CoreTimer tok 0) w of
                  (Inl e, w) \<Rightarrow> Some (Inl (NatCommon e), w)
                | (Inr tm, w) \<Rightarrow>
                    (let self = \<lparr>mp_token = tok, mp_socket = Some so, mp_igd_children = of_nat (length igd),
                                 mp_stun_children = [], mp_mapped_addrs = mapped_addrs, mp_timeout = tm,
                                 mp_finish = Some finish\<rparr>;
                         (self, w) = ask_stuns (peer_stuns mc) addr self w
                     in
                     if mp_stun_children self = [] \<and> mp_igd_children self = 0 then
                       do { (self, w) \<leftarrow> mapped_terminate fin self w; Some (Inr (), w) }
                     else Some (Inr (), insert_state tok (StMapped self) w)))))"

text \<open>The closure that the children call.\<close>

definition mapped_stun_fin :: "'u mapped_fin \<Rightarrow> 'u get_ext_fin" where
  "mapped_stun_fin fin child res w =
     (case get_state (ge_parent child) w of
        Some (StMapped self) \<Rightarrow>
          do { (self, w) \<leftarrow> mapped_handle_stun_resp fin (ge_token child) res self w;
               Some (put_state (StMapped self) w) }
      | _ \<Rightarrow> Some w)"

section \<open>The contract of the closure\<close>

text \<open>It may send events, and put a state of its own under a reserved token.\<close>

locale mapped_finish_law =
  fixes fin :: "'u mapped_fin"
  assumes fin_sys: "sys {} no_debt w \<Longrightarrow> sys {} no_debt (fin finish so addrs w)"
    and fin_counter: "w_token_counter (fin finish so addrs w) = w_token_counter w"
    and fin_given: "given w t \<Longrightarrow> w_states (fin finish so addrs w) t = w_states w t"

lemma sys_unlisted_remove:
  assumes "sys {} no_debt w" and "\<And>s. w_states w t = Some s \<Longrightarrow> kind_of s = KMapped"
  shows "sys {} no_debt (remove_state t w)"
  by (rule sys_plain_remove [OF assms(1)]) (use assms(2) in \<open>auto simp: plain_def\<close>)

context mapped_finish_law
begin

lemma terminate_sys:
  assumes "sys {} no_debt w" and "mapped_terminate fin self w = Some (self', w')"
    and "\<And>s. w_states w (mp_token self) = Some s \<Longrightarrow> kind_of s = KMapped"
  shows "sys {} no_debt w' \<and> mp_token self' = mp_token self"
proof -
  from assms(2) obtain w1 so finish where k: "terminate_kids (mp_stun_children self) w = Some w1"
    "w' = fin finish so (mp_mapped_addrs self) (cancel_timeout (mp_timeout self) (remove_state (mp_token self) w1))"
    "mp_token self' = mp_token self"
    by (auto simp: mapped_terminate_def Let_def split: bind_splits)
  note ok = terminate_kids_ok [OF assms(1) k(1)]
  have "sys {} no_debt (remove_state (mp_token self) w1)"
    by (rule sys_unlisted_remove) (use ok assms(3) in \<open>auto split: if_splits\<close>)
  with k fin_sys show ?thesis by simp
qed

lemma maybe_terminate_sys:
  assumes "sys {} no_debt w" and "mapped_maybe_terminate fin self w = Some (self', w')"
    and "\<And>s. w_states w (mp_token self) = Some s \<Longrightarrow> kind_of s = KMapped"
  shows "sys {} no_debt w' \<and> mp_token self' = mp_token self"
  using terminate_sys [OF assms(1) _ assms(3)] assms(1,2)
  by (auto simp: mapped_maybe_terminate_def split: if_splits)

lemma mapped_event_sys:
  assumes "sys {} no_debt w" and "w_states w t = Some (StMapped self)"
    and "mapped_timeout fin self w = Some (self', w') \<or> mapped_handle_igd_resp fin a self w = Some (self', w')"
  shows "sys {} no_debt (put_state (StMapped self') w')"
proof (rule sys_put_plain)
  have t: "mp_token self = t"
    using acctD(5) [OF sysD(1) [OF assms(1)] assms(2)] by simp
  have "mp_token (self\<lparr>mp_igd_children := n, mp_mapped_addrs := as\<rparr>) = t" for n as
    using t by simp
  then show "sys {} no_debt w'"
    using assms(2,3) terminate_sys [OF assms(1), of self] t
      maybe_terminate_sys [OF assms(1), of "self\<lparr>mp_igd_children := mp_igd_children self - 1,
        mp_mapped_addrs := mp_mapped_addrs self @ [a]\<rparr>"]
    by (auto simp: mapped_timeout_def mapped_handle_igd_resp_def Let_def)
qed simp

lemma stun_fin_sys:
  assumes "sys {} no_debt w" and "mapped_stun_fin fin child res w = Some w'"
  shows "sys {} no_debt w'"
proof (cases "\<exists>self. w_states w (ge_parent child) = Some (StMapped self)")
  case True
  then obtain self where s: "w_states w (ge_parent child) = Some (StMapped self)" by blast
  have t: "mp_token self = ge_parent child"
    using acctD(5) [OF sysD(1) [OF assms(1)] s] by simp
  define self1 where "self1 = (case res of
      Inr a \<Rightarrow> self\<lparr>mp_stun_children := hs_remove (ge_token child) (mp_stun_children self),
        mp_mapped_addrs := mp_mapped_addrs self @ [a]\<rparr>
    | Inl _ \<Rightarrow> self\<lparr>mp_stun_children := hs_remove (ge_token child) (mp_stun_children self)\<rparr>)"
  have t1: "mp_token self1 = ge_parent child" using t by (simp add: self1_def split: sum.split)
  from assms(2) s obtain self2 w2 where "mapped_maybe_terminate fin self1 w = Some (self2, w2)"
    "w' = put_state (StMapped self2) w2"
    by (auto simp: mapped_stun_fin_def mapped_handle_stun_resp_def get_state_def self1_def Let_def
        split: bind_splits sum.splits)
  with maybe_terminate_sys [OF assms(1), of self1] s t1 show ?thesis
    by (auto intro: sys_put_plain)
next
  case False
  with assms show ?thesis
    by (auto simp: mapped_stun_fin_def get_state_def split: option.splits state.splits)
qed

lemma ask_stuns_sys:
  assumes "ask_stuns ss a self w = (self', w')" and "sys {} no_debt w"
  shows "sys {} no_debt w' \<and> mp_token self' = mp_token self \<and> w_token_counter w \<le> w_token_counter w' \<and>
    (\<forall>t. w_states w' t = w_states w t \<or>
       w_token_counter w \<le> t \<and> (\<exists>g. w_states w' t = Some (StGetExtAddr g)))"
  using assms
proof (induction ss a self w rule: ask_stuns.induct)
  case (2 stun stuns addr self w)
  obtain r w1 where g: "get_ext_start addr stun (mp_token self) w = (r, w1)" by fastforce
  note res = get_ext_start_result [OF g 2(4)]
  define self1 where "self1 = (case r of
      Inl e \<Rightarrow> self
    | Inr child \<Rightarrow> self\<lparr>mp_stun_children := hs_insert child (mp_stun_children self)\<rparr>)"
  have t1: "mp_token self1 = mp_token self" by (simp add: self1_def split: sum.split)
  have "sys {} no_debt w' \<and> mp_token self' = mp_token self1 \<and> w_token_counter w1 \<le> w_token_counter w' \<and>
    (\<forall>t. w_states w' t = w_states w1 t \<or>
       w_token_counter w1 \<le> t \<and> (\<exists>g. w_states w' t = Some (StGetExtAddr g)))"
    using 2(1) [OF g [symmetric]] 2(2) [OF g [symmetric]] 2(3) g res
    by (cases r) (auto simp: self1_def)
  then show ?case
    using get_ext_start_states [OF g] res t1 by (metis le_refl le_trans)
qed simp

lemma asked_sys:
  assumes "sys {} no_debt w" and "ask_stuns ss a self w4 = (self', w5)" and "mp_token self = w_token_counter w"
    and "sys {} no_debt w4 \<and> w_states w4 = w_states w \<and> w_token_counter w4 = Suc (w_token_counter w)"
  shows "sys {} no_debt (insert_state (w_token_counter w) (StMapped self') w5)"
    and "mapped_terminate fin self' w5 = Some (x, w6) \<Longrightarrow> sys {} no_debt w6"
proof -
  let ?t = "w_token_counter w"
  have none: "w_states w ?t = None"
    using acctD(6) [OF sysD(1) [OF assms(1)]] by (metis less_irrefl not_None_eq)
  have w5: "sys {} no_debt w5" "mp_token self' = ?t" "Suc ?t \<le> w_token_counter w5" "w_states w5 ?t = None"
    "\<And>p c. w_states w5 p = Some (StConnect c) \<Longrightarrow> w_states w p = Some (StConnect c)"
    using ask_stuns_sys [OF assms(2)] assms(3,4) none by (auto, metis Suc_n_not_le_n, metis option.inject state.distinct)
  have np: "?t \<notin> set (cn_children c)" if "w_states w5 p = Some (StConnect c)" for p c
    using linksD(3) [OF sysD(2) [OF assms(1)] w5(5) [OF that], of ?t] by auto
  show "sys {} no_debt (insert_state ?t (StMapped self') w5)"
    by (rule sys_insert) (use w5 np acctD(9) [OF sysD(1) [OF assms(1)]] in auto)
  show "sys {} no_debt w6" if "mapped_terminate fin self' w5 = Some (x, w6)"
    using terminate_sys [OF w5(1) that] w5(2,4) by simp
qed

lemma bound_sys:
  assumes "sys {} no_debt w" and "get_new_token w = (t, w1)" and "new_reusably_bound_tcp_socket a w1 = (br, w2)"
  shows "sys {} no_debt w2"
    and "set_timeout ms ct (w2\<lparr>w_igd := igd\<rparr>) = (tr, w4) \<Longrightarrow>
      sys {} no_debt w4 \<and> w_states w4 = w_states w \<and> w_token_counter w4 = Suc (w_token_counter w)"
proof -
  have "sys {} no_debt w1" using sys_frame(3) [OF assms(1)] assms(2) by simp
  then show s2: "sys {} no_debt w2" by (rule sys_quiet [OF new_reusably_bound_quiet [OF assms(3)]])
  have w2: "w_states w2 = w_states w" "w_token_counter w2 = Suc (w_token_counter w)"
    using new_reusably_bound_quiet [OF assms(3)] get_new_token_eqD [OF assms(2)] by (simp_all add: quiet_def)
  have s3: "sys {} no_debt (w2\<lparr>w_igd := igd\<rparr>)"
    by (rule sys_cong [OF _ _ _ _ s2]) simp_all
  show "sys {} no_debt w4 \<and> w_states w4 = w_states w \<and> w_token_counter w4 = Suc (w_token_counter w)"
    if "set_timeout ms ct (w2\<lparr>w_igd := igd\<rparr>) = (tr, w4)"
    using sys_frame(4) [OF s3, of ms ct] set_timeout_eqD [OF that] w2 that by simp
qed

lemma start_sys:
  assumes "sys {} no_debt w" and "mapped_start fin port finish w = Some (r, w')"
  shows "sys {} no_debt w'"
proof -
  let ?t = "w_token_counter w" and ?a = "\<lparr>sa_ip = V4 (Ipv4Addr 0 0 0 0), sa_port = port\<rparr>"
  obtain w1 where t: "get_new_token w = (?t, w1)" by (simp add: get_new_token_def)
  obtain br w2 where b: "new_reusably_bound_tcp_socket ?a w1 = (br, w2)" by fastforce
  note s2 = bound_sys(1) [OF assms(1) t b]
  show ?thesis
  proof (cases "\<exists>so addr. br = Inr so \<and> tb_local so = Inr addr")
    case False
    with assms(2) s2 show ?thesis
      by (auto simp: mapped_start_def t b Let_def split: sum.splits)
  next
    case True
    then obtain so addr where so: "br = Inr so" "tb_local so = Inr addr" by blast
    let ?igd = "igd_requests ?t (sa_port addr) (w_mc w)"
    obtain tr w4 where tm: "set_timeout (MAPPED_TIMEOUT_SEC * 1000) (CoreTimer ?t 0)
        (w2\<lparr>w_igd := w_igd w2 @ ?igd\<rparr>) = (tr, w4)" by fastforce
    note w4 = bound_sys(2) [OF assms(1) t b tm]
    let ?self = "\<lambda>tm. \<lparr>mp_token = ?t, mp_socket = Some so, mp_igd_children = of_nat (length ?igd),
      mp_stun_children = [],
      mp_mapped_addrs = map (\<lambda>(ip, _). \<lparr>sa_ip = V4 ip, sa_port = sa_port addr\<rparr>) (our_ifv4s (w_mc w)),
      mp_timeout = tm, mp_finish = Some finish\<rparr>"
    show ?thesis
    proof (cases tr)
      case (Inl e)
      with assms(2) so tm w4 show ?thesis by (simp add: mapped_start_def t b Let_def)
    next
      case (Inr x)
      obtain self' w5 where k: "ask_stuns (peer_stuns (w_mc w)) addr (?self x) w4 = (self', w5)" by fastforce
      have "(\<exists>y. mapped_terminate fin self' w5 = Some (y, w')) \<or> w' = insert_state ?t (StMapped self') w5"
        using assms(2) so tm Inr k
        by (simp add: mapped_start_def t b Let_def split: if_splits bind_splits) (auto split: bind_splits)
      with asked_sys [OF assms(1) k _ w4] show ?thesis by auto
    qed
  qed
qed

lemma get_ext_ready_sys:
  assumes "sys {} no_debt w" and "w_states w t = Some (StGetExtAddr self)"
    and "get_ext_ready E (mapped_stun_fin fin) kind self w = Some r"
    and "\<not> (is_readable kind \<and> is_writable kind) \<or> is_error kind \<or> is_hup kind"
  shows "sys {} no_debt (put_state (StGetExtAddr (fst r)) (snd r))"
proof (rule sys_put_plain)
  have t: "ge_token self = t" using acctD(5) [OF sysD(1) [OF assms(1)] assms(2)] by simp
  have s1: "sys {} no_debt (snd (get_ext_terminate s w))" if "ge_token s = t" for s
    using sys_plain_remove [OF assms(1), of t] that assms(2) by (simp add: get_ext_terminate_def Let_def)
  have fin: "sys {} no_debt w2"
    if "mapped_stun_fin fin c res (snd (get_ext_terminate s w)) = Some w2" "ge_token s = t" for c res s w2
    using stun_fin_sys [OF s1 that(1)] that(2) by simp
  have err: "sys {} no_debt (snd r')"
    if "get_ext_handle_error (mapped_stun_fin fin) s w = Some r'" "ge_token s = t" for s r'
    using that fin [OF _ that(2)]
    by (auto simp: get_ext_handle_error_def Let_def case_prod_beta split: bind_splits)
  have rd: "sys {} no_debt (snd r')" if rr: "get_ext_receive_response E (mapped_stun_fin fin) self w = Some r'" for r'
  proof -
    obtain res so where so: "socket_read (e_des E) (ge_socket self) = (res, so)" by fastforce
    let ?s = "self\<lparr>ge_socket := so\<rparr>"
    have "get_ext_handle_error (mapped_stun_fin fin) ?s w = Some r' \<or> r' = (?s, w) \<or>
        (\<exists>a. mapped_stun_fin fin (fst (get_ext_terminate ?s w)) (Inr a) (snd (get_ext_terminate ?s w)) = Some (snd r'))"
      using rr so
      by (auto simp: get_ext_receive_response_def Let_def case_prod_beta
          split: sum.splits option.splits message.splits bind_splits)
    then show ?thesis
      using err [of ?s r'] fin [of _ _ ?s "snd r'"] t assms(1) by auto
  qed
  have wr: "sys {} no_debt (snd r')"
    if "get_ext_write E (mapped_stun_fin fin) m (self\<lparr>ge_request := None\<rparr>) w = Some r'" for m r'
    using that assms(1) t err [of "self\<lparr>ge_request := None, ge_socket := so\<rparr>" r' for so]
    by (auto simp: get_ext_write_def Let_def split: bind_splits sum.splits)
  show "sys {} no_debt (snd r)"
    using assms(1,3,4) rd wr err [of self] t
    by (auto simp: get_ext_ready_def split: if_splits bind_splits)
qed simp

end

end
