(* ===== verification/Listener.thy ===== *)
theory Listener
  imports ListenEx Mapped
begin

text \<open>
  \<open>src/main/connection_listener/mod.rs\<close>: maps a socket, listens on it and starts a message exchange
  for every connection it accepts. Its closure for the mapped socket, and that of
  \<open>Service::prepare_connection_info\<close>, are the interpretation of the closures of \<open>Mapped\<close>. The token
  argument of \<open>start\<close> is \<open>LISTENER_TOKEN\<close>, which its only caller passes.
\<close>

section \<open>Operations\<close>

text \<open>The addresses that the closure passes on: with the port forced into them if none has it.\<close>

definition listener_addrs :: "u16 \<Rightarrow> bool \<Rightarrow> socket_addr list \<Rightarrow> socket_addr list" where
  "listener_addrs port force_include_port mapped_addrs =
     (if force_include_port \<and> port \<noteq> 0 \<and>
         \<not> list_ex (\<lambda>s. ip_addr_is_global (sa_ip s) \<and> sa_port s = port) mapped_addrs
      then mapped_addrs @
        List.map_filter (\<lambda>s. if ip_addr_is_global (sa_ip s) then Some (set_port port s) else None) mapped_addrs
      else mapped_addrs)"

definition listener_handle_mapped_socket ::
    "nat option \<Rightarrow> tcp_builder \<Rightarrow> socket_addr list \<Rightarrow> 'u \<Rightarrow> name_hash \<Rightarrow> 'u world
       \<Rightarrow> (crust_error + unit) \<times> 'u world" where
  "listener_handle_mapped_socket timeout_sec so mapped_addrs our_uid nh w =
     (case tb_listen so of
        Inl e \<Rightarrow> (Inl (CrustIo e), w)
      | Inr l \<Rightarrow>
          (case tb_local so of
             Inl e \<Rightarrow> (Inl (CrustIo e), w)
           | Inr local_addr \<Rightarrow>
               (case tb_from_listener so of
                  Some e \<Rightarrow> (Inl (CrustIo e), w)
                | None \<Rightarrow>
                    (case tl_register LISTENER_TOKEN ready_erh l of
                       (Some e, l) \<Rightarrow> (Inl (CrustIo e), w)
                     | (None, l) \<Rightarrow>
                         (let w = w\<lparr>w_our_listeners := mapped_addrs\<rparr>;
                              w = insert_state LISTENER_TOKEN (StListener \<lparr>cl_token = LISTENER_TOKEN,
                                    cl_listener = l, cl_name_hash = nh, cl_our_uid = our_uid,
                                    cl_timeout_sec = timeout_sec, cl_accept_bootstrap = False\<rparr>) w
                          in (Inr (), send_event (ListenerStarted (sa_port local_addr)) w))))))"

text \<open>The closures: the listener's, and the one that reports connection information.\<close>

definition listener_finish ::
    "nat option \<Rightarrow> u16 \<Rightarrow> bool \<Rightarrow> 'u \<Rightarrow> name_hash \<Rightarrow> tcp_builder \<Rightarrow> socket_addr list \<Rightarrow> 'u world \<Rightarrow> 'u world" where
  "listener_finish timeout_sec port force_include_port our_uid nh so mapped_addrs w =
     (case listener_handle_mapped_socket timeout_sec so
             (listener_addrs port force_include_port mapped_addrs) our_uid nh w of
        (Inr _, w) \<Rightarrow> w
      | (Inl e, w) \<Rightarrow> send_event ListenerFailed w)"

definition conn_info_finish ::
    "u32 \<Rightarrow> 'u \<Rightarrow> socket_addr list \<Rightarrow> tcp_builder \<Rightarrow> socket_addr list \<Rightarrow> 'u world \<Rightarrow> 'u world" where
  "conn_info_finish rtok our_uid listeners so addrs w =
     send_event (ConnectionInfoPrepared \<lparr>result_token = rtok,
       conn_info_result = Inr \<lparr>priv_id = our_uid, priv_for_direct = listeners,
         priv_for_hole_punch = filter (\<lambda>elt. ip_addr_is_global (sa_ip elt)) addrs,
         priv_hole_punch_socket = Some so\<rparr>\<rparr>) w"

definition mapped_fin :: "'u mapped_fin" where
  "mapped_fin finish so addrs w =
     (case finish of
        MfListener timeout_sec port force our_uid nh \<Rightarrow> listener_finish timeout_sec port force our_uid nh so addrs w
      | MfConnInfo rtok our_uid listeners \<Rightarrow> conn_info_finish rtok our_uid listeners so addrs w)"

definition listener_start ::
    "nat option \<Rightarrow> u16 \<Rightarrow> bool \<Rightarrow> 'u \<Rightarrow> name_hash \<Rightarrow> 'u world \<Rightarrow> 'u world option" where
  "listener_start handshake_timeout_sec port force_include_port our_uid nh w =
     do { (res, w) \<leftarrow> mapped_start mapped_fin port
            (MfListener handshake_timeout_sec port force_include_port our_uid nh) w;
          Some (case res of Inl e \<Rightarrow> send_event ListenerFailed w | Inr _ \<Rightarrow> w) }"

definition listener_set_accept_bootstrap :: "bool \<Rightarrow> 'u conn_listener \<Rightarrow> 'u conn_listener" where
  "listener_set_accept_bootstrap accept self = self\<lparr>cl_accept_bootstrap := accept\<rparr>"

definition listener_terminate :: "'u conn_listener \<Rightarrow> 'u world \<Rightarrow> 'u conn_listener \<times> 'u world" where
  "listener_terminate self w =
     (self\<lparr>cl_listener := tl_deregister (cl_listener self)\<rparr>, remove_state (cl_token self) w)"

text \<open>The loop of \<open>accept\<close> ends when the kernel has no more connections or reports an error.\<close>

function listener_accept :: "'u conn_listener \<Rightarrow> 'u world \<Rightarrow> 'u conn_listener \<times> 'u world" where
  "listener_accept self w =
     (case tl_accept (cl_listener self) of
        (Inr st, l) \<Rightarrow>
          (case lex_start (cl_timeout_sec self) (socket_wrap st) (cl_accept_bootstrap self) (cl_our_uid self)
                  (cl_name_hash self) w of
             (res, w) \<Rightarrow> listener_accept (self\<lparr>cl_listener := l\<rparr>) w)
      | (Inl e, l) \<Rightarrow> (self\<lparr>cl_listener := l\<rparr>, w))"
  by pat_completeness auto

termination listener_accept
  by (relation "measure (\<lambda>(self, w). length (tl_accepts (cl_listener self)))")
    (auto dest: tl_accept_shorter [OF sym])

declare listener_accept.simps [simp del]

definition listener_ready :: "ready \<Rightarrow> 'u conn_listener \<Rightarrow> 'u world \<Rightarrow> 'u conn_listener \<times> 'u world" where
  "listener_ready kind self w =
     (if is_error kind \<or> is_hup kind then
        (case listener_terminate self w of (self, w) \<Rightarrow> (self, send_event ListenerFailed w))
      else if is_readable kind then listener_accept self w
      else (self, w))"

section \<open>Accounting\<close>

interpretation mapping: mapped_finish_law mapped_fin
proof
  fix w :: "'u world" and finish so addrs
  have *: "sys {} no_debt (insert_state LISTENER_TOKEN (StListener x) (w\<lparr>w_our_listeners := as\<rparr>))"
    if "sys {} no_debt w" "cl_token x = LISTENER_TOKEN" for x as
    by (rule sys_insert_reserved)
      (use that sys_cong [OF _ _ _ _ that(1), of "w\<lparr>w_our_listeners := as\<rparr>"] in
        \<open>simp_all add: LISTENER_TOKEN_def FIRST_TOKEN_def reserved_def\<close>)
  show "sys {} no_debt (mapped_fin finish so addrs w)" if "sys {} no_debt w"
    using that * by (simp add: mapped_fin_def listener_finish_def conn_info_finish_def
        listener_handle_mapped_socket_def Let_def split: mapped_finish.split sum.split option.split prod.split)
  show "w_token_counter (mapped_fin finish so addrs w) = w_token_counter w"
    by (simp add: mapped_fin_def listener_finish_def conn_info_finish_def
        listener_handle_mapped_socket_def Let_def split: mapped_finish.split sum.split option.split prod.split)
  show "w_states (mapped_fin finish so addrs w) t = w_states w t" if "given w t" for t
    using that by (simp add: mapped_fin_def listener_finish_def conn_info_finish_def LISTENER_TOKEN_def
        FIRST_TOKEN_def listener_handle_mapped_socket_def Let_def
        split: mapped_finish.split sum.split option.split prod.split)
qed

lemma sys_listener_start [acct]:
  assumes "sys {} no_debt w" and "listener_start tmo port force our nh w = Some w'"
  shows "sys {} no_debt w'"
proof -
  obtain r w1 where m: "mapped_start mapped_fin port (MfListener tmo port force our nh) w = Some (r, w1)"
    and w': "w' = (case r of Inl e \<Rightarrow> send_event ListenerFailed w1 | Inr _ \<Rightarrow> w1)"
    using assms(2) by (auto simp: listener_start_def split: bind_splits)
  from mapping.start_sys [OF assms(1) m] show ?thesis
    by (simp add: w' split: sum.split)
qed

lemma sys_listener_accept:
  assumes "sys P d w"
  shows "sys P d (snd (listener_accept self w))"
  using assms
proof (induction self w rule: listener_accept.induct)
  case (1 self w)
  obtain r l where a: "tl_accept (cl_listener self) = (r, l)" by fastforce
  show ?case
  proof (cases r)
    case (Inl e)
    with a 1(2) show ?thesis by (subst listener_accept.simps) simp
  next
    case (Inr st)
    obtain x w1 where x: "lex_start (cl_timeout_sec self) (socket_wrap st) (cl_accept_bootstrap self)
        (cl_our_uid self) (cl_name_hash self) w = (x, w1)" by fastforce
    have "sys P d w1" using sys_lex_start [OF 1(2) x] by simp
    from 1(1) [OF a [symmetric] Inr x [symmetric] this] a x Inr show ?thesis
      by (subst listener_accept.simps) simp
  qed
qed

lemma sys_listener_ready [acct]:
  assumes "sys {} no_debt w" and "w_states w t = Some (StListener self)"
  shows "sys {} no_debt (put_state (StListener (fst (listener_ready kind self w))) (snd (listener_ready kind self w)))"
proof (rule sys_put_plain)
  have t: "cl_token self = t"
    using acctD(5) [OF sysD(1) [OF assms(1)] assms(2)] by simp
  show "sys {} no_debt (snd (listener_ready kind self w))"
    using sys_plain_remove [OF assms(1), of t] sys_listener_accept [OF assms(1), of self] assms t
    by (simp add: listener_ready_def listener_terminate_def)
qed simp

text \<open>Every accepted connection gets a token of its own.\<close>

lemma listener_accept_counter: "w_token_counter w \<le> w_token_counter (snd (listener_accept self w))"
proof (induction self w rule: listener_accept.induct)
  case (1 self w)
  obtain r l where a: "tl_accept (cl_listener self) = (r, l)" by fastforce
  show ?case
  proof (cases r)
    case (Inl e)
    with a show ?thesis by (subst listener_accept.simps) simp
  next
    case (Inr st)
    obtain x w1 where x: "lex_start (cl_timeout_sec self) (socket_wrap st) (cl_accept_bootstrap self)
        (cl_our_uid self) (cl_name_hash self) w = (x, w1)" by fastforce
    have "w_token_counter w \<le> w_token_counter w1"
      using x by (auto simp: lex_start_def Let_def get_new_token_def split: sum.splits option.splits prod.splits
          dest!: set_timeout_eqD)
    with 1(1) [OF a [symmetric] Inr x [symmetric]] a x Inr show ?thesis
      by (subst listener_accept.simps) simp
  qed
qed

end
