(* ===== verification/ServiceDisc.thy ===== *)
theory ServiceDisc
  imports Reach
begin

text \<open>
  \<open>src/service_discovery/mod.rs\<close>: discovery of peers on the local network by UDP broadcast.
  Observers are the sending ends of channels; a channel exists while its receiver does.
\<close>

section \<open>The UDP socket and the observers' channels\<close>

definition us_recv_from :: "udp_socket \<Rightarrow> (io_error + (byte list \<times> socket_addr) option) \<times> udp_socket" where
  "us_recv_from s = (case pop_answer (Inr None) (us_rx s) of (r, rest) \<Rightarrow> (r, s\<lparr>us_rx := rest\<rparr>))"

definition us_send_to ::
    "byte list \<Rightarrow> socket_addr \<Rightarrow> udp_socket \<Rightarrow> (io_error + nat option) \<times> udp_socket" where
  "us_send_to bytes a s =
     (case pop_answer (Inr (Some (length bytes))) (us_tx s) of
        (Inr (Some n), r) \<Rightarrow> (Inr (Some n), s\<lparr>us_tx := r, us_sent := us_sent s @ [(bytes, a)]\<rparr>)
      | (res, r) \<Rightarrow> (res, s\<lparr>us_tx := r\<rparr>))"

definition us_register :: "token \<Rightarrow> ready \<Rightarrow> udp_socket \<Rightarrow> io_error option \<times> udp_socket" where
  "us_register tok kind s =
     (case pop_answer None (us_poll s) of
        (None, r) \<Rightarrow> (None, s\<lparr>us_poll := r, us_reg := Some (tok, kind)\<rparr>)
      | (Some e, r) \<Rightarrow> (Some e, s\<lparr>us_poll := r\<rparr>))"

definition us_deregister :: "udp_socket \<Rightarrow> udp_socket" where
  "us_deregister s =
     (case pop_answer None (us_poll s) of
        (None, r) \<Rightarrow> s\<lparr>us_poll := r, us_reg := None\<rparr>
      | (Some e, r) \<Rightarrow> s\<lparr>us_poll := r\<rparr>)"

definition obs_send :: "nat \<Rightarrow> socket_addr list \<Rightarrow> 'u world \<Rightarrow> bool \<times> 'u world" where
  "obs_send ch msg w =
     (case w_chans w ch of
        None \<Rightarrow> (False, w)
      | Some q \<Rightarrow> (True, w\<lparr>w_chans := (w_chans w)(ch \<mapsto> q @ [msg])\<rparr>))"

text \<open>\<open>self.observers.retain(|obs| obs.send(..).is_ok())\<close>.\<close>

fun notify_observers :: "nat list \<Rightarrow> socket_addr list \<Rightarrow> 'u world \<Rightarrow> nat list \<times> 'u world" where
  "notify_observers [] msg w = ([], w)"
| "notify_observers (ch # chs) msg w =
     (case obs_send ch msg w of
        (ok, w) \<Rightarrow>
          (case notify_observers chs msg w of
             (rest, w) \<Rightarrow> (if ok then ch # rest else rest, w)))"

section \<open>Operations\<close>

definition udp_bind :: "'u world \<Rightarrow> (io_error + udp_socket) \<times> 'u world" where
  "udp_bind w =
     (case pop_answer (Inl (OtherIo 0)) (w_udp_binds w) of (r, rest) \<Rightarrow> (r, w\<lparr>w_udp_binds := rest\<rparr>))"

text \<open>\<open>get_socket\<close>: the first port from the given one on that can be bound; it gives up at \<open>u16::MAX\<close>.\<close>

function get_socket :: "u16 \<Rightarrow> 'u world \<Rightarrow> (sd_error + udp_socket) \<times> 'u world" where
  "get_socket port w =
     (case udp_bind w of
        (Inr s, w) \<Rightarrow> (Inr s, w)
      | (Inl e, w) \<Rightarrow> if port = 65535 then (Inl (SdIo e), w) else get_socket (port + 1) w)"
  by pat_completeness auto

lemma unat_succ_below_max: "port \<noteq> 65535 \<Longrightarrow> unat (port + 1 :: u16) = Suc (unat port)"
proof -
  assume "port \<noteq> 65535"
  then have "port + 1 \<noteq> 0"
    using eq_neg_iff_add_eq_0 [of port 1] by auto
  then show ?thesis using unatSuc [of port] by (simp add: add.commute)
qed

lemma ports_left: "port \<noteq> 65535 \<Longrightarrow> 65535 - unat (port + 1 :: u16) < 65535 - unat port"
  using unat_succ_below_max [of port] unsigned_less [of "port + 1", where 'a = nat] by simp

termination get_socket
  by (relation "measure (\<lambda>(port, w). 65535 - unat port)") (auto dest: ports_left)

declare get_socket.simps [simp del]

definition BROADCAST :: ip_addr where
  "BROADCAST = V4 (Ipv4Addr 255 255 255 255)"

definition sd_start :: "'u env \<Rightarrow> token \<Rightarrow> u16 \<Rightarrow> 'u world \<Rightarrow> (sd_error + unit) \<times> 'u world" where
  "sd_start E tok port w =
     (case get_socket port w of
        (Inl e, w) \<Rightarrow> (Inl e, w)
      | (Inr s, w) \<Rightarrow>
          (case us_broadcast s of
             Some e \<Rightarrow> (Inl (SdIo e), w)
           | None \<Rightarrow>
               (let (guid, rest) = pop_answer 0 (w_rand w);
                    w = w\<lparr>w_rand := rest\<rparr>
                in
                case e_sd_ser E (Request guid) of
                  None \<Rightarrow> (Inl SdSerialisation, w)
                | Some req \<Rightarrow>
                    (case us_register tok ready_erh s of
                       (Some e, s) \<Rightarrow> (Inl (SdIo e), w)
                     | (None, s) \<Rightarrow>
                         (Inr (), insert_state tok (StServiceDisc \<lparr>sd_token = tok, sd_socket = s,
                            sd_remote_addr = \<lparr>sa_ip = BROADCAST, sa_port = port\<rparr>, sd_listen = False,
                            sd_seek_peers_req = req, sd_reply_to = [], sd_observers = [],
                            sd_guid = guid\<rparr>) w)))))"

definition sd_set_listen :: "bool \<Rightarrow> service_disc \<Rightarrow> service_disc" where
  "sd_set_listen listen self = self\<lparr>sd_listen := listen\<rparr>"

definition sd_seek_peers :: "service_disc \<Rightarrow> (sd_error + unit) \<times> service_disc" where
  "sd_seek_peers self =
     (case us_send_to (sd_seek_peers_req self) (sd_remote_addr self) (sd_socket self) of
        (Inl e, s) \<Rightarrow> (Inl (SdIo e), self\<lparr>sd_socket := s\<rparr>)
      | (Inr _, s) \<Rightarrow> (Inr (), self\<lparr>sd_socket := s\<rparr>))"

definition sd_register_observer :: "nat \<Rightarrow> service_disc \<Rightarrow> service_disc" where
  "sd_register_observer obs self = self\<lparr>sd_observers := sd_observers self @ [obs]\<rparr>"

definition sd_terminate :: "service_disc \<Rightarrow> 'u world \<Rightarrow> service_disc \<times> 'u world" where
  "sd_terminate self w =
     (self\<lparr>sd_socket := us_deregister (sd_socket self)\<rparr>, remove_state (sd_token self) w)"

definition sd_write_impl ::
    "'u env \<Rightarrow> service_disc \<Rightarrow> 'u world \<Rightarrow> (sd_error + unit) \<times> service_disc" where
  "sd_write_impl E self w =
     (case e_sd_ser E (Response (w_our_listeners w)) of
        None \<Rightarrow> (Inl SdSerialisation, self)
      | Some serialised_resp \<Rightarrow>
          (let reregister = (\<lambda>self.
             let kind = (if sd_reply_to self = [] then ready_erh else ready_erhw) in
             case us_register (sd_token self) kind (sd_socket self) of
               (Some e, s) \<Rightarrow> (Inl (SdIo e), self\<lparr>sd_socket := s\<rparr>)
             | (None, s) \<Rightarrow> (Inr (), self\<lparr>sd_socket := s\<rparr>))
           in
           case sd_reply_to self of
             [] \<Rightarrow> reregister self
           | peer_addr # rest \<Rightarrow>
               (case us_send_to serialised_resp peer_addr (sd_socket self) of
                  (res, s) \<Rightarrow>
                    (let self = self\<lparr>sd_socket := s, sd_reply_to := rest\<rparr> in
                     case res of
                       Inr (Some _) \<Rightarrow> reregister self
                     | Inr None \<Rightarrow> reregister (self\<lparr>sd_reply_to := peer_addr # rest\<rparr>)
                     | Inl e \<Rightarrow>
                         if e = Interrupted \<or> e = WouldBlock then
                           reregister (self\<lparr>sd_reply_to := peer_addr # rest\<rparr>)
                         else (Inl (SdIo e), self)))))"

definition sd_write :: "'u env \<Rightarrow> service_disc \<Rightarrow> 'u world \<Rightarrow> service_disc \<times> 'u world" where
  "sd_write E self w =
     (case sd_write_impl E self w of
        (Inl e, self) \<Rightarrow> sd_terminate self w
      | (Inr _, self) \<Rightarrow> (self, w))"

definition READ_BUF :: nat where
  "READ_BUF = 1024"

definition sd_read :: "'u env \<Rightarrow> service_disc \<Rightarrow> 'u world \<Rightarrow> service_disc \<times> 'u world" where
  "sd_read E self w =
     (case us_recv_from (sd_socket self) of
        (res, s) \<Rightarrow>
          (let self = self\<lparr>sd_socket := s\<rparr> in
           case res of
             Inr None \<Rightarrow> (self, w)
           | Inl e \<Rightarrow> if e = Interrupted then (self, w) else sd_terminate self w
           | Inr (Some (bytes, peer_addr)) \<Rightarrow>
               (case e_sd_des E (take READ_BUF bytes) of
                  None \<Rightarrow> (self, w)
                | Some (Request guid) \<Rightarrow>
                    if sd_listen self \<and> sd_guid self \<noteq> guid then
                      sd_write E (self\<lparr>sd_reply_to := sd_reply_to self @ [peer_addr]\<rparr>) w
                    else (self, w)
                | Some (Response peer_listeners) \<Rightarrow>
                    (case notify_observers (sd_observers self) peer_listeners w of
                       (obs, w) \<Rightarrow> (self\<lparr>sd_observers := obs\<rparr>, w)))))"

definition sd_ready :: "'u env \<Rightarrow> ready \<Rightarrow> service_disc \<Rightarrow> 'u world \<Rightarrow> service_disc \<times> 'u world" where
  "sd_ready E kind self w =
     (if is_error kind \<or> is_hup kind then sd_terminate self w
      else
        (let (self, w) = (if is_readable kind then sd_read E self w else (self, w))
         in if is_writable kind then sd_write E self w else (self, w)))"

section \<open>Facts\<close>

text \<open>
  The search for a port: it ends, it returns the first socket that could be bound, and it tries
  no more ports than there are.
\<close>

fun first_bound :: "nat \<Rightarrow> (io_error + udp_socket) list \<Rightarrow> udp_socket option" where
  "first_bound 0 rs = None"
| "first_bound (Suc n) [] = None"
| "first_bound (Suc n) (Inr s # rs) = Some s"
| "first_bound (Suc n) (Inl e # rs) = first_bound n rs"

lemma first_bound_Nil [simp]: "first_bound n [] = None"
  by (cases n) simp_all

lemma get_socket_first:
  "(case fst (get_socket port w) of Inr s \<Rightarrow> Some s | Inl e \<Rightarrow> None)
     = first_bound (65536 - unat port) (w_udp_binds w)"
proof (induction port w rule: get_socket.induct)
  case (1 port w)
  have "unat port < 65536"
    using unsigned_less [of port, where 'a = nat] by simp
  then obtain n where n: "65536 - unat port = Suc n" by (metis Suc_diff_Suc)
  obtain r w1 where u: "udp_bind w = (r, w1)" by fastforce
  show ?case
  proof (cases r)
    case (Inr s)
    with u have "\<exists>rs. w_udp_binds w = Inr s # rs"
      by (cases "w_udp_binds w") (auto simp: udp_bind_def)
    with Inr u n show ?thesis
      by (subst get_socket.simps) auto
  next
    case (Inl e)
    with u have b: "first_bound (Suc n) (w_udp_binds w) = first_bound n (w_udp_binds w1)"
      by (cases "w_udp_binds w") (auto simp: udp_bind_def)
    show ?thesis
    proof (cases "port = 65535")
      case True
      with n have "n = 0" by simp
      with True Inl u n b show ?thesis
        by (subst get_socket.simps) simp
    next
      case False
      with n have "65536 - unat (port + 1) = n"
        using unat_succ_below_max [of port] by simp
      with 1 [OF u [symmetric] Inl False] False Inl u n b show ?thesis
        by (subst get_socket.simps) simp
    qed
  qed
qed

lemma get_socket_quiet: "get_socket port w = (r, w') \<Longrightarrow> quiet w w'"
proof (induction port w arbitrary: r w' rule: get_socket.induct)
  case (1 port w)
  obtain b w1 where u: "udp_bind w = (b, w1)" by fastforce
  have q: "quiet w w1" using u by (auto simp: udp_bind_def quiet_def split: prod.splits)
  show ?case
  proof (cases b)
    case (Inl e)
    show ?thesis
    proof (cases "port = 65535")
      case True
      with 1(2) u Inl q show ?thesis by (subst (asm) get_socket.simps) simp
    next
      case False
      with 1(2) u Inl have "get_socket (port + 1) w1 = (r, w')" by (subst (asm) get_socket.simps) simp
      from quiet_trans [OF q 1(1) [OF u [symmetric] Inl False this]] show ?thesis .
    qed
  next
    case (Inr s)
    with 1(2) u q show ?thesis by (subst (asm) get_socket.simps) simp
  qed
qed

text \<open>Every event of the discovery leaves the rest of the loop alone.\<close>

definition sd_keeps :: "service_disc \<Rightarrow> 'u world \<Rightarrow> service_disc \<times> 'u world \<Rightarrow> bool" where
  "sd_keeps self w r \<longleftrightarrow>
     sd_token (fst r) = sd_token self \<and>
     (w_states (snd r) = w_states w \<or> w_states (snd r) = (w_states w)(sd_token self := None)) \<and>
     w_cm (snd r) = w_cm w \<and> w_token_counter (snd r) = w_token_counter w \<and>
     w_timer_answers (snd r) = w_timer_answers w \<and> w_events (snd r) = w_events w"

lemma sd_keeps_trans: "sd_keeps self w (self1, w1) \<Longrightarrow> sd_keeps self1 w1 r \<Longrightarrow> sd_keeps self w r"
  by (auto simp: sd_keeps_def)

lemma notify_observers_frame:
  "notify_observers chs msg w = (obs, w') \<Longrightarrow>
     w_states w' = w_states w \<and> w_cm w' = w_cm w \<and> w_token_counter w' = w_token_counter w \<and>
     w_timer_answers w' = w_timer_answers w \<and> w_events w' = w_events w"
proof (induction chs arbitrary: w obs w')
  case (Cons ch chs)
  obtain ok w1 where s: "obs_send ch msg w = (ok, w1)" by fastforce
  obtain rest w2 where n: "notify_observers chs msg w1 = (rest, w2)" by fastforce
  have "w_states w1 = w_states w \<and> w_cm w1 = w_cm w \<and> w_token_counter w1 = w_token_counter w \<and>
     w_timer_answers w1 = w_timer_answers w \<and> w_events w1 = w_events w"
    using s by (auto simp: obs_send_def split: option.splits)
  with Cons.IH [OF n] Cons.prems s n show ?case by auto
qed simp

lemma sd_terminate_keeps: "sd_keeps self w (sd_terminate self w)"
  by (simp add: sd_keeps_def sd_terminate_def)

lemma sd_write_impl_token: "sd_token (snd (sd_write_impl E self w)) = sd_token self"
  by (simp add: sd_write_impl_def Let_def split: option.split list.split prod.split sum.split)

lemma sd_write_keeps: "sd_keeps self w (sd_write E self w)"
  using sd_write_impl_token [of E self w] sd_terminate_keeps [of "snd (sd_write_impl E self w)" w]
  by (auto simp: sd_write_def sd_keeps_def split: prod.splits sum.splits)

lemma sd_keeps_update:
  assumes "sd_token self' = sd_token self" and "sd_keeps self' w r"
  shows "sd_keeps self w r"
  using assms by (simp add: sd_keeps_def)

lemma sd_read_keeps: "sd_keeps self w (sd_read E self w)"
proof -
  have t: "sd_keeps self w (sd_terminate self' w)" if "sd_token self' = sd_token self" for self'
    by (rule sd_keeps_update [OF that sd_terminate_keeps])
  have r: "sd_keeps self w (sd_write E self' w)" if "sd_token self' = sd_token self" for self'
    by (rule sd_keeps_update [OF that sd_write_keeps])
  have n: "sd_keeps self w (self', w)" if "sd_token self' = sd_token self" for self'
    using that by (simp add: sd_keeps_def)
  have o: "sd_keeps self w (self', w')"
    if "sd_token self' = sd_token self" "notify_observers chs msg w = (obs, w')" for self' chs msg obs w'
    using notify_observers_frame [OF that(2)] that(1) by (simp add: sd_keeps_def)
  show ?thesis
    by (auto simp: sd_read_def Let_def t r n o
        split: prod.split sum.split option.split discovery_msg.split)
qed

lemma sd_ready_keeps: "sd_keeps self w (sd_ready E kind self w)"
proof -
  obtain self1 w1 where r: "(if is_readable kind then sd_read E self w else (self, w)) = (self1, w1)"
    by fastforce
  have k: "sd_keeps self w (self1, w1)"
    using r sd_read_keeps [of self w E] by (auto simp: sd_keeps_def split: if_splits)
  show ?thesis
    using k sd_keeps_trans [OF k sd_write_keeps, of E] sd_terminate_keeps [of self w] r
    by (auto simp: sd_ready_def Let_def)
qed

lemma sys_sd_handler [acct]:
  assumes "sys P d w" and "w_states w t = Some (StServiceDisc self)" and "sd_keeps self w r"
  shows "sys P d (put_state (StServiceDisc (fst r)) (snd r))"
proof (rule sys_put_plain)
  have "sd_token self = t"
    using acctD(5) [OF sysD(1) [OF assms(1)] assms(2)] by simp
  then show "sys P d (snd r)"
    using assms by (intro sys_plain [OF assms(1), of "snd r" t]) (auto simp: sd_keeps_def)
qed simp

end
