(* ===== verification/Bootstrap.thy ===== *)
theory Bootstrap
  imports Kids ServiceDisc
begin

text \<open>
  \<open>src/main/bootstrap/mod.rs\<close>: collects contacts from the cache, the configuration and service
  discovery, asks all of them at once, and keeps the first that grants the request. It
  fails when no request is left, on a fatal refusal, or after ten seconds.
\<close>

section \<open>Operations\<close>

definition BOOTSTRAP_TIMEOUT_SEC :: nat where
  "BOOTSTRAP_TIMEOUT_SEC = 10"

definition SERVICE_DISCOVERY_TIMEOUT_SEC :: nat where
  "SERVICE_DISCOVERY_TIMEOUT_SEC = 1"

definition BOOTSTRAP_TIMER_ID :: nat where
  "BOOTSTRAP_TIMER_ID = 0"

definition SERVICE_DISCOVERY_TIMER_ID :: nat where
  "SERVICE_DISCOVERY_TIMER_ID = BOOTSTRAP_TIMER_ID + 1"

text \<open>A channel: the receiver exists as long as \<open>w_chans\<close> has an entry.\<close>

definition new_channel :: "'u world \<Rightarrow> nat \<times> 'u world" where
  "new_channel w =
     (w_next_chan w, w\<lparr>w_next_chan := w_next_chan w + 1, w_chans := (w_chans w)(w_next_chan w \<mapsto> [])\<rparr>)"

definition drop_receiver :: "nat \<Rightarrow> 'u world \<Rightarrow> 'u world" where
  "drop_receiver ch w = w\<lparr>w_chans := (w_chans w)(ch := None)\<rparr>"

text \<open>\<open>seek_peers\<close>: no result is the panic of \<open>unwrap!\<close> on the downcast.\<close>

definition bs_seek_peers :: "token \<Rightarrow> 'u world \<Rightarrow> ((crust_error + sd_meta) \<times> 'u world) option" where
  "bs_seek_peers tok w =
     (case get_state SERVICE_DISCOVERY_TOKEN w of
        None \<Rightarrow> Some (Inl ServiceDiscNotEnabled, w)
      | Some (StServiceDisc sd) \<Rightarrow>
          (let (ch, w) = new_channel w;
               sd = sd_register_observer ch sd;
               (res, sd) = sd_seek_peers sd;
               w = put_state (StServiceDisc sd) w
           in
           case res of
             Inl e \<Rightarrow> Some (Inl (ServiceDisc e), drop_receiver ch w)
           | Inr _ \<Rightarrow>
               (case set_timeout (SERVICE_DISCOVERY_TIMEOUT_SEC * 1000)
                       (CoreTimer tok SERVICE_DISCOVERY_TIMER_ID) w of
                  (Inl e, w) \<Rightarrow> Some (Inl (Common e), drop_receiver ch w)
                | (Inr tm, w) \<Rightarrow> Some (Inr \<lparr>sm_rx = ch, sm_timeout = tm\<rparr>, w)))
      | Some _ \<Rightarrow> None)"

definition bs_terminate :: "'u bootstrap \<Rightarrow> 'u world \<Rightarrow> ('u bootstrap \<times> 'u world) option" where
  "bs_terminate self w =
     do { w \<leftarrow> terminate_kids (bs_children self) w;
          let self = self\<lparr>bs_children := []\<rparr>;
          let w = (case bs_sd_meta self of
                     None \<Rightarrow> w
                   | Some m \<Rightarrow> drop_receiver (sm_rx m) (cancel_timeout (sm_timeout m) w));
          let w = remove_state (bs_token self) w;
          Some (self\<lparr>bs_sd_meta := None\<rparr>, cancel_timeout (bs_timeout self) w) }"

definition bs_maybe_terminate :: "'u bootstrap \<Rightarrow> 'u world \<Rightarrow> ('u bootstrap \<times> 'u world) option" where
  "bs_maybe_terminate self w =
     (if bs_children self = [] then
        do { (self, w) \<leftarrow> bs_terminate self w; Some (self, send_event BootstrapFailed w) }
      else Some (self, w))"

fun try_peers :: "socket_addr list \<Rightarrow> 'u bootstrap \<Rightarrow> 'u world \<Rightarrow> 'u bootstrap \<times> 'u world" where
  "try_peers [] self w = (self, w)"
| "try_peers (peer # peers) self w =
     (case try_peer_start peer (bs_our_uid self) (bs_name_hash self) (bs_ext_reachability self) (bs_token self) w of
        (Inl e, w) \<Rightarrow> try_peers peers self w
      | (Inr child, w) \<Rightarrow> try_peers peers (self\<lparr>bs_children := hs_insert child (bs_children self)\<rparr>) w)"

definition begin_bootstrap :: "'u env \<Rightarrow> 'u bootstrap \<Rightarrow> 'u world \<Rightarrow> ('u bootstrap \<times> 'u world) option" where
  "begin_bootstrap E self w =
     (let peers = filter (\<lambda>addr. addr \<notin> bs_blacklist self) (bs_peers self);
          self = self\<lparr>bs_peers := []\<rparr>
      in
      if peers = [] then bs_terminate self (send_event BootstrapFailed w)
      else (case try_peers (e_shuffle E peers) self w of (self, w) \<Rightarrow> bs_maybe_terminate self w))"

fun is_err_fatal :: "bootstrap_deny_reason \<Rightarrow> bool" where
  "is_err_fatal InvalidNameHash = True"
| "is_err_fatal FailedExternalReachability = True"
| "is_err_fatal NodeNotWhitelisted = False"
| "is_err_fatal ClientNotWhitelisted = False"

definition bs_handle_result ::
    "'u env \<Rightarrow> token \<Rightarrow> (socket_addr \<times> bootstrap_deny_reason option) + (socket \<times> socket_addr \<times> 'u)
       \<Rightarrow> 'u bootstrap \<Rightarrow> 'u world \<Rightarrow> ('u bootstrap \<times> 'u world) option" where
  "bs_handle_result E child res self w =
     (let self = self\<lparr>bs_children := hs_remove child (bs_children self)\<rparr> in
      case res of
        Inr (so, peer_addr, peer_id) \<Rightarrow>
          do { (self, w) \<leftarrow> bs_terminate self w;
               Some (self, ac_start E child so (bs_our_uid self) peer_id Node
                 (BootstrapConnect peer_id peer_addr) w) }
      | Inl (bad_peer, opt_reason) \<Rightarrow>
          (let self = cache_remove_peer_acceptor bad_peer self in
           if (case opt_reason of None \<Rightarrow> False | Some reason \<Rightarrow> is_err_fatal reason) then
             do { (self, w) \<leftarrow> bs_terminate self w; Some (self, send_event BootstrapFailed w) }
           else bs_maybe_terminate self w))"

definition bs_start ::
    "'u env \<Rightarrow> name_hash \<Rightarrow> external_reachability \<Rightarrow> 'u \<Rightarrow> socket_addr set \<Rightarrow> token \<Rightarrow> 'u world
       \<Rightarrow> ((crust_error + unit) \<times> 'u world) option" where
  "bs_start E nh ext_reachability our_uid blacklist tok w =
     (case cache_new w of
        (Inl e, w) \<Rightarrow> Some (Inl e, w)
      | (Inr cache, w) \<Rightarrow>
          (let peers = cache_read_file cache @ hard_coded_contacts (cfg (w_config w));
               bs_timer = CoreTimer tok BOOTSTRAP_TIMER_ID
           in
           case set_timeout (BOOTSTRAP_TIMEOUT_SEC * 1000) bs_timer w of
             (Inl e, w) \<Rightarrow> Some (Inl (Common e), w)
           | (Inr tm, w) \<Rightarrow>
               do { (sd, w) \<leftarrow> bs_seek_peers tok w;
                    (case (case sd of
                             Inr m \<Rightarrow> Inr (Some m)
                           | Inl ServiceDiscNotEnabled \<Rightarrow> Inr None
                           | Inl e \<Rightarrow> Inl e) of
                       Inl e \<Rightarrow> Some (Inl e, w)
                     | Inr sd_meta \<Rightarrow>
                         (let self = \<lparr>bs_token = tok, bs_peers = peers, bs_blacklist = blacklist,
                                      bs_name_hash = nh, bs_ext_reachability = ext_reachability,
                                      bs_our_uid = our_uid, bs_sd_meta = sd_meta, bs_timer = bs_timer,
                                      bs_timeout = tm, bs_children = []\<rparr>;
                              w = insert_state tok (StBootstrap self) w
                          in
                          if sd_meta = None then
                            do { (self, w) \<leftarrow> begin_bootstrap E self w;
                                 Some (Inr (), put_state (StBootstrap self) w) }
                          else Some (Inr (), w))) }))"

text \<open>\<open>while let Ok(listeners) = rx.try_recv()\<close> takes all that is in the channel.\<close>

definition received :: "nat \<Rightarrow> 'u world \<Rightarrow> socket_addr list" where
  "received ch w = (case w_chans w ch of None \<Rightarrow> [] | Some q \<Rightarrow> concat q)"

definition bootstrap_timeout ::
    "'u env \<Rightarrow> nat \<Rightarrow> 'u bootstrap \<Rightarrow> 'u world \<Rightarrow> ('u bootstrap \<times> 'u world) option" where
  "bootstrap_timeout E tid self w =
     (if tid = timer_id (bs_timer self) then bs_terminate self (send_event BootstrapFailed w)
      else
        do { m \<leftarrow> bs_sd_meta self;
             let self = self\<lparr>bs_sd_meta := None\<rparr>;
             let self = self\<lparr>bs_peers := bs_peers self @ received (sm_rx m) w\<rparr>;
             begin_bootstrap E self (drop_receiver (sm_rx m) w) })"

text \<open>The closure that the requests call.\<close>

definition bs_try_peer_fin :: "'u env \<Rightarrow> 'u try_peer_fin" where
  "bs_try_peer_fin E child res w =
     (case get_state (tp_parent child) w of
        Some (StBootstrap self) \<Rightarrow>
          do { (self, w) \<leftarrow> bs_handle_result E (tp_token child) res self w;
               Some (put_state (StBootstrap self) w) }
      | _ \<Rightarrow> Some w)"

section \<open>Accounting\<close>

lemma channel_frame [simp]:
  "sys P d (drop_receiver ch w) = sys P d w"
  "w_states (drop_receiver ch w) = w_states w"
  "w_cm (drop_receiver ch w) = w_cm w"
  "w_token_counter (drop_receiver ch w) = w_token_counter w"
  "w_timer_answers (drop_receiver ch w) = w_timer_answers w"
proof -
  show st: "w_states (drop_receiver ch w) = w_states w"
    and cm: "w_cm (drop_receiver ch w) = w_cm w"
    and ct: "w_token_counter (drop_receiver ch w) = w_token_counter w"
    and ta: "w_timer_answers (drop_receiver ch w) = w_timer_answers w"
    by (simp_all add: drop_receiver_def)
  show "sys P d (drop_receiver ch w) = sys P d w"
    by (rule iffI; rule sys_cong [rotated 4], assumption) (simp_all add: st ct cm ta)
qed

lemma terminate_kid_cm_None:
  assumes "terminate_kid s w = Some w'" and "w_cm w u = None"
  shows "w_cm w' u = None"
  using assms
  by (cases s) (auto simp: ac_terminate_def hb_terminate_def cand_terminate_def cex_terminate_def
      reach_terminate_def try_peer_terminate_def get_ext_terminate_def cm_leave_def cm_deactivate_def Let_def
      split: option.splits if_splits)

lemma terminate_kids_cm_None:
  "terminate_kids ts w = Some w' \<Longrightarrow> w_cm w u = None \<Longrightarrow> w_cm w' u = None"
  by (induction ts arbitrary: w) (auto split: option.splits bind_splits dest: terminate_kid_cm_None)

lemma bs_terminate_ok:
  assumes "sys {} no_debt w" and "bs_terminate self w = Some (self', w')"
    and "\<And>s. w_states w (bs_token self) = Some s \<Longrightarrow> plain s"
  shows "sys {} no_debt w'" and "bs_token self' = bs_token self" and "w_token_counter w' = w_token_counter w"
    and "w_states w' t = w_states w t \<or> w_states w' t = None"
    and "w_cm w u = None \<Longrightarrow> w_cm w' u = None"
proof -
  from assms(2) obtain w1 where k: "terminate_kids (bs_children self) w = Some w1"
    "w' = cancel_timeout (bs_timeout self) (remove_state (bs_token self) (case bs_sd_meta self of
       None \<Rightarrow> w1 | Some m \<Rightarrow> drop_receiver (sm_rx m) (cancel_timeout (sm_timeout m) w1)))"
    "bs_token self' = bs_token self"
    by (auto simp: bs_terminate_def Let_def split: bind_splits)
  note ok = terminate_kids_ok [OF assms(1) k(1)]
  define w2 where "w2 = (case bs_sd_meta self of
       None \<Rightarrow> w1 | Some m \<Rightarrow> drop_receiver (sm_rx m) (cancel_timeout (sm_timeout m) w1))"
  have w2: "sys {} no_debt w2" "w_states w2 = w_states w1" "w_token_counter w2 = w_token_counter w1"
    "w_cm w2 = w_cm w1"
    using ok by (simp_all add: w2_def split: option.split)
  have "sys {} no_debt (remove_state (bs_token self) w2)"
    by (rule sys_plain_remove [OF w2(1)]) (use ok w2(2) assms(3) in \<open>auto split: if_splits\<close>)
  with k w2 ok terminate_kids_cm_None [OF k(1), of u] show "sys {} no_debt w'"
    "bs_token self' = bs_token self" "w_token_counter w' = w_token_counter w"
    "w_states w' t = w_states w t \<or> w_states w' t = None"
    "w_cm w u = None \<Longrightarrow> w_cm w' u = None"
    by (simp_all add: w2_def [symmetric])
qed

lemma bs_maybe_terminate_sys:
  assumes "sys {} no_debt w" and "bs_maybe_terminate self w = Some (self', w')"
    and "\<And>s. w_states w (bs_token self) = Some s \<Longrightarrow> plain s"
  shows "sys {} no_debt w'"
  using assms(1,2) bs_terminate_ok(1) [OF assms(1) _ assms(3)]
  by (auto simp: bs_maybe_terminate_def split: if_splits bind_splits)

text \<open>A granted request becomes a connection without ever having been counted as a handshake: the
  accounting is kept only if the peer was unknown.\<close>

lemma bs_handle_result_sys:
  assumes "sys {} no_debt w" and "bs_handle_result E child res self w = Some (self', w')"
    and "\<And>s. w_states w (bs_token self) = Some s \<Longrightarrow> plain s"
    and "w_states w child = None" and "given w child"
    and "\<And>p c. w_states w p = Some (StConnect c) \<Longrightarrow> child \<notin> set (cn_children c)"
    and "\<And>so a u. res = Inr (so, a, u) \<Longrightarrow> w_cm w u = None"
  shows "sys {} no_debt w'"
proof -
  let ?self = "self\<lparr>bs_children := hs_remove child (bs_children self)\<rparr>"
  have pl: "plain s" if "w_states w (bs_token ?self) = Some s" for s
    using that assms(3) by simp
  show ?thesis
  proof (cases res)
    case (Inl a)
    with assms(2) show ?thesis
      using bs_maybe_terminate_sys [OF assms(1), of ?self] bs_terminate_ok(1) [OF assms(1), of ?self] pl
      by (auto simp: bs_handle_result_def cache_remove_peer_acceptor_def Let_def
          split: prod.splits if_splits bind_splits)
  next
    case (Inr a)
    obtain so addr u where r: "res = Inr (so, addr, u)" using Inr by (cases a) auto
    with assms(2) obtain w1 where t: "bs_terminate ?self w = Some (self', w1)"
      and w': "w' = ac_start E child so (bs_our_uid self') u Node (BootstrapConnect u addr) w1"
      by (auto simp: bs_handle_result_def Let_def split: bind_splits)
    note ok = bs_terminate_ok [OF assms(1) t pl]
    show ?thesis
      unfolding w'
    proof (rule sys_ac_start_fresh)
      show "sys {} no_debt w1" using ok(1) .
      show "w_states w1 child = None" using ok(4) [of child] assms(4) by auto
      show "given w1 child" using ok(3) assms(5) by simp
      show "w_cm w1 u = None" using ok(5) [of u] assms(7) [OF r] by simp
      show "child \<notin> set (cn_children c)" if "w_states w1 p = Some (StConnect c)" for p c
        using ok(4) [of p] that assms(6) [of p c] by auto
    qed
  qed
qed

lemma try_peers_sys:
  assumes "try_peers peers self w = (self', w')" and "sys {} no_debt w"
  shows "sys {} no_debt w' \<and> bs_token self' = bs_token self \<and> w_token_counter w \<le> w_token_counter w' \<and>
    (\<forall>t. t < w_token_counter w \<longrightarrow> w_states w' t = w_states w t)"
  using assms
proof (induction peers self w rule: try_peers.induct)
  case (2 peer peers self w)
  obtain r w1 where g: "try_peer_start peer (bs_our_uid self) (bs_name_hash self) (bs_ext_reachability self)
      (bs_token self) w = (r, w1)" by fastforce
  note res = try_peer_start_result [OF g 2(4)]
  note old = try_peer_start_old [OF g]
  show ?case
  proof (cases r)
    case (Inl e)
    with 2(1) [OF g [symmetric] Inl] 2(3) g res old show ?thesis by auto
  next
    case (Inr child)
    with 2(2) [OF g [symmetric] Inr] 2(3) g res old show ?thesis by auto
  qed
qed simp

lemma begin_bootstrap_sys:
  assumes "sys {} no_debt w" and "begin_bootstrap E self w = Some (self', w')"
    and "\<And>s. w_states w (bs_token self) = Some s \<Longrightarrow> plain s" and "bs_token self < w_token_counter w"
  shows "sys {} no_debt w'"
proof -
  let ?self = "self\<lparr>bs_peers := []\<rparr>" and ?ps = "filter (\<lambda>addr. addr \<notin> bs_blacklist self) (bs_peers self)"
  obtain s1 w1 where t: "try_peers (e_shuffle E ?ps) ?self w = (s1, w1)" by fastforce
  note ok = try_peers_sys [OF t assms(1)]
  have pl: "plain s" if "w_states w1 (bs_token s1) = Some s" for s
    using that ok assms(3,4) by auto
  show ?thesis
  proof (cases "?ps = []")
    case True
    with assms(2) have b: "bs_terminate ?self (send_event BootstrapFailed w) = Some (self', w')"
      by (simp add: begin_bootstrap_def Let_def)
    show ?thesis
      by (rule bs_terminate_ok(1) [OF _ b]) (use assms(1,3) in simp_all)
  next
    case False
    with assms(2) t have b: "bs_maybe_terminate s1 w1 = Some (self', w')"
      by (simp add: begin_bootstrap_def Let_def)
    show ?thesis
      by (rule bs_maybe_terminate_sys [OF _ b pl]) (use ok in simp_all)
  qed
qed

lemma sys_bootstrap_timeout [acct]:
  assumes "sys {} no_debt w" and "w_states w t = Some (StBootstrap self)"
    and "bootstrap_timeout E tid self w = Some (self', w')"
  shows "sys {} no_debt (put_state (StBootstrap self') w')"
proof (rule sys_put_plain)
  have t: "bs_token self = t" "t < w_token_counter w"
    using acctD(5,6) [OF sysD(1) [OF assms(1)] assms(2)] by simp_all
  show "sys {} no_debt w'"
  proof (cases "tid = timer_id (bs_timer self)")
    case True
    with assms(3) have b: "bs_terminate self (send_event BootstrapFailed w) = Some (self', w')"
      by (simp add: bootstrap_timeout_def)
    show ?thesis
      by (rule bs_terminate_ok(1) [OF _ b]) (use assms(1,2) t in simp_all)
  next
    case False
    with assms(3) obtain m where "bs_sd_meta self = Some m"
      by (auto simp: bootstrap_timeout_def split: bind_splits)
    with False assms(3) have "begin_bootstrap E (self\<lparr>bs_sd_meta := None,
        bs_peers := bs_peers self @ received (sm_rx m) w\<rparr>) (drop_receiver (sm_rx m) w) = Some (self', w')"
      by (simp add: bootstrap_timeout_def)
    from begin_bootstrap_sys [OF _ this] assms(1,2) t show ?thesis by simp
  qed
qed simp

lemma bs_seek_peers_sys:
  assumes "sys {} no_debt w" and "bs_seek_peers tok w = Some (r, w')"
  shows "sys {} no_debt w' \<and> w_token_counter w' = w_token_counter w \<and> w_timer_answers w' = [] \<and>
    w_cm w' = w_cm w \<and> (\<forall>t. t \<noteq> SERVICE_DISCOVERY_TOKEN \<longrightarrow> w_states w' t = w_states w t)"
proof (cases "w_states w SERVICE_DISCOVERY_TOKEN")
  case None
  with assms show ?thesis by (auto simp: bs_seek_peers_def get_state_def dest: sysD(3))
next
  case (Some s)
  with assms(2) obtain sd where sd: "s = StServiceDisc sd"
    by (auto simp: bs_seek_peers_def get_state_def split: state.splits)
  have tok: "sd_token sd = SERVICE_DISCOVERY_TOKEN"
    using acctD(5) [OF sysD(1) [OF assms(1)] Some] sd by simp
  obtain ch w1 where c: "new_channel w = (ch, w1)" by fastforce
  have w1: "w_states w1 = w_states w" "w_cm w1 = w_cm w" "w_token_counter w1 = w_token_counter w"
      "w_timer_answers w1 = w_timer_answers w"
    using c by (auto simp: new_channel_def)
  have s1: "sys {} no_debt w1" by (rule sys_cong [OF _ _ _ _ assms(1)]) (simp_all add: w1)
  obtain res sd' where k: "sd_seek_peers (sd_register_observer ch sd) = (res, sd')" by fastforce
  have tok': "sd_token sd' = SERVICE_DISCOVERY_TOKEN"
    using k tok by (auto simp: sd_seek_peers_def sd_register_observer_def split: prod.splits sum.splits)
  let ?w = "put_state (StServiceDisc sd') w1"
  have s2: "sys {} no_debt ?w" by (rule sys_put_plain [OF s1]) simp
  have w2: "w_token_counter ?w = w_token_counter w" "w_cm ?w = w_cm w" "w_timer_answers ?w = []"
      "t \<noteq> SERVICE_DISCOVERY_TOKEN \<Longrightarrow> w_states ?w t = w_states w t" for t
    using w1 tok' sysD(3) [OF assms(1)] by (auto simp: w_states_put split: option.splits)
  have s3: "sys {} no_debt w3" if "set_timeout ms ct ?w = (tr, w3)" for ms ct tr w3
    using sys_frame(4) [OF s2] that by (metis snd_conv)
  from assms(2) Some sd c k s2 w2 s3 show ?thesis
    by (auto simp: bs_seek_peers_def get_state_def Let_def split: sum.splits prod.splits
        dest: set_timeout_eqD)
qed

lemma sys_bs_start [acct]:
  assumes "sys {} no_debt w" and "bs_start E nh ext our bl BOOTSTRAP_TOKEN w = Some (r, w')"
  shows "sys {} no_debt w'"
proof -
  obtain cr w1 where c: "cache_new w = (cr, w1)" by fastforce
  have w1: "w_states w1 = w_states w" "w_cm w1 = w_cm w" "w_token_counter w1 = w_token_counter w"
      "w_timer_answers w1 = w_timer_answers w"
    using c by (auto simp: cache_new_def split: prod.splits)
  have s1: "sys {} no_debt w1" by (rule sys_cong [OF _ _ _ _ assms(1)]) (simp_all add: w1)
  obtain tr w2 where t: "set_timeout (BOOTSTRAP_TIMEOUT_SEC * 1000) (CoreTimer BOOTSTRAP_TOKEN BOOTSTRAP_TIMER_ID) w1
      = (tr, w2)" by fastforce
  have s2: "sys {} no_debt w2" using sys_frame(4) [OF s1] t by (metis snd_conv)
  show ?thesis
  proof (cases "\<exists>cache tm. cr = Inr cache \<and> tr = Inr tm")
    case False
    with assms(2) c t s1 s2 show ?thesis
      by (auto simp: bs_start_def Let_def split: sum.splits)
  next
    case True
    then obtain cache tm where ct: "cr = Inr cache" "tr = Inr tm" by blast
    with assms(2) c t obtain sd w3 where sk: "bs_seek_peers BOOTSTRAP_TOKEN w2 = Some (sd, w3)"
      by (auto simp: bs_start_def Let_def split: bind_splits)
    note s3 = bs_seek_peers_sys [OF s2 sk]
    have ins: "sys {} no_debt (insert_state BOOTSTRAP_TOKEN (StBootstrap b) w3)"
      if "bs_token b = BOOTSTRAP_TOKEN" for b
      by (rule sys_insert_reserved)
        (use s3 that in \<open>simp_all add: BOOTSTRAP_TOKEN_def FIRST_TOKEN_def reserved_def\<close>)
    have lt: "BOOTSTRAP_TOKEN < w_token_counter w3"
      using acctD(9) [OF sysD(1)] s3 by (fastforce simp: BOOTSTRAP_TOKEN_def FIRST_TOKEN_def)
    have bb: "sys {} no_debt (put_state (StBootstrap b') w4)"
      if "begin_bootstrap E b (insert_state BOOTSTRAP_TOKEN (StBootstrap b) w3) = Some (b', w4)"
        "bs_token b = BOOTSTRAP_TOKEN" for b b' w4
      by (rule sys_put_plain [OF begin_bootstrap_sys [OF ins that(1)]]) (use that(2) lt in auto)
    let ?res = "case sd of Inr m \<Rightarrow> Inr (Some m) | Inl ServiceDiscNotEnabled \<Rightarrow> Inr None | Inl e \<Rightarrow> Inl e"
    from assms(2) c t ct sk s3 show ?thesis
      by (cases ?res) (auto simp: bs_start_def Let_def ins split: if_splits bind_splits intro: bb)
  qed
qed

section \<open>Events of a request\<close>

lemma sys_try_peer_fin:
  assumes "sys {} no_debt w" and "bs_try_peer_fin E child res w = Some w'"
    and "w_states w (tp_token child) = None" and "given w (tp_token child)"
    and "\<And>p c. w_states w p = Some (StConnect c) \<Longrightarrow> tp_token child \<notin> set (cn_children c)"
    and "\<And>so a u. res = Inr (so, a, u) \<Longrightarrow> w_cm w u = None"
  shows "sys {} no_debt w'"
proof (cases "\<exists>b. w_states w (tp_parent child) = Some (StBootstrap b)")
  case True
  then obtain b where b: "w_states w (tp_parent child) = Some (StBootstrap b)" by blast
  have t: "bs_token b = tp_parent child"
    using acctD(5) [OF sysD(1) [OF assms(1)] b] by simp
  from assms(2) b obtain b' w1 where r: "bs_handle_result E (tp_token child) res b w = Some (b', w1)"
    "w' = put_state (StBootstrap b') w1"
    by (auto simp: bs_try_peer_fin_def get_state_def split: bind_splits)
  have "sys {} no_debt w1"
    by (rule bs_handle_result_sys [OF assms(1) r(1) _ assms(3-6)]) (use b t in simp)
  then show ?thesis
    unfolding r(2) by (rule sys_put_plain) simp
next
  case False
  with assms(1,2) show ?thesis
    by (auto simp: bs_try_peer_fin_def get_state_def split: option.splits state.splits)
qed

text \<open>One kind of readiness per event; a grant comes from a peer the connection map does not know.\<close>

lemma sys_try_peer_ready [acct]:
  assumes "sys {} no_debt w" and "w_states w t = Some (StTryPeer self)"
    and "try_peer_ready E (bs_try_peer_fin E) kind self w = Some r"
    and "\<not> (is_readable kind \<and> is_writable kind) \<or> is_error kind"
    and "\<And>so u. socket_read (e_des E) (tp_socket self) = (Inr (Some (BootstrapGranted u)), so) \<Longrightarrow> w_cm w u = None"
  shows "sys {} no_debt (put_state (StTryPeer (fst r)) (snd r))"
proof (rule sys_put_plain)
  let ?F = "bs_try_peer_fin E" and ?w = "remove_state t w"
  have t: "tp_token self = t" using acctD(5) [OF sysD(1) [OF assms(1)] assms(2)] by simp
  have g: "given w t" using acctD(8) [OF sysD(1) [OF assms(1)] assms(2)] by (simp add: reserved_def)
  have np: "t \<notin> set (cn_children c)" if "w_states ?w p = Some (StConnect c)" for p c
    using linksD(2) [OF sysD(2) [OF assms(1)] _ _ _ assms(2)] that by (fastforce split: if_splits)
  have s1: "sys {} no_debt ?w"
    by (rule sys_plain_remove [OF assms(1)]) (simp add: assms(2))
  have err: "sys {} no_debt (snd r')"
    if e: "try_peer_handle_error ?F reason s w = Some r'" "tp_token s = t" for s reason r'
  proof -
    have "?F (fst (try_peer_terminate s w)) (Inl (tp_peer s, reason)) ?w = Some (snd r')"
      using e by (auto simp: try_peer_handle_error_def try_peer_terminate_def Let_def split: bind_splits)
    then show ?thesis
      by (rule sys_try_peer_fin [OF s1]) (use e(2) g np in auto)
  qed
  have rd: "sys {} no_debt (snd r')" if r: "try_peer_read E ?F self w = Some r'" for r'
  proof -
    obtain res so where so: "socket_read (e_des E) (tp_socket self) = (res, so)" by fastforce
    let ?s = "self\<lparr>tp_socket := so\<rparr>"
    let ?c = "?s\<lparr>tp_socket := socket_default\<rparr>"
    have "(\<exists>reason. try_peer_handle_error ?F reason ?s w = Some r') \<or> r' = (?s, w) \<or>
        (\<exists>u. res = Inr (Some (BootstrapGranted u)) \<and> ?F ?c (Inr (so, tp_peer self, u)) ?w = Some (snd r'))"
      using r so t
      by (auto simp: try_peer_read_def Let_def split: sum.splits option.splits message.splits bind_splits)
    moreover have "sys {} no_debt (snd r')"
      if g1: "res = Inr (Some (BootstrapGranted u))" and f: "?F ?c (Inr (so, tp_peer self, u)) ?w = Some (snd r')" for u
    proof -
      have u: "w_cm w u = None" using assms(5) so g1 by simp
      show ?thesis
        by (rule sys_try_peer_fin [OF s1 f]) (use t g np u in auto)
    qed
    ultimately show ?thesis
      using err [of _ ?s r'] t assms(1) by auto
  qed
  have wr: "sys {} no_debt (snd r')" if "try_peer_write E ?F m (self\<lparr>tp_request := None\<rparr>) w = Some r'" for m r'
    using that assms(1) t err [of None "self\<lparr>tp_request := None, tp_socket := so\<rparr>" r' for so]
    by (auto simp: try_peer_write_def Let_def split: bind_splits sum.splits)
  show "sys {} no_debt (snd r)"
    using assms(3,4) rd wr err [of None self] t assms(1)
    by (auto simp: try_peer_ready_def split: if_splits bind_splits)
qed simp

end
