(* ===== verification/Refresher.thy ===== *)
theory Refresher
  imports Reach
begin

text \<open>
  \<open>src/main/config_refresher.rs\<close>: reads the configuration file every thirty seconds and drops the
  active connections whose address is no longer whitelisted.
\<close>

definition REFRESH_INTERVAL_SEC :: nat where
  "REFRESH_INTERVAL_SEC = 30"

definition refresher_start :: "token \<Rightarrow> 'u world \<Rightarrow> (crust_error + unit) \<times> 'u world" where
  "refresher_start tok w =
     (let timer = CoreTimer tok 0 in
      case set_timeout (REFRESH_INTERVAL_SEC * 1000) timer w of
        (Inl e, w) \<Rightarrow> (Inl (Common e), w)
      | (Inr tm, w) \<Rightarrow>
          (Inr (), insert_state tok (StRefresher \<lparr>rf_token = tok, rf_timer = timer, rf_timeout = tm\<rparr>) w))"

definition refresher_terminate :: "refresher \<Rightarrow> 'u world \<Rightarrow> 'u world" where
  "refresher_terminate self w = remove_state (rf_token self) (cancel_timeout (rf_timeout self) w)"

text \<open>Whether an active connection is to be dropped under the given whitelists.\<close>

definition should_drop ::
    "ip_addr set option \<Rightarrow> ip_addr set option \<Rightarrow> 'u active_conn \<Rightarrow> bool" where
  "should_drop node_ips client_ips ac =
     (case ac_peer_addr ac of
        Inl e \<Rightarrow> True
      | Inr s \<Rightarrow>
          (case ac_their_role ac of
             Node \<Rightarrow> (case node_ips of None \<Rightarrow> False | Some ips \<Rightarrow> sa_ip s \<notin> ips)
           | Client \<Rightarrow> (case client_ips of None \<Rightarrow> False | Some ips \<Rightarrow> sa_ip s \<notin> ips)))"

text \<open>The active connection of an entry of the connection map, if it is one.\<close>

definition active_state :: "'u world \<Rightarrow> 'u \<Rightarrow> 'u active_conn option" where
  "active_state w u =
     do { tok \<leftarrow> cm_active (w_cm w) u;
          (case get_state tok w of Some (StActive ac) \<Rightarrow> Some ac | _ \<Rightarrow> None) }"

definition peers_to_terminate ::
    "'u env \<Rightarrow> ip_addr set option \<Rightarrow> ip_addr set option \<Rightarrow> 'u world \<Rightarrow> 'u active_conn list" where
  "peers_to_terminate E node_ips client_ips w =
     filter (should_drop node_ips client_ips) (List.map_filter (active_state w) (e_order E (w_cm w)))"

fun terminate_peers :: "'u active_conn list \<Rightarrow> 'u world \<Rightarrow> 'u world" where
  "terminate_peers [] w = w"
| "terminate_peers (ac # acs) w = terminate_peers acs (snd (ac_terminate ac w))"

definition refresher_timeout :: "'u env \<Rightarrow> refresher \<Rightarrow> 'u world \<Rightarrow> refresher \<times> 'u world" where
  "refresher_timeout E self w =
     (case set_timeout (REFRESH_INTERVAL_SEC * 1000) (rf_timer self) w of
        (Inl e, w) \<Rightarrow> (self, refresher_terminate self w)
      | (Inr tm, w) \<Rightarrow>
          (let self = self\<lparr>rf_timeout := tm\<rparr> in
           case read_config_file w of
             (Inl e, w) \<Rightarrow> (self, w)
           | (Inr c, w) \<Rightarrow>
               (let node_ips = whitelisted_node_ips c;
                    client_ips = whitelisted_client_ips c;
                    (refresh, wrapper) = check_for_refresh_and_reset_modified c (w_config w);
                    w = w\<lparr>w_config := wrapper\<rparr>
                in
                if \<not> refresh \<or> (node_ips = None \<and> client_ips = None) then (self, w)
                else (self, terminate_peers (peers_to_terminate E node_ips client_ips w) w))))"

section \<open>What a purge removes\<close>

lemma ac_terminate_states [simp]:
  "w_states (snd (ac_terminate ac w)) = (w_states w)(ac_token ac := None)"
  by (simp add: ac_terminate_def hb_terminate_def Let_def)

lemma terminate_peers_states:
  "w_states (terminate_peers acs w) t = (if t \<in> ac_token ` set acs then None else w_states w t)"
  by (induction acs arbitrary: w) auto

lemma ac_terminate_cm: "u \<noteq> ac_their_id ac \<Longrightarrow> w_cm (snd (ac_terminate ac w)) u = w_cm w u"
  by (simp add: ac_terminate_def hb_terminate_def cm_deactivate_def Let_def split: option.split)

lemma terminate_peers_cm:
  "u \<notin> ac_their_id ` set acs \<Longrightarrow> w_cm (terminate_peers acs w) u = w_cm w u"
  by (induction acs arbitrary: w) (auto simp: ac_terminate_cm)

section \<open>Accounting\<close>

lemma terminate_peers_ok:
  assumes "sys P d w" and "\<forall>ac \<in> set acs. ac_self ac w" and "\<forall>ac \<in> set acs. ac_token ac \<noteq> t0"
  shows "sys P d (terminate_peers acs w) \<and> shrinks (ac_token ` set acs) w (terminate_peers acs w) \<and>
    w_states (terminate_peers acs w) t0 = w_states w t0"
  using assms
proof (induction acs arbitrary: w)
  case (Cons ac acs)
  let ?w = "snd (ac_terminate ac w)"
  have k: "ac_keeps ac w (ac_terminate ac w)" by (rule ac_keeps_terminate)
  have self: "ac_self ac w" using Cons.prems(2) by simp
  have sh: "shrinks {ac_token ac} w ?w" by (rule ac_keeps_shrinks [OF k self])
  have "sys P d ?w"
    using k self Cons.prems(1) links_shrink [OF sysD(2) [OF Cons.prems(1)] sh]
    by (auto simp: sys_def ac_keeps_def same_off_def)
  moreover have "ac_self a ?w" if "a \<in> set acs" for a
  proof -
    have "ac_self a w" using Cons.prems(2) that by simp
    then show ?thesis
      using k by (cases "ac_token a = ac_token ac")
        (auto simp: ac_self_def ac_keeps_def same_off_def ac_terminate_def Let_def)
  qed
  ultimately have "sys P d (terminate_peers acs ?w) \<and> shrinks (ac_token ` set acs) ?w (terminate_peers acs ?w) \<and>
      w_states (terminate_peers acs ?w) t0 = w_states ?w t0"
    using Cons.IH [of ?w] Cons.prems(3) by simp
  moreover have "w_states ?w t0 = w_states w t0"
    using k Cons.prems(3) by (simp add: ac_keeps_def same_off_def)
  ultimately show ?case
    using shrinks_trans [OF shrinks_mono [OF sh] shrinks_mono, of "ac_token ` set (ac # acs)" "ac_token ` set acs"]
    by auto
qed simp

lemma active_state_self:
  assumes "active_state w u = Some ac" and "sys P d w"
  shows "ac_self ac w" and "w_states w (ac_token ac) = Some (StActive ac)" and "ac_their_id ac = u"
    and "cm_active (w_cm w) u = Some (ac_token ac)"
proof -
  obtain t where t: "cm_active (w_cm w) u = Some t" "w_states w t = Some (StActive ac)"
    using assms(1) by (auto simp: active_state_def get_state_def split: bind_splits option.splits state.splits)
  have tok: "ac_token ac = t"
    using acctD(5) [OF sysD(1) [OF assms(2)] t(2)] by simp
  with t acctD(4) [OF sysD(1) [OF assms(2)] t(1)] show "ac_self ac w" "w_states w (ac_token ac) = Some (StActive ac)"
      "ac_their_id ac = u" "cm_active (w_cm w) u = Some (ac_token ac)"
    by (auto simp: ac_self_def)
qed

lemma set_map_filter: "set (List.map_filter f xs) = {y. \<exists>x \<in> set xs. f x = Some y}"
  by (induction xs) (auto simp: List.map_filter_simps split: option.splits)

lemma active_state_dom: "active_state w u = Some ac \<Longrightarrow> u \<in> dom (w_cm w)"
  by (auto simp: active_state_def cm_active_def split: bind_splits)

lemma set_peers_to_terminate:
  assumes "set (e_order E (w_cm w)) = dom (w_cm w)"
  shows "ac \<in> set (peers_to_terminate E n c w) \<longleftrightarrow>
    should_drop n c ac \<and> (\<exists>u. active_state w u = Some ac)"
  using active_state_dom [of w _ ac] unfolding peers_to_terminate_def set_filter set_map_filter assms by blast

lemma peers_to_terminate_active:
  "ac \<in> set (peers_to_terminate E n c w) \<Longrightarrow> should_drop n c ac \<and> (\<exists>u. active_state w u = Some ac)"
  by (auto simp: peers_to_terminate_def set_map_filter)

lemma refresher_timeout_cases:
  assumes "refresher_timeout E self w = (self', w')"
  obtains (refused) w1 where "set_timeout (REFRESH_INTERVAL_SEC * 1000) (rf_timer self) w = (Inl CommonTimer, w1)"
      "self' = self" "w' = refresher_terminate self w1"
  | (kept) tm w1 where "set_timeout (REFRESH_INTERVAL_SEC * 1000) (rf_timer self) w = (Inr tm, w1)"
      "self' = self\<lparr>rf_timeout := tm\<rparr>" "w_states w' = w_states w" "w_cm w' = w_cm w"
      "w_token_counter w' = w_token_counter w" "w_timer_answers w' = w_timer_answers w1"
      "w_events w' = w_events w"
  | (purged) tm c w1 where "self' = self\<lparr>rf_timeout := tm\<rparr>" "quiet w1 w1" "w_states w1 = w_states w" "w_cm w1 = w_cm w"
      "w_token_counter w1 = w_token_counter w" "w_timer_answers w = [] \<longrightarrow> w_timer_answers w1 = []"
      "w_config w1 = \<lparr>cfg = c, is_modified_for_next_refresh = False\<rparr>"
      "w' = terminate_peers (peers_to_terminate E (whitelisted_node_ips c) (whitelisted_client_ips c) w1) w1"
proof -
  obtain tr w1 where t: "set_timeout (REFRESH_INTERVAL_SEC * 1000) (rf_timer self) w = (tr, w1)" by fastforce
  obtain rc w2 where r: "read_config_file w1 = (rc, w2)" by fastforce
  note D = set_timeout_eqD [OF t] read_config_file_eqD [OF r]
  show ?thesis
  proof (cases tr)
    case (Inl e)
    then have "e = CommonTimer" using t by (auto simp: set_timeout_def split: prod.splits bool.splits)
    with Inl t assms show ?thesis
      by (intro refused) (auto simp: refresher_timeout_def)
  next
    case tr: (Inr tm)
    show ?thesis
    proof (cases rc)
      case (Inl e)
      with tr t r D assms show ?thesis
        by (intro kept [of tm w1]) (auto simp: refresher_timeout_def Let_def)
    next
      case (Inr c)
      obtain b cw where b: "check_for_refresh_and_reset_modified c (w_config w2) = (b, cw)" by fastforce
      let ?w = "w2\<lparr>w_config := cw\<rparr>"
      have cw: "cw = \<lparr>cfg = c, is_modified_for_next_refresh = False\<rparr>"
        using refresh_reads_config(1,2) [of c "w_config w2"] b by simp
      show ?thesis
      proof (cases "\<not> b \<or> whitelisted_node_ips c = None \<and> whitelisted_client_ips c = None")
        case True
        with tr t r D b Inr assms show ?thesis
          by (intro kept [of tm w1]) (auto simp: refresher_timeout_def Let_def)
      next
        case False
        with tr t r D b Inr assms cw show ?thesis
          by (intro purged [of tm ?w c]) (auto simp: refresher_timeout_def Let_def)
      qed
    qed
  qed
qed

lemma sys_refresher_timeout [acct]:
  assumes "sys P d w" and "w_states w t = Some (StRefresher self)" and "refresher_timeout E self w = (self', w')"
  shows "sys P d (put_state (StRefresher self') w')"
proof (rule sys_put_plain)
  have t: "rf_token self = t"
    using acctD(5) [OF sysD(1) [OF assms(1)] assms(2)] by simp
  from assms(3) show "sys P d w'"
  proof (cases rule: refresher_timeout_cases)
    case (refused w1)
    then show ?thesis
      using set_timeout_ok(1) [OF sysD(3) [OF assms(1)]] by (metis fst_conv sum.distinct(1))
  next
    case (kept tm w1)
    then show ?thesis
      using set_timeout_eqD [OF kept(1)] by (intro sys_cong [OF _ _ _ _ assms(1)]) (use sysD(3) [OF assms(1)] in simp_all)
  next
    case (purged tm c w1)
    have s1: "sys P d w1"
      by (rule sys_cong [OF _ _ _ _ assms(1)]) (use purged sysD(3) [OF assms(1)] in simp_all)
    have v: "ac_self ac w1 \<and> ac_token ac \<noteq> t"
      if m: "ac \<in> set (peers_to_terminate E (whitelisted_node_ips c) (whitelisted_client_ips c) w1)" for ac
    proof -
      obtain u where "active_state w1 u = Some ac"
        using peers_to_terminate_active [OF m] by blast
      from active_state_self(1,2) [OF this s1] show ?thesis
        using assms(2) purged(3) by (metis option.inject state.distinct)
    qed
    show ?thesis
      unfolding purged(8) by (rule terminate_peers_ok [OF s1, THEN conjunct1]) (use v in blast)+
  qed
qed simp

end
