(* ===== verification/Dispatch.thy ===== *)
theory Dispatch
  imports Listener Bootstrap Refresher
begin

text \<open>
  The dynamic dispatch of the trait \<open>State\<close> (\<open>src/common/state.rs\<close>) over the states of the event loop,
  with the default methods of the trait, and the two dispatchers of \<open>src/common/core.rs\<close>:
  \<open>handle_event\<close> and \<open>handle_timer\<close>. The record that a handler returns is put back if the token
  still belongs to it.
\<close>

section \<open>Dispatch\<close>

definition run_state ::
    "('s \<Rightarrow> 'u state) \<Rightarrow> ('s \<times> 'u world) option \<Rightarrow> 'u world option" where
  "run_state C r = do { (self, w) \<leftarrow> r; Some (put_state (C self) w) }"

fun state_ready :: "'u::linorder env \<Rightarrow> ready \<Rightarrow> 'u state \<Rightarrow> 'u world \<Rightarrow> 'u world option" where
  "state_ready E kind (StActive s) w = run_state StActive (ac_ready E kind s w)"
| "state_ready E kind (StCandidate s) w = run_state StCandidate (cand_ready E (cand_fin E) kind s w)"
| "state_ready E kind (StConnectEx s) w = run_state StConnectEx (cex_ready E connect_ex_fin kind s w)"
| "state_ready E kind (StConnect s) w = run_state StConnect (connect_ready kind s w)"
| "state_ready E kind (StReach s) w = run_state StReach (reach_ready (lex_reach_fin E) kind s w)"
| "state_ready E kind (StListenEx s) w = run_state StListenEx (lex_ready E kind s w)"
| "state_ready E kind (StListener s) w = run_state StListener (Some (listener_ready kind s w))"
| "state_ready E kind (StTryPeer s) w = run_state StTryPeer (try_peer_ready E (bs_try_peer_fin E) kind s w)"
| "state_ready E kind (StGetExtAddr s) w =
     run_state StGetExtAddr (get_ext_ready E (mapped_stun_fin mapped_fin) kind s w)"
| "state_ready E kind (StServiceDisc s) w = run_state StServiceDisc (Some (sd_ready E kind s w))"
| "state_ready E kind (StBootstrap s) w = Some w"
| "state_ready E kind (StMapped s) w = Some w"
| "state_ready E kind (StRefresher s) w = Some w"

fun state_timeout :: "'u env \<Rightarrow> nat \<Rightarrow> 'u state \<Rightarrow> 'u world \<Rightarrow> 'u world option" where
  "state_timeout E tid (StActive s) w = run_state StActive (ac_timeout E tid s w)"
| "state_timeout E tid (StConnect s) w = run_state StConnect (connect_timeout s w)"
| "state_timeout E tid (StReach s) w = run_state StReach (reach_timeout (lex_reach_fin E) s w)"
| "state_timeout E tid (StListenEx s) w = run_state StListenEx (lex_timeout s w)"
| "state_timeout E tid (StBootstrap s) w = run_state StBootstrap (bootstrap_timeout E tid s w)"
| "state_timeout E tid (StMapped s) w = run_state StMapped (mapped_timeout mapped_fin s w)"
| "state_timeout E tid (StRefresher s) w = run_state StRefresher (Some (refresher_timeout E s w))"
| "state_timeout E tid _ w = Some w"

fun state_terminate :: "'u state \<Rightarrow> 'u world \<Rightarrow> 'u world option" where
  "state_terminate (StActive s) w = Some (snd (ac_terminate s w))"
| "state_terminate (StCandidate s) w = Some (snd (cand_terminate s w))"
| "state_terminate (StConnectEx s) w = Some (snd (cex_terminate s w))"
| "state_terminate (StConnect s) w = map_option snd (connect_terminate s w)"
| "state_terminate (StReach s) w = Some (snd (reach_terminate s w))"
| "state_terminate (StListenEx s) w = map_option snd (lex_terminate s w)"
| "state_terminate (StListener s) w = Some (snd (listener_terminate s w))"
| "state_terminate (StTryPeer s) w = Some (snd (try_peer_terminate s w))"
| "state_terminate (StBootstrap s) w = map_option snd (bs_terminate s w)"
| "state_terminate (StGetExtAddr s) w = Some (snd (get_ext_terminate s w))"
| "state_terminate (StMapped s) w = map_option snd (mapped_terminate mapped_fin s w)"
| "state_terminate (StServiceDisc s) w = Some (snd (sd_terminate s w))"
| "state_terminate (StRefresher s) w = Some (refresher_terminate s w)"

fun state_write :: "'u env \<Rightarrow> byte list \<Rightarrow> priority \<Rightarrow> 'u state \<Rightarrow> 'u world \<Rightarrow> 'u world option" where
  "state_write E data p (StActive s) w = run_state StActive (ac_state_write E data p s w)"
| "state_write E data p _ w = Some w"

definition handle_event :: "'u::linorder env \<Rightarrow> token \<Rightarrow> ready \<Rightarrow> 'u world \<Rightarrow> 'u world option" where
  "handle_event E t kind w =
     (case get_state t w of None \<Rightarrow> Some w | Some s \<Rightarrow> state_ready E kind s w)"

text \<open>
  \<open>handle_timer\<close>: the list holds what successive calls of the timer's \<open>poll\<close> yield. The timer
  yields only what is still armed, so an entry that an earlier handler cancelled is skipped.
\<close>

definition fire :: "'u env \<Rightarrow> core_timer \<Rightarrow> 'u world \<Rightarrow> 'u world option" where
  "fire E ct w =
     (case get_state (state_id ct) w of None \<Rightarrow> Some w | Some s \<Rightarrow> state_timeout E (timer_id ct) s w)"

fun fire_all :: "'u env \<Rightarrow> timeout list \<Rightarrow> 'u world \<Rightarrow> 'u world option" where
  "fire_all E [] w = Some w"
| "fire_all E (x # xs) w =
     (case w_timers w x of
        None \<Rightarrow> fire_all E xs w
      | Some (ct, deadline) \<Rightarrow> do { w \<leftarrow> fire E ct (cancel_timeout x w); fire_all E xs w })"

definition handle_timer :: "'u env \<Rightarrow> ready \<Rightarrow> timeout list \<Rightarrow> 'u world \<Rightarrow> 'u world option" where
  "handle_timer E kind due w = (if \<not> is_readable kind then Some w else fire_all E due w)"

section \<open>Accounting\<close>

text \<open>
  The events under which the accounting is kept. Each condition excludes a situation in which the
  code miscounts.
\<close>

definition one_kind :: "ready \<Rightarrow> bool" where
  "one_kind kind \<longleftrightarrow> \<not> (is_readable kind \<and> is_writable kind) \<or> is_error kind \<or> is_hup kind"

definition undecided_parent :: "'u reach_check \<Rightarrow> 'u world \<Rightarrow> bool" where
  "undecided_parent s w \<longleftrightarrow>
     (\<forall>c. w_states w (cr_parent s) = Some (StListenEx c) \<longrightarrow> le_next_state c = NsNone)"

definition unknown_grant :: "'u env \<Rightarrow> 'u try_peer \<Rightarrow> 'u world \<Rightarrow> bool" where
  "unknown_grant E s w \<longleftrightarrow>
     (\<forall>u so. socket_read (e_des E) (tp_socket s) = (Inr (Some (BootstrapGranted u)), so) \<longrightarrow> w_cm w u = None)"

fun clean_ready :: "'u env \<Rightarrow> ready \<Rightarrow> 'u state \<Rightarrow> 'u world \<Rightarrow> bool" where
  "clean_ready E kind (StCandidate s) w = one_kind kind"
| "clean_ready E kind (StConnectEx s) w = one_kind kind"
| "clean_ready E kind (StReach s) w = undecided_parent s w"
| "clean_ready E kind (StListenEx s) w \<longleftrightarrow>
     one_kind kind \<and> (is_readable kind \<and> \<not> is_error kind \<and> \<not> is_hup kind \<longrightarrow> le_next_state s = NsNone)"
| "clean_ready E kind (StTryPeer s) w \<longleftrightarrow>
     (\<not> (is_readable kind \<and> is_writable kind) \<or> is_error kind) \<and> unknown_grant E s w"
| "clean_ready E kind (StGetExtAddr s) w = one_kind kind"
| "clean_ready E kind _ w = True"

fun clean_timeout :: "'u state \<Rightarrow> 'u world \<Rightarrow> bool" where
  "clean_timeout (StReach s) w = undecided_parent s w"
| "clean_timeout _ w = True"

lemma run_stateD: "run_state C r = Some w' \<Longrightarrow> \<exists>x. r = Some x \<and> w' = put_state (C (fst x)) (snd x)"
  by (auto simp: run_state_def split: bind_splits)

lemma state_ready_sys:
  assumes "sys {} no_debt w" and "w_states w t = Some s" and "state_ready E kind s w = Some w'"
    and "clean_ready E kind s w" and "w_token_counter w < 2 ^ 64" and "w_token_counter w' < 2 ^ 64"
  shows "sys {} no_debt w'"
proof -
  have tok: "state_token s = t" using acctD(5) [OF sysD(1) [OF assms(1)] assms(2)] .
  show ?thesis
  proof (cases s)
    case (StActive x)
    with assms(2,3) show ?thesis
      by (auto dest!: run_stateD intro!: sys_ac_handler [OF assms(1)] ac_keeps_ready)
  next
    case (StCandidate x)
    have "cand_self x w" using assms(2) StCandidate tok by (simp add: cand_self_def)
    with StCandidate assms(3,4) show ?thesis
      by (auto simp: one_kind_def dest!: run_stateD intro!: sys_cand_put chosen.ready_keeps [OF assms(1)])
  next
    case (StConnectEx x)
    have "cex_self x w" using assms(2) StConnectEx tok by (simp add: cex_self_def)
    with StConnectEx assms(3,4) show ?thesis
      by (auto simp: one_kind_def dest!: run_stateD intro!: sys_cex_put connect_attempt.ready_keeps [OF assms(1)])
  next
    case (StConnect x)
    with assms(2,3,6) show ?thesis
      by (auto dest!: run_stateD intro!: sys_connect_ready [OF assms(1)])
  next
    case (StReach x)
    with assms(2,3,4,5) show ?thesis
      by (auto simp: undecided_parent_def dest!: run_stateD intro!: sys_reach_event [OF assms(1)])
  next
    case (StListenEx x)
    have "lex_self x w" using assms(2) StListenEx tok by (simp add: lex_self_def)
    with StListenEx assms(3,4,5) show ?thesis
      by (auto simp: one_kind_def dest!: run_stateD intro!: sys_lex_put lex_ready_keeps [OF assms(1)])
  next
    case (StListener x)
    with assms(2,3) sys_listener_ready [OF assms(1), of t x kind] show ?thesis
      by (auto dest!: run_stateD)
  next
    case (StTryPeer x)
    with assms(2,3,4) show ?thesis
      by (auto simp: unknown_grant_def dest!: run_stateD intro!: sys_try_peer_ready [OF assms(1)])
  next
    case (StGetExtAddr x)
    with assms(2,3,4) show ?thesis
      by (auto simp: one_kind_def dest!: run_stateD intro!: mapping.get_ext_ready_sys [OF assms(1)])
  next
    case (StServiceDisc x)
    with assms(2,3) sys_sd_handler [OF assms(1) _ sd_ready_keeps, of t x E kind] show ?thesis
      by (auto dest!: run_stateD)
  qed (use assms in auto)
qed

lemma state_timeout_sys:
  assumes "sys {} no_debt w" and "w_states w t = Some s" and "state_timeout E tid s w = Some w'"
    and "clean_timeout s w" and "w_token_counter w < 2 ^ 64"
  shows "sys {} no_debt w'"
proof -
  have tok: "state_token s = t" using acctD(5) [OF sysD(1) [OF assms(1)] assms(2)] .
  show ?thesis
  proof (cases s)
    case (StActive x)
    with assms(2,3) show ?thesis
      by (auto dest!: run_stateD intro!: sys_ac_handler [OF assms(1)] ac_keeps_timeout)
  next
    case (StConnect x)
    with assms(2,3) show ?thesis
      by (auto dest!: run_stateD intro!: sys_connect_timeout [OF assms(1)])
  next
    case (StReach x)
    with assms(2,3,4,5) show ?thesis
      by (auto simp: undecided_parent_def dest!: run_stateD intro!: sys_reach_event [OF assms(1)])
  next
    case (StListenEx x)
    have "lex_self x w" using assms(2) StListenEx tok by (simp add: lex_self_def)
    with StListenEx assms(3) show ?thesis
      by (auto simp: lex_timeout_def dest!: run_stateD intro!: sys_lex_put lex_terminate_keeps [OF assms(1)])
  next
    case (StBootstrap x)
    with assms(2,3) show ?thesis
      by (auto dest!: run_stateD intro!: sys_bootstrap_timeout [OF assms(1)])
  next
    case (StMapped x)
    with assms(2,3) show ?thesis
      by (auto dest!: run_stateD intro!: mapping.mapped_event_sys [OF assms(1)])
  next
    case (StRefresher x)
    with assms(2,3) show ?thesis
      by (auto dest!: run_stateD intro!: sys_refresher_timeout [OF assms(1)])
  qed (use assms in auto)
qed

text \<open>Termination from outside (\<open>Service::disconnect\<close>, \<open>stop_bootstrap\<close>, \<open>stop_tcp_listener\<close>) is always fine.\<close>

lemma state_terminate_sys:
  assumes "sys {} no_debt w" and "w_states w t = Some s" and "state_terminate s w = Some w'"
  shows "sys {} no_debt w'"
proof -
  have tok: "state_token s = t" using acctD(5) [OF sysD(1) [OF assms(1)] assms(2)] .
  have kid: ?thesis if "terminate_kid s w = state_terminate s w"
    using terminate_kid_ok [OF assms(1,2)] assms(3) that by simp
  show ?thesis
  proof (cases s)
    case (StConnect x)
    with assms(2,3) tok obtain x' where c: "connect_terminate x w = Some (x', w')" by auto
    have "sys {} no_debt (put_state (StConnect x') w')"
      using sys_connect_timeout [OF assms(1), of t x "(x', w')"] assms(2) StConnect c
      by (simp add: connect_timeout_def)
    moreover have "w_states w' (cn_token x') = None"
      using c by (auto simp: connect_terminate_def Let_def split: bind_splits)
    ultimately show ?thesis by (simp add: put_state_def get_state_def)
  next
    case (StListenEx x)
    then have self: "lex_self x w" using assms(2) tok by (simp add: lex_self_def)
    from StListenEx assms(3) obtain x' where "lex_terminate x w = Some (x', w')" by auto
    from lex_terminate_keeps [OF assms(1) self this] show ?thesis
      by (simp add: lex_keeps_def)
  next
    case (StListener x)
    with assms tok sys_plain_remove [OF assms(1), of t] show ?thesis
      by (auto simp: listener_terminate_def)
  next
    case (StBootstrap x)
    with assms(3) obtain x' where b: "bs_terminate x w = Some (x', w')" by auto
    show ?thesis
      by (rule bs_terminate_ok(1) [OF assms(1) b]) (use assms(2) StBootstrap tok in simp)
  next
    case (StMapped x)
    with assms(3) obtain x' where b: "mapped_terminate mapped_fin x w = Some (x', w')" by auto
    show ?thesis
      using mapping.terminate_sys [OF assms(1) b] assms(2) StMapped tok by simp
  next
    case (StServiceDisc x)
    with assms tok sys_plain_remove [OF assms(1), of t] show ?thesis
      by (auto simp: sd_terminate_def)
  next
    case (StRefresher x)
    have "sys {} no_debt (cancel_timeout (rf_timeout x) w)" using assms(1) by simp
    from sys_plain_remove [OF this, of t] StRefresher assms tok show ?thesis
      by (auto simp: refresher_terminate_def)
  qed (use kid in simp_all)
qed

lemma state_write_sys:
  assumes "sys {} no_debt w" and "w_states w t = Some s" and "state_write E data p s w = Some w'"
  shows "sys {} no_debt w'"
  using assms
  by (cases s) (auto dest!: run_stateD intro!: sys_ac_handler [OF assms(1)] ac_keeps_state_write)

text \<open>A timer event: every timer that fires finds a state for which that is fine.\<close>

fun clean_fires :: "'u env \<Rightarrow> timeout list \<Rightarrow> 'u world \<Rightarrow> bool" where
  "clean_fires E [] w = True"
| "clean_fires E (x # xs) w =
     (case w_timers w x of
        None \<Rightarrow> clean_fires E xs w
      | Some (ct, _) \<Rightarrow>
          (let w1 = cancel_timeout x w in
           (case w_states w (state_id ct) of None \<Rightarrow> True | Some s \<Rightarrow> clean_timeout s w1) \<and>
           w_token_counter w < 2 ^ 64 \<and>
           (case fire E ct w1 of None \<Rightarrow> True | Some w2 \<Rightarrow> clean_fires E xs w2)))"

lemma fire_all_sys:
  assumes "sys {} no_debt w" and "fire_all E xs w = Some w'" and "clean_fires E xs w"
  shows "sys {} no_debt w'"
  using assms
proof (induction xs arbitrary: w)
  case (Cons x xs)
  show ?case
  proof (cases "w_timers w x")
    case None
    with Cons show ?thesis by simp
  next
    case (Some p)
    obtain ct dl where p: "p = (ct, dl)" by fastforce
    let ?w = "cancel_timeout x w"
    have s: "sys {} no_debt ?w" using Cons.prems(1) by simp
    from Cons.prems(2) Some p obtain w1 where w1: "fire E ct ?w = Some w1" "fire_all E xs w1 = Some w'"
      by (auto split: bind_splits)
    have "sys {} no_debt w1"
    proof (cases "w_states w (state_id ct)")
      case None
      with w1(1) s show ?thesis by (simp add: fire_def get_state_def)
    next
      case st: (Some st)
      with w1(1) have "state_timeout E (timer_id ct) st ?w = Some w1" by (simp add: fire_def get_state_def)
      from state_timeout_sys [OF s _ this, of "state_id ct"] st Cons.prems(3) Some p show ?thesis
        by (simp add: Let_def)
    qed
    then show ?thesis
      by (rule Cons.IH [OF _ w1(2)]) (use Cons.prems(3) Some p w1(1) in \<open>simp add: Let_def\<close>)
  qed
qed simp

end
