(* ===== verification/Service.thy ===== *)
theory Service
  imports Dispatch
begin

text \<open>
  \<open>src/main/service.rs\<close>: the interface of the library. A method runs in the caller's thread: it reads
  what it shares with the event loop (connection map, configuration, listener addresses) and posts a
  message to the loop. The messages are closures in the source; here they are the constructors of
  \<open>core_msg\<close>, and \<open>exec_msg\<close> is what they do when the loop runs them. A method that waits for an
  answer has two halves: the request, and the result as a function of the answers that the closure
  sent before its channel was dropped.
\<close>

section \<open>The service\<close>

record 'u service =
  sv_name_hash :: name_hash
  sv_our_uid :: 'u

definition SERVICE_DISCOVERY_DEFAULT_PORT :: u16 where
  "SERVICE_DISCOVERY_DEFAULT_PORT = 5484"

definition DISABLE_NAT :: bool where
  "DISABLE_NAT = True"

text \<open>\<open>sha3\<close> is the hash function of the keccak crate, on the bytes of the name.\<close>

definition name_hash :: "(string \<Rightarrow> byte list) \<Rightarrow> string option \<Rightarrow> name_hash" where
  "name_hash sha3 net_name = (case net_name of Some name \<Rightarrow> sha3 name | None \<Rightarrow> replicate HASH_SIZE 0)"

text \<open>\<open>EventLoop::send\<close> and \<open>Service::post\<close>.\<close>

definition post :: "'u core_msg \<Rightarrow> 'u world \<Rightarrow> (crust_error + unit) \<times> 'u world" where
  "post m w = (if w_running w then (Inr (), w\<lparr>w_msgs := w_msgs w @ [m]\<rparr>) else (Inl CrustCoreMsgTx, w))"

definition send_reply :: "reply \<Rightarrow> 'u world \<Rightarrow> 'u world" where
  "send_reply r w = w\<lparr>w_replies := w_replies w @ [r]\<rparr>"

text \<open>
  \<open>spawn_event_loop\<close>: the channel and the timer take the two tokens after the reserved ones. The
  first error of the poll is \<open>p\<close>. The fields of \<open>w\<close> that the core does not own are the world
  outside.
\<close>

definition USER_TOKEN_OFFSET :: nat where
  "USER_TOKEN_OFFSET = 2"

definition spawn_event_loop :: "io_error option \<Rightarrow> nat \<Rightarrow> 'u world \<Rightarrow> common_error + 'u world" where
  "spawn_event_loop p token_counter_start w =
     (case p of
        Some e \<Rightarrow> Inl (CommonIo e)
      | None \<Rightarrow>
          Inr (w\<lparr>w_token_counter := token_counter_start + USER_TOKEN_OFFSET, w_states := Map.empty,
                 w_timers := Map.empty, w_next_timeout := 0, w_running := True, w_msgs := [], w_igd := []\<rparr>))"

text \<open>\<open>start_config_refresher\<close>: the request, the closure, the result.\<close>

definition start_config_refresher :: "'u world \<Rightarrow> (crust_error + unit) \<times> 'u world" where
  "start_config_refresher w = post MsgStartConfigRefresher w"

definition recv_unit :: "reply list \<Rightarrow> crust_error + unit" where
  "recv_unit replies = (case replies of ReplyUnit r # _ \<Rightarrow> r | _ \<Rightarrow> Inl ChannelRecv)"

definition msg_start_config_refresher :: "'u world \<Rightarrow> 'u world" where
  "msg_start_config_refresher w =
     (let w = (if get_state CONFIG_REFRESHER_TOKEN w = None then
                 (case refresher_start CONFIG_REFRESHER_TOKEN w of (r, w) \<Rightarrow> send_reply (ReplyUnit r) w)
               else w)
      in send_reply (ReplyUnit (Inr ())) w)"

text \<open>\<open>with_config\<close> and \<open>new\<close>, up to the wait for the refresher; the interfaces and the search for
  gateways are those of \<open>mapping_context_new\<close>.\<close>

definition with_config ::
    "(string \<Rightarrow> byte list) \<Rightarrow> io_error + network_interface list \<Rightarrow> (ipv4_addr \<Rightarrow> gateway option) \<Rightarrow> io_error option \<Rightarrow>
     config \<Rightarrow> 'u \<Rightarrow> 'u world \<Rightarrow> crust_error + 'u service \<times> 'u world" where
  "with_config sha3 ifs search p config our_uid w =
     (let nh = name_hash sha3 (network_name config) in
      case mapping_context_new ifs search of
        Inl e \<Rightarrow> Inl (Nat e)
      | Inr mc \<Rightarrow>
          (let mc = mapping_add_peer_stuns (hard_coded_contacts config) mc in
           case spawn_event_loop p FIRST_TOKEN w of
             Inl e \<Rightarrow> Inl (Common e)
           | Inr w \<Rightarrow>
               (let w = w\<lparr>w_cm := Map.empty, w_config := config_wrapper_new config, w_mc := mc,
                          w_our_listeners := []\<rparr>
                in
                case start_config_refresher w of
                  (Inl e, w) \<Rightarrow> Inl e
                | (Inr _, w) \<Rightarrow> Inr (\<lparr>sv_name_hash = nh, sv_our_uid = our_uid\<rparr>, w))))"

definition service_new ::
    "(string \<Rightarrow> byte list) \<Rightarrow> io_error + network_interface list \<Rightarrow> (ipv4_addr \<Rightarrow> gateway option) \<Rightarrow> io_error option \<Rightarrow>
     'u \<Rightarrow> 'u world \<Rightarrow> crust_error + 'u service \<times> 'u world" where
  "service_new sha3 ifs search p our_uid w =
     (case read_config_file w of
        (Inl e, w) \<Rightarrow> Inl e
      | (Inr config, w) \<Rightarrow> with_config sha3 ifs search p config our_uid w)"

section \<open>Listener and discovery\<close>

definition set_accept_bootstrap :: "bool \<Rightarrow> 'u world \<Rightarrow> 'u world" where
  "set_accept_bootstrap accept w = snd (post (MsgSetAcceptBootstrap accept) w)"

text \<open>When the token holds something else the channel is dropped without an answer.\<close>

definition msg_set_accept_bootstrap :: "bool \<Rightarrow> 'u world \<Rightarrow> 'u world" where
  "msg_set_accept_bootstrap accept w =
     (case get_state LISTENER_TOKEN w of
        None \<Rightarrow> send_reply (ReplyUnit (Inl ListenerNotIntialised)) w
      | Some (StListener l) \<Rightarrow>
          send_reply (ReplyUnit (Inr ()))
            (put_state (StListener (listener_set_accept_bootstrap accept l)) w)
      | Some _ \<Rightarrow> w)"

definition start_service_discovery :: "'u world \<Rightarrow> 'u world" where
  "start_service_discovery w =
     (let port = case_option SERVICE_DISCOVERY_DEFAULT_PORT id (service_discovery_port (cfg (w_config w)))
      in snd (post (MsgStartServiceDiscovery port) w))"

definition msg_start_service_discovery :: "'u env \<Rightarrow> u16 \<Rightarrow> 'u world \<Rightarrow> 'u world" where
  "msg_start_service_discovery E port w =
     (if get_state SERVICE_DISCOVERY_TOKEN w = None then snd (sd_start E SERVICE_DISCOVERY_TOKEN port w) else w)"

definition set_service_discovery_listen :: "bool \<Rightarrow> 'u world \<Rightarrow> 'u world" where
  "set_service_discovery_listen listen w = snd (post (MsgSetServiceDiscoveryListen listen) w)"

definition msg_set_service_discovery_listen :: "bool \<Rightarrow> 'u world \<Rightarrow> 'u world" where
  "msg_set_service_discovery_listen listen w =
     (case get_state SERVICE_DISCOVERY_TOKEN w of
        Some (StServiceDisc sd) \<Rightarrow> put_state (StServiceDisc (sd_set_listen listen sd)) w
      | _ \<Rightarrow> w)"

definition has_peers_on_lan :: "'u world \<Rightarrow> nat \<times> 'u world" where
  "has_peers_on_lan w = (case new_channel w of (obs, w) \<Rightarrow> (obs, snd (post (MsgSeekPeers obs) w)))"

definition has_peers_on_lan_result :: "nat \<Rightarrow> 'u world \<Rightarrow> bool \<times> 'u world" where
  "has_peers_on_lan_result rx w =
     ((case w_chans w rx of Some (_ # _) \<Rightarrow> True | _ \<Rightarrow> False), drop_receiver rx w)"

definition msg_seek_peers :: "nat \<Rightarrow> 'u world \<Rightarrow> 'u world" where
  "msg_seek_peers obs w =
     (case get_state SERVICE_DISCOVERY_TOKEN w of
        Some (StServiceDisc sd) \<Rightarrow>
          put_state (StServiceDisc (snd (sd_seek_peers (sd_register_observer obs sd)))) w
      | _ \<Rightarrow> w)"

definition start_listening_tcp :: "'u service \<Rightarrow> 'u world \<Rightarrow> (crust_error + unit) \<times> 'u world" where
  "start_listening_tcp self w =
     (let port = case_option 0 id (tcp_acceptor_port (cfg (w_config w)));
          force_include_port = force_acceptor_port_in_ext_ep (cfg (w_config w))
      in post (MsgStartListener port force_include_port (sv_our_uid self) (sv_name_hash self)) w)"

definition msg_start_listener :: "u16 \<Rightarrow> bool \<Rightarrow> 'u \<Rightarrow> name_hash \<Rightarrow> 'u world \<Rightarrow> 'u world option" where
  "msg_start_listener port force our_uid nh w =
     (if get_state LISTENER_TOKEN w = None then listener_start None port force our_uid nh w else Some w)"

definition stop_tcp_listener :: "'u world \<Rightarrow> (crust_error + unit) \<times> 'u world" where
  "stop_tcp_listener w = post (MsgTerminate LISTENER_TOKEN) w"

text \<open>The closure of \<open>stop_tcp_listener\<close>, \<open>stop_bootstrap\<close> and \<open>disconnect\<close>.\<close>

definition msg_terminate :: "token \<Rightarrow> 'u world \<Rightarrow> 'u world option" where
  "msg_terminate tok w = (case get_state tok w of None \<Rightarrow> Some w | Some s \<Rightarrow> state_terminate s w)"

section \<open>Bootstrapping\<close>

definition start_bootstrap ::
    "socket_addr set \<Rightarrow> crust_user \<Rightarrow> 'u service \<Rightarrow> 'u world \<Rightarrow> (crust_error + unit) \<times> 'u world" where
  "start_bootstrap blacklist user self w =
     (let ext_reachability = (case user of Node \<Rightarrow> Required (w_our_listeners w) | Client \<Rightarrow> NotRequired)
      in post (MsgStartBootstrap (sv_name_hash self) ext_reachability (sv_our_uid self) blacklist) w)"

definition msg_start_bootstrap ::
    "'u env \<Rightarrow> name_hash \<Rightarrow> external_reachability \<Rightarrow> 'u \<Rightarrow> socket_addr set \<Rightarrow> 'u world \<Rightarrow> 'u world option" where
  "msg_start_bootstrap E nh ext our_uid blacklist w =
     (if get_state BOOTSTRAP_TOKEN w = None then
        do { (r, w) \<leftarrow> bs_start E nh ext our_uid blacklist BOOTSTRAP_TOKEN w;
             Some (case r of Inl e \<Rightarrow> send_event BootstrapFailed w | Inr _ \<Rightarrow> w) }
      else Some w)"

definition stop_bootstrap :: "'u world \<Rightarrow> (crust_error + unit) \<times> 'u world" where
  "stop_bootstrap w = post (MsgTerminate BOOTSTRAP_TOKEN) w"

section \<open>Connections\<close>

definition get_peer_socket_addr :: "'u \<Rightarrow> 'u world \<Rightarrow> (crust_error + unit) \<times> 'u world" where
  "get_peer_socket_addr peer_uid w =
     (case cm_active (w_cm w) peer_uid of
        None \<Rightarrow> (Inl PeerNotFound, w)
      | Some tok \<Rightarrow> (Inr (), snd (post (MsgGetPeerAddr tok) w)))"

definition recv_addr :: "reply list \<Rightarrow> crust_error + socket_addr" where
  "recv_addr replies =
     (case replies of
        ReplyAddr (Some r) # _ \<Rightarrow> r
      | ReplyAddr None # _ \<Rightarrow> Inl PeerNotFound
      | _ \<Rightarrow> Inl ChannelRecv)"

definition msg_get_peer_addr :: "token \<Rightarrow> 'u world \<Rightarrow> 'u world" where
  "msg_get_peer_addr tok w =
     (case get_state tok w of
        None \<Rightarrow> send_reply (ReplyAddr None) w
      | Some (StActive a) \<Rightarrow> send_reply (ReplyAddr (Some (ac_peer_addr a))) w
      | Some _ \<Rightarrow> send_reply (ReplyAddr None) w)"

text \<open>\<open>get_peer_ip_addr\<close> and \<open>is_peer_hard_coded\<close>, from the result of \<open>get_peer_socket_addr\<close>.\<close>

definition get_peer_ip_addr :: "crust_error + socket_addr \<Rightarrow> crust_error + ip_addr" where
  "get_peer_ip_addr r = map_sum id sa_ip r"

definition is_peer_hard_coded :: "crust_error + socket_addr \<Rightarrow> 'u world \<Rightarrow> bool" where
  "is_peer_hard_coded r w =
     (case r of
        Inr s \<Rightarrow> list_ex (\<lambda>addr. sa_ip addr = sa_ip s) (hard_coded_contacts (cfg (w_config w)))
      | Inl e \<Rightarrow> False)"

definition connect ::
    "'u priv_connection_info \<Rightarrow> 'u pub_connection_info \<Rightarrow> 'u service \<Rightarrow> 'u world
       \<Rightarrow> (crust_error + unit) \<times> 'u world" where
  "connect our_ci their_ci self w =
     (if pub_id their_ci = sv_our_uid self then (Inl RequestedConnectToSelf, w)
      else if w_cm w (pub_id their_ci) \<noteq> None then (Inr (), w)
      else
        (let their_ci =
               (case whitelisted_node_ips (cfg (w_config w)) of
                  None \<Rightarrow> their_ci
                | Some ips \<Rightarrow>
                    their_ci\<lparr>pub_for_direct := filter (\<lambda>s. sa_ip s \<in> ips) (pub_for_direct their_ci),
                             pub_for_hole_punch := filter (\<lambda>s. sa_ip s \<in> ips) (pub_for_hole_punch their_ci)\<rparr>)
         in post (MsgConnect our_ci their_ci (sv_name_hash self)) w))"

definition msg_connect ::
    "'u priv_connection_info \<Rightarrow> 'u pub_connection_info \<Rightarrow> name_hash \<Rightarrow> 'u world \<Rightarrow> 'u world option" where
  "msg_connect our_ci their_ci nh w = map_option snd (connect_start our_ci their_ci nh w)"

definition disconnect :: "'u \<Rightarrow> 'u world \<Rightarrow> bool \<times> 'u world" where
  "disconnect peer_uid w =
     (case cm_active (w_cm w) peer_uid of
        None \<Rightarrow> (False, w)
      | Some tok \<Rightarrow> (True, snd (post (MsgTerminate tok) w)))"

definition send :: "'u \<Rightarrow> byte list \<Rightarrow> priority \<Rightarrow> 'u world \<Rightarrow> (crust_error + unit) \<times> 'u world" where
  "send peer_uid msg p w =
     (case cm_active (w_cm w) peer_uid of
        None \<Rightarrow> (Inl PeerNotFound, w)
      | Some tok \<Rightarrow> post (MsgSend tok msg p) w)"

definition msg_send :: "'u env \<Rightarrow> token \<Rightarrow> byte list \<Rightarrow> priority \<Rightarrow> 'u world \<Rightarrow> 'u world option" where
  "msg_send E tok msg p w = (case get_state tok w of None \<Rightarrow> Some w | Some s \<Rightarrow> state_write E msg p s w)"

text \<open>The branch with NAT traversal is compiled in but switched off.\<close>

definition prepare_connection_info :: "u32 \<Rightarrow> 'u service \<Rightarrow> 'u world \<Rightarrow> 'u world" where
  "prepare_connection_info rtok self w =
     (if DISABLE_NAT then
        send_event (ConnectionInfoPrepared \<lparr>result_token = rtok,
          conn_info_result = Inr \<lparr>priv_id = sv_our_uid self, priv_for_direct = w_our_listeners w,
            priv_for_hole_punch = [], priv_hole_punch_socket = None\<rparr>\<rparr>) w
      else
        (case post (MsgPrepareInfo rtok (sv_our_uid self) (w_our_listeners w)) w of
           (Inr _, w) \<Rightarrow> w
         | (Inl e, w) \<Rightarrow>
             send_event (ConnectionInfoPrepared \<lparr>result_token = rtok, conn_info_result = Inl e\<rparr>) w))"

definition msg_prepare_info :: "u32 \<Rightarrow> 'u \<Rightarrow> socket_addr list \<Rightarrow> 'u world \<Rightarrow> 'u world option" where
  "msg_prepare_info rtok our_uid listeners w =
     do { (r, w) \<leftarrow> mapped_start mapped_fin 0 (MfConnInfo rtok our_uid listeners) w;
          Some (case r of
                  Inr _ \<Rightarrow> w
                | Inl e \<Rightarrow>
                    send_event (ConnectionInfoPrepared
                      \<lparr>result_token = rtok, conn_info_result = Inl (Nat e)\<rparr>) w) }"

text \<open>The closure that the thread of a gateway posts (\<open>mapped_tcp_socket/mod.rs\<close>).\<close>

definition msg_igd_resp :: "token \<Rightarrow> socket_addr \<Rightarrow> 'u world \<Rightarrow> 'u world option" where
  "msg_igd_resp tok ext_addr w =
     (case get_state tok w of
        Some (StMapped m) \<Rightarrow> run_state StMapped (mapped_handle_igd_resp mapped_fin ext_addr m w)
      | _ \<Rightarrow> Some w)"

definition is_connected :: "'u \<Rightarrow> 'u world \<Rightarrow> bool" where
  "is_connected peer_uid w \<longleftrightarrow> cm_active (w_cm w) peer_uid \<noteq> None"

definition service_id :: "'u service \<Rightarrow> 'u" where
  "service_id self = sv_our_uid self"

section \<open>Running a message\<close>

fun exec_msg :: "'u env \<Rightarrow> 'u core_msg \<Rightarrow> 'u world \<Rightarrow> 'u world option" where
  "exec_msg E MsgStartConfigRefresher w = Some (msg_start_config_refresher w)"
| "exec_msg E (MsgSetAcceptBootstrap b) w = Some (msg_set_accept_bootstrap b w)"
| "exec_msg E (MsgStartServiceDiscovery port) w = Some (msg_start_service_discovery E port w)"
| "exec_msg E (MsgSetServiceDiscoveryListen b) w = Some (msg_set_service_discovery_listen b w)"
| "exec_msg E (MsgGetPeerAddr t) w = Some (msg_get_peer_addr t w)"
| "exec_msg E (MsgSeekPeers ch) w = Some (msg_seek_peers ch w)"
| "exec_msg E (MsgStartBootstrap nh ext u bl) w = msg_start_bootstrap E nh ext u bl w"
| "exec_msg E (MsgTerminate t) w = msg_terminate t w"
| "exec_msg E (MsgStartListener port force u nh) w = msg_start_listener port force u nh w"
| "exec_msg E (MsgConnect our their nh) w = msg_connect our their nh w"
| "exec_msg E (MsgSend t msg p) w = msg_send E t msg p w"
| "exec_msg E (MsgPrepareInfo r u ls) w = msg_prepare_info r u ls w"
| "exec_msg E (MsgIgdResp t a) w = msg_igd_resp t a w"
| "exec_msg E MsgExit w = Some w"

section \<open>Accounting\<close>

lemma service_frame [simp]:
  "sys P d (send_reply r w) = sys P d w"
  "sys P d (snd (post m w)) = sys P d w"
  "w_states (send_reply r w) = w_states w"
  "w_token_counter (send_reply r w) = w_token_counter w"
proof -
  show "w_states (send_reply r w) = w_states w" "w_token_counter (send_reply r w) = w_token_counter w"
    by (simp_all add: send_reply_def)
  show "sys P d (send_reply r w) = sys P d w"
    by (rule iffI; rule sys_cong [rotated 4], assumption) (simp_all add: send_reply_def)
  show "sys P d (snd (post m w)) = sys P d w"
    by (rule iffI; rule sys_cong [rotated 4], assumption) (simp_all add: post_def)
qed

lemma sys_refresher_start [acct]:
  assumes "sys {} no_debt w"
  shows "sys {} no_debt (snd (refresher_start CONFIG_REFRESHER_TOKEN w))"
proof -
  obtain r w1 where t: "set_timeout (REFRESH_INTERVAL_SEC * 1000) (CoreTimer CONFIG_REFRESHER_TOKEN 0) w = (r, w1)"
    by fastforce
  have s: "sys {} no_debt w1" using sys_frame(4) [OF assms] t by (metis snd_conv)
  have "sys {} no_debt (insert_state CONFIG_REFRESHER_TOKEN (StRefresher x) w1)"
    if "rf_token x = CONFIG_REFRESHER_TOKEN" for x
    by (rule sys_insert_reserved [OF s])
      (use that in \<open>simp_all add: CONFIG_REFRESHER_TOKEN_def FIRST_TOKEN_def reserved_def\<close>)
  with s show ?thesis
    by (simp add: refresher_start_def t Let_def split: sum.split)
qed

lemma sys_sd_start [acct]:
  assumes "sys {} no_debt w"
  shows "sys {} no_debt (snd (sd_start E SERVICE_DISCOVERY_TOKEN port w))"
proof -
  obtain r w1 where g: "get_socket port w = (r, w1)" by fastforce
  have s: "sys {} no_debt w1" by (rule sys_quiet [OF get_socket_quiet [OF g] assms])
  have s2: "sys {} no_debt (w1\<lparr>w_rand := x\<rparr>)" for x
    by (rule sys_cong [OF _ _ _ _ s]) simp_all
  have "sys {} no_debt (insert_state SERVICE_DISCOVERY_TOKEN (StServiceDisc x) (w1\<lparr>w_rand := y\<rparr>))"
    if "sd_token x = SERVICE_DISCOVERY_TOKEN" for x y
    by (rule sys_insert_reserved [OF s2])
      (use that in \<open>simp_all add: SERVICE_DISCOVERY_TOKEN_def FIRST_TOKEN_def reserved_def\<close>)
  with s s2 show ?thesis
    by (simp add: sd_start_def g Let_def split: sum.split option.split prod.split)
qed

lemma msg_small_sys [acct]:
  assumes "sys {} no_debt w"
  shows "sys {} no_debt (msg_start_config_refresher w)" and "sys {} no_debt (msg_set_accept_bootstrap b w)"
    and "sys {} no_debt (msg_start_service_discovery E port w)"
    and "sys {} no_debt (msg_set_service_discovery_listen b w)" and "sys {} no_debt (msg_get_peer_addr t w)"
    and "sys {} no_debt (msg_seek_peers ch w)"
proof -
  show "sys {} no_debt (msg_start_config_refresher w)"
    using assms sys_refresher_start [OF assms]
    by (auto simp: msg_start_config_refresher_def Let_def split: prod.splits)
  show "sys {} no_debt (msg_set_accept_bootstrap b w)"
    using assms by (auto simp: msg_set_accept_bootstrap_def intro!: sys_put_plain split: option.splits state.splits)
  show "sys {} no_debt (msg_start_service_discovery E port w)"
    using assms sys_sd_start [OF assms] by (auto simp: msg_start_service_discovery_def)
  show "sys {} no_debt (msg_set_service_discovery_listen b w)"
    using assms by (auto simp: msg_set_service_discovery_listen_def intro!: sys_put_plain split: option.splits state.splits)
  show "sys {} no_debt (msg_get_peer_addr t w)"
    using assms by (auto simp: msg_get_peer_addr_def split: option.splits state.splits)
  show "sys {} no_debt (msg_seek_peers ch w)"
    using assms by (auto simp: msg_seek_peers_def intro!: sys_put_plain split: option.splits state.splits)
qed

lemma msg_start_bootstrap_sys:
  assumes "sys {} no_debt w" and "msg_start_bootstrap E nh ext u bl w = Some w'"
  shows "sys {} no_debt w'"
proof (cases "get_state BOOTSTRAP_TOKEN w = None")
  case True
  with assms(2) obtain r w1 where b: "bs_start E nh ext u bl BOOTSTRAP_TOKEN w = Some (r, w1)"
    and w': "w' = (case r of Inl e \<Rightarrow> send_event BootstrapFailed w1 | Inr _ \<Rightarrow> w1)"
    by (auto simp: msg_start_bootstrap_def split: bind_splits)
  from sys_bs_start [OF assms(1) b] show ?thesis by (simp add: w' split: sum.split)
next
  case False
  with assms show ?thesis by (simp add: msg_start_bootstrap_def)
qed

lemma msg_to_state_sys:
  assumes "sys {} no_debt w"
  shows "msg_terminate t w = Some w' \<Longrightarrow> sys {} no_debt w'" and "msg_send E t msg p w = Some w' \<Longrightarrow> sys {} no_debt w'"
  using assms state_terminate_sys [OF assms] state_write_sys [OF assms]
  by (auto simp: msg_terminate_def msg_send_def get_state_def split: option.splits)

lemma msg_start_listener_sys:
  assumes "sys {} no_debt w" and "msg_start_listener port force u nh w = Some w'"
  shows "sys {} no_debt w'"
  using assms sys_listener_start [OF assms(1)] by (auto simp: msg_start_listener_def split: if_splits)

lemma msg_prepare_info_sys:
  assumes "sys {} no_debt w" and "msg_prepare_info rt u ls w = Some w'"
  shows "sys {} no_debt w'"
proof -
  from assms(2) obtain r w1 where b: "mapped_start mapped_fin 0 (MfConnInfo rt u ls) w = Some (r, w1)"
    and w': "w' = (case r of Inr _ \<Rightarrow> w1 | Inl e \<Rightarrow> send_event (ConnectionInfoPrepared
               \<lparr>result_token = rt, conn_info_result = Inl (Nat e)\<rparr>) w1)"
    by (auto simp: msg_prepare_info_def split: bind_splits)
  from mapping.start_sys [OF assms(1) b] show ?thesis by (simp add: w' split: sum.split)
qed

lemma msg_igd_resp_sys:
  assumes "sys {} no_debt w" and "msg_igd_resp t a w = Some w'"
  shows "sys {} no_debt w'"
proof (cases "\<exists>x. w_states w t = Some (StMapped x)")
  case True
  then obtain x where x: "w_states w t = Some (StMapped x)" by blast
  with assms(2) obtain y where y: "mapped_handle_igd_resp mapped_fin a x w = Some y"
    "w' = put_state (StMapped (fst y)) (snd y)"
    by (auto simp: msg_igd_resp_def get_state_def dest!: run_stateD)
  from mapping.mapped_event_sys [OF assms(1) x, of "fst y" "snd y" a] y show ?thesis by simp
next
  case False
  with assms show ?thesis
    by (auto simp: msg_igd_resp_def get_state_def split: option.splits state.splits)
qed

lemma exec_msg_sys:
  assumes "sys {} no_debt w" and "exec_msg E m w = Some w'" and "w_token_counter w' < 2 ^ 64"
  shows "sys {} no_debt w'"
proof (cases m)
  case (MsgConnect our their nh)
  with assms(2) obtain r where "connect_start our their nh w = Some (r, w')" by (auto simp: msg_connect_def)
  from sys_connect_start [OF assms(1) this assms(3)] show ?thesis .
qed (use assms(2) msg_small_sys [OF assms(1)] msg_start_bootstrap_sys [OF assms(1)] msg_to_state_sys [OF assms(1)]
    msg_start_listener_sys [OF assms(1)] msg_prepare_info_sys [OF assms(1)] msg_igd_resp_sys [OF assms(1)] assms(1)
  in auto)

end
