(* ===== verification/EventLoop.thy ===== *)
theory EventLoop
  imports Service
begin

text \<open>
  The event loop (\<open>event_loop_impl\<close> of \<open>src/common/core.rs\<close>) and the whole system as a step relation:
  the loop handles one event or message at a time, and between two of them the callers of the
  service post messages, gateways answer and time passes.
\<close>

section \<open>The loop\<close>

datatype loop_event =
    EvChannel ready
  | EvTimer ready "timeout list"
  | EvState token ready

text \<open>The inner loop over the messages; \<open>False\<close> is \<open>break 'event_loop\<close>.\<close>

fun run_core_msgs :: "'u env \<Rightarrow> 'u core_msg list \<Rightarrow> 'u world \<Rightarrow> (bool \<times> 'u world) option" where
  "run_core_msgs E [] w = Some (True, w)"
| "run_core_msgs E (MsgExit # ms) w = Some (False, w\<lparr>w_running := False\<rparr>)"
| "run_core_msgs E (m # ms) w = do { w \<leftarrow> exec_msg E m w; run_core_msgs E ms w }"

definition loop_step :: "'u::linorder env \<Rightarrow> loop_event \<Rightarrow> 'u world \<Rightarrow> (bool \<times> 'u world) option" where
  "loop_step E ev w =
     (case ev of
        EvChannel kind \<Rightarrow>
          if \<not> is_readable kind then Some (True, w) else run_core_msgs E (w_msgs w) (w\<lparr>w_msgs := []\<rparr>)
      | EvTimer kind due \<Rightarrow> map_option (\<lambda>w. (True, w)) (handle_timer E kind due w)
      | EvState t kind \<Rightarrow> map_option (\<lambda>w. (True, w)) (handle_event E t kind w))"

fun event_loop :: "'u::linorder env \<Rightarrow> loop_event list \<Rightarrow> 'u world \<Rightarrow> (bool \<times> 'u world) option" where
  "event_loop E [] w = Some (True, w)"
| "event_loop E (ev # evs) w =
     do { (go, w) \<leftarrow> loop_step E ev w; (if go then event_loop E evs w else Some (False, w)) }"

section \<open>The system\<close>

text \<open>
  One step of the system. The rules for the loop carry the conditions under which the handlers
  count correctly, and the bound on the tokens that keeps the \<open>usize\<close> counters from wrapping.
\<close>

inductive clean_step :: "'u::linorder env \<Rightarrow> 'u world \<Rightarrow> 'u world \<Rightarrow> bool" for E where
  ready: "\<lbrakk>w_states w t = Some s; clean_ready E kind s w; state_ready E kind s w = Some w';
    w_token_counter w < 2 ^ 64; w_token_counter w' < 2 ^ 64\<rbrakk> \<Longrightarrow> clean_step E w w'"
| timers: "\<lbrakk>clean_fires E due w; fire_all E due w = Some w'\<rbrakk> \<Longrightarrow> clean_step E w w'"
| message: "\<lbrakk>w_msgs w = m # ms; exec_msg E m (w\<lparr>w_msgs := ms\<rparr>) = Some w'; w_token_counter w' < 2 ^ 64\<rbrakk>
    \<Longrightarrow> clean_step E w w'"
| call: "clean_step E w (snd (post m w))"
| gateway: "w_igd w = xs @ (t, g, a) # ys \<Longrightarrow>
    clean_step E w (snd (post (MsgIgdResp t ext) (w\<lparr>w_igd := xs @ ys\<rparr>)))"
| gateway_failed: "w_igd w = xs @ r # ys \<Longrightarrow> clean_step E w (w\<lparr>w_igd := xs @ ys\<rparr>)"
| event_sent: "clean_step E w (send_event ev w)"
| clock: "w_now w \<le> n \<Longrightarrow> clean_step E w (w\<lparr>w_now := n\<rparr>)"

inductive_cases clean_stepE: "clean_step E w w'"

lemma clean_step_sys:
  assumes "clean_step E w w'" and "sys {} no_debt w"
  shows "sys {} no_debt w'"
  using assms(1)
proof cases
  case (ready t s kind)
  then show ?thesis using state_ready_sys [OF assms(2)] by blast
next
  case (timers due)
  then show ?thesis using fire_all_sys [OF assms(2)] by blast
next
  case (message m ms)
  have "sys {} no_debt (w\<lparr>w_msgs := ms\<rparr>)"
    by (rule sys_cong [OF _ _ _ _ assms(2)]) simp_all
  with message exec_msg_sys show ?thesis by blast
next
  case (gateway xs t g a ys ext)
  have "sys {} no_debt (w\<lparr>w_igd := xs @ ys\<rparr>)"
    by (rule sys_cong [OF _ _ _ _ assms(2)]) simp_all
  with gateway show ?thesis by simp
next
  case (gateway_failed xs r ys)
  have "sys {} no_debt (w\<lparr>w_igd := xs @ ys\<rparr>)"
    by (rule sys_cong [OF _ _ _ _ assms(2)]) simp_all
  with gateway_failed show ?thesis by simp
next
  case (clock n)
  have "sys {} no_debt (w\<lparr>w_now := n\<rparr>)"
    by (rule sys_cong [OF _ _ _ _ assms(2)]) simp_all
  with clock show ?thesis by simp
qed (use assms(2) in simp_all)

lemma clean_steps_sys: "(clean_step E)\<^sup>*\<^sup>* w w' \<Longrightarrow> sys {} no_debt w \<Longrightarrow> sys {} no_debt w'"
  by (induction rule: rtranclp_induct) (auto intro: clean_step_sys)

text \<open>The world of a new service.\<close>

lemma sys_empty:
  assumes "w_states w = Map.empty" and "w_cm w = Map.empty" and "FIRST_TOKEN \<le> w_token_counter w"
    and "w_timer_answers w = []"
  shows "sys {} no_debt w"
  using assms
  by (simp add: sys_def acct_def tokens_ok_def links_def cm_inv_def cm_handshakes_def cm_active_def live_def
      count_where_def keys_where_def)

lemma with_config_world:
  assumes "with_config sha3 ifs search p config our_uid w = Inr (sv, w')"
  shows "w_states w' = Map.empty" and "w_cm w' = Map.empty" and "w_token_counter w' = 6"
    and "w_timer_answers w' = w_timer_answers w" and "w_msgs w' = [MsgStartConfigRefresher]"
    and "cfg (w_config w') = config" and "sv_our_uid sv = our_uid"
    and "sv_name_hash sv = name_hash sha3 (network_name config)"
  using assms
  by (auto simp: with_config_def spawn_event_loop_def start_config_refresher_def post_def Let_def
      FIRST_TOKEN_def USER_TOKEN_OFFSET_def config_wrapper_new_def split: sum.splits option.splits prod.splits)

lemma with_config_sys:
  assumes "with_config sha3 ifs search p config our_uid w = Inr (sv, w')" and "w_timer_answers w = []"
  shows "sys {} no_debt w'"
  by (rule sys_empty) (simp_all add: with_config_world [OF assms(1)] assms(2) FIRST_TOKEN_def)

section \<open>Reachable worlds\<close>

text \<open>What clean steps make of the world of a new service, whose timer does not refuse.\<close>

definition reachable :: "'u::linorder env \<Rightarrow> 'u world \<Rightarrow> bool" where
  "reachable E w \<longleftrightarrow>
     (\<exists>sha3 ifs search p config our_uid w0 sv w1. w_timer_answers w0 = [] \<and>
        with_config sha3 ifs search p config our_uid w0 = Inr (sv, w1) \<and> (clean_step E)\<^sup>*\<^sup>* w1 w)"

lemma reachable_sys: "reachable E w \<Longrightarrow> sys {} no_debt w"
  using with_config_sys clean_steps_sys by (fastforce simp: reachable_def)

lemma reachable_step: "reachable E w \<Longrightarrow> clean_step E w w' \<Longrightarrow> reachable E w'"
  unfolding reachable_def by (meson rtranclp.rtrancl_into_rtrancl)

text \<open>What the invariant says of the entry of one peer.\<close>

lemma sys_entry:
  assumes "sys {} no_debt w"
  shows "cm_handshakes (w_cm w) u = live w u"
    and "w_cm w u = None \<longleftrightarrow> live w u = 0 \<and> cm_active (w_cm w) u = None"
    and "cm_active (w_cm w) u = Some t \<Longrightarrow>
      \<exists>a. w_states w t = Some (StActive a) \<and> ac_token a = t \<and> ac_their_id a = u"
proof -
  note a = sysD(1) [OF assms]
  show h: "cm_handshakes (w_cm w) u = live w u" using acctD(3) [OF a] by simp
  show "w_cm w u = None \<longleftrightarrow> live w u = 0 \<and> cm_active (w_cm w) u = None"
    using cm.known_iff [OF acctD(2) [OF a], of u] h by auto
  show "\<exists>a. w_states w t = Some (StActive a) \<and> ac_token a = t \<and> ac_their_id a = u"
    if "cm_active (w_cm w) u = Some t"
  proof -
    from acctD(4) [OF a that] obtain x where x: "w_states w t = Some (StActive x)" "ac_their_id x = u"
      by (auto simp: active_of_def)
    with acctD(5) [OF a x(1)] show ?thesis by auto
  qed
qed

end
