(* ===== verification/Example.thy ===== *)
theory Example
  imports EventLoop
begin

text \<open>
  A small world with numbers as identifiers, in which the witnesses evaluate the model. The facts in
  \<open>eval\<close> are the definitions of the model.
\<close>

definition ex_addr :: "byte \<Rightarrow> socket_addr" where
  "ex_addr n = \<lparr>sa_ip = V4 (Ipv4Addr 8 8 8 n), sa_port = 5000\<rparr>"

definition ex_tcp :: "(io_error + byte list) list \<Rightarrow> (io_error + nat) list \<Rightarrow> tcp_stream" where
  "ex_tcp rx tx = \<lparr>ts_rx = rx, ts_tx = tx, ts_poll = [], ts_sent = [], ts_peer = Inr (ex_addr 7), ts_reg = None\<rparr>"

definition ex_socket :: "(io_error + byte list) list \<Rightarrow> (io_error + nat) list \<Rightarrow> socket" where
  "ex_socket rx tx = socket_wrap (ex_tcp rx tx)"

definition ex_config :: config where
  "ex_config = config_default\<lparr>whitelisted_node_ips := Some {V4 (Ipv4Addr 8 8 8 7)}\<rparr>"

definition ex_world :: "(io_error + tcp_stream) list \<Rightarrow> nat world" where
  "ex_world cs = \<lparr>w_token_counter = 6, w_states = Map.empty, w_timers = Map.empty, w_next_timeout = 0, w_now = 0,
     w_cm = Map.empty, w_config = config_wrapper_new config_default, w_our_listeners = [],
     w_mc = \<lparr>our_ifv4s = [], our_ifv6s = [], peer_stuns = []\<rparr>, w_events = [], w_running = True, w_msgs = [],
     w_replies = [], w_chans = Map.empty, w_next_chan = 0, w_timer_answers = [], w_connects = cs, w_builders = [],
     w_udp_binds = [], w_config_file = [Inr ex_config], w_cache_file = [], w_rand = [], w_igd = []\<rparr>"

text \<open>A codec: one byte for the constructor, one for an identifier or the length of the data.\<close>

fun nat_ser :: "nat message \<Rightarrow> byte list option" where
  "nat_ser Heartbeat = Some [0]"
| "nat_ser ChooseConnection = Some [1]"
| "nat_ser (message.Connect u nh) = Some [2, of_nat u]"
| "nat_ser (BootstrapGranted u) = Some [3, of_nat u]"
| "nat_ser (BootstrapRequest u nh ext) = Some [4, of_nat u]"
| "nat_ser (BootstrapDenied r) = Some [5]"
| "nat_ser EchoAddrReq = Some [6]"
| "nat_ser (EchoAddrResp a) = Some [7]"
| "nat_ser (Data bs) = Some (8 # of_nat (length bs) # bs)"

definition nat_des :: "byte list \<Rightarrow> nat message option" where
  "nat_des bs = (case bs of
        [] \<Rightarrow> None
      | b # r \<Rightarrow>
          if b = 0 then Some Heartbeat
          else if b = 1 then Some ChooseConnection
          else if b = 2 then Some (message.Connect (unat (hd r)) [])
          else if b = 3 then Some (BootstrapGranted (unat (hd r)))
          else if b = 4 then Some (BootstrapRequest (unat (hd r)) [] NotRequired)
          else if b = 6 then Some EchoAddrReq
          else if b = 8 then Some (Data (take (unat (hd r)) (tl r)))
          else None)"

definition ex_env :: "nat env" where
  "ex_env = \<lparr>e_ser = nat_ser, e_des = nat_des, e_sd_ser = (\<lambda>_. Some [0]), e_sd_des = (\<lambda>_. None),
     e_shuffle = id, e_order = (\<lambda>m. sorted_list_of_set (dom m))\<rparr>"

text \<open>The frame of a message as it arrives.\<close>

definition ex_frame :: "byte list \<Rightarrow> byte list" where
  "ex_frame bs = [of_nat (length bs), 0, 0, 0] @ bs"

definition rd :: ready where
  "rd = \<lparr>is_readable = True, is_writable = False, is_error = False, is_hup = False\<rparr>"

definition wr :: ready where
  "wr = \<lparr>is_readable = False, is_writable = True, is_error = False, is_hup = False\<rparr>"

definition rdwr :: ready where
  "rdwr = \<lparr>is_readable = True, is_writable = True, is_error = False, is_hup = False\<rparr>"

text \<open>A new service, its first message, and a connect to peer 9 that has one attempt.\<close>

definition ex_new :: "nat service \<times> nat world" where
  "ex_new = projr (with_config (\<lambda>_. []) (Inr []) (\<lambda>_. None) None config_default 20 (ex_world [Inr (ex_tcp [Inr (ex_frame [2, 9])] [])]))"

definition ex_connect_msg :: "nat core_msg" where
  "ex_connect_msg =
     MsgConnect \<lparr>priv_id = 20, priv_for_direct = [], priv_for_hole_punch = [], priv_hole_punch_socket = None\<rparr>
       \<lparr>pub_id = 9, pub_for_hole_punch = [], pub_for_direct = [ex_addr 1]\<rparr> []"

definition ex_started :: "nat world" where
  "ex_started = the (exec_msg ex_env MsgStartConfigRefresher ((snd ex_new)\<lparr>w_msgs := []\<rparr>))"

definition ex_connecting :: "nat world" where
  "ex_connecting = the (exec_msg ex_env ex_connect_msg ex_started)"

text \<open>The attempt sends its identity, hears the peer's and becomes a candidate; we have the greater identifier and
  choose it.\<close>

definition ex_step :: "ready \<Rightarrow> token \<Rightarrow> nat world \<Rightarrow> nat world" where
  "ex_step kind t w = the (handle_event ex_env t kind w)"

definition ex_asked :: "nat world" where
  "ex_asked = ex_step wr 7 ex_connecting"

definition ex_candidate :: "nat world" where
  "ex_candidate = ex_step rd 7 ex_asked"

definition ex_connected :: "nat world" where
  "ex_connected = ex_step wr 7 ex_candidate"

section \<open>Evaluation\<close>

lemmas eval_ex = ex_config_def ex_addr_def ex_tcp_def ex_socket_def ex_world_def ex_env_def nat_des_def ex_frame_def rd_def wr_def rdwr_def
  ex_new_def ex_connect_msg_def ex_started_def ex_connecting_def
  ex_step_def ex_asked_def ex_candidate_def ex_connected_def handle_event_def

lemmas eval_core = get_state_def insert_state_def remove_state_def get_new_token_def set_timeout_def
  cancel_timeout_def send_event_def upd_cm_def put_state_def CoreTimer_def MS_def Let_def
  cm_enter_def cm_leave_def cm_activate_def cm_deactivate_def cm_active_def cm_handshakes_def
  config_default_def config_wrapper_new_def hs_insert_def hs_remove_def post_def send_reply_def run_state_def
  BOOTSTRAP_TOKEN_def SERVICE_DISCOVERY_TOKEN_def LISTENER_TOKEN_def CONFIG_REFRESHER_TOKEN_def FIRST_TOKEN_def
  USER_TOKEN_OFFSET_def ready_erh_def ready_ehw_def ready_erhw_def

lemmas eval_socket = socket_wrap_def socket_default_def socket_register_def socket_deregister_def socket_read_def socket_write_def
  socket_peer_addr_def sock_read_def read_loop.simps read_from_buffer_def tcp_read_def tcp_write_def tcp_register_def tcp_deregister_def
  sock_write_def enqueue_msg_def drop_expired_def expired_keys_def not_expired_def flush_and_reregister_def flush_current_def
  write_done_def frame_def write_u32_le_def read_u32_le_def READ_WINDOW_def MAX_PAYLOAD_SIZE_def MSG_DROP_PRIORITY_def
  socket_connect_def tcp_connect_def

lemmas eval_service = with_config_def spawn_event_loop_def name_hash_def mapping_context_new_def
  mapping_add_peer_stuns_def start_config_refresher_def msg_start_config_refresher_def refresher_start_def
  REFRESH_INTERVAL_SEC_def List.map_filter_def HASH_SIZE_def msg_connect_def connect_start_def TIMEOUT_SEC_def
  connect_exchange_msg_def connect_hole_punch_def connect_maybe_terminate_def connect_terminate_def cex_start_def

lemmas eval_states = run_state_def cex_ready_def cex_write_def cex_receive_response_def cex_handle_error_def
  cex_terminate_def connect_ex_fin_def connect_handle_exchange_msg_def connect_handle_candidate_def cand_fin_def
  cand_start_def cand_ready_def cand_write_def cand_read_def cand_done_def
  cand_handle_error_def cand_terminate_def ac_start_def hb_new_def ac_read.simps ac_terminate_def hb_terminate_def
  INACTIVITY_TIMEOUT_MS_def HEARTBEAT_PERIOD_MS_def

lemmas eval = eval_ex eval_core eval_socket eval_service eval_states

text \<open>The example runs are runs of the system.\<close>

lemma ex_new_eq: "with_config (\<lambda>_. []) (Inr []) (\<lambda>_. None) None config_default 20 (ex_world [Inr (ex_tcp [Inr (ex_frame [2, 9])] [])]) = Inr ex_new"
  by (simp add: eval)

lemma ex_start_step: "clean_step ex_env (snd ex_new) ex_started"
  by (rule clean_step.message [of _ MsgStartConfigRefresher "[]"]) (simp_all add: eval)

lemma ex_ready_step:
  assumes "w_states w t \<noteq> None" and "clean_ready ex_env kind (the (w_states w t)) w"
    and "state_ready ex_env kind (the (w_states w t)) w \<noteq> None"
    and "w_token_counter w < 2 ^ 64" and "w_token_counter (ex_step kind t w) < 2 ^ 64"
  shows "clean_step ex_env w (ex_step kind t w)"
proof -
  obtain s where s: "w_states w t = Some s" using assms(1) by blast
  show ?thesis
    by (rule clean_step.ready [OF s _ _ assms(4,5)])
      (use s assms(2,3) in \<open>auto simp: ex_step_def handle_event_def get_state_def\<close>)
qed

lemma ex_connect_steps:
  "(clean_step ex_env)\<^sup>*\<^sup>* (snd ex_new) ex_connecting"
  "clean_step ex_env ex_connecting ex_asked"
  "clean_step ex_env ex_asked ex_candidate"
  "clean_step ex_env ex_candidate ex_connected"
proof -
  let ?w = "snd (post ex_connect_msg ex_started)"
  have "clean_step ex_env ex_started ?w" by (rule clean_step.call)
  moreover have "clean_step ex_env ?w ex_connecting"
    by (rule clean_step.message [of _ ex_connect_msg "[]"]) (simp_all add: eval)
  ultimately show "(clean_step ex_env)\<^sup>*\<^sup>* (snd ex_new) ex_connecting"
    using ex_start_step by (meson converse_rtranclp_into_rtranclp rtranclp.rtrancl_refl)
  show "clean_step ex_env ex_connecting ex_asked"
    unfolding ex_asked_def
    by (rule ex_ready_step) (simp_all add: eval one_kind_def)
  show "clean_step ex_env ex_asked ex_candidate"
    unfolding ex_candidate_def
    by (rule ex_ready_step) (simp_all add: eval one_kind_def)
  show "clean_step ex_env ex_candidate ex_connected"
    unfolding ex_connected_def
    by (rule ex_ready_step) (simp_all add: eval one_kind_def)
qed

lemma ex_reachable:
  "reachable ex_env ex_connecting" "reachable ex_env ex_asked" "reachable ex_env ex_candidate" "reachable ex_env ex_connected"
proof -
  show c: "reachable ex_env ex_connecting"
    unfolding reachable_def
  proof (intro exI conjI)
    show "with_config (\<lambda>_. []) (Inr []) (\<lambda>_. None) None config_default 20 (ex_world [Inr (ex_tcp [Inr (ex_frame [2, 9])] [])])
      = Inr (fst ex_new, snd ex_new)"
      by (simp only: ex_new_eq prod.collapse)
    show "(clean_step ex_env)\<^sup>*\<^sup>* (snd ex_new) ex_connecting" by (rule ex_connect_steps)
  qed (simp add: ex_world_def)
  show a: "reachable ex_env ex_asked" by (rule reachable_step [OF c ex_connect_steps(2)])
  show b: "reachable ex_env ex_candidate" by (rule reachable_step [OF a ex_connect_steps(3)])
  show "reachable ex_env ex_connected" by (rule reachable_step [OF b ex_connect_steps(4)])
qed

text \<open>The connection at the end of the run.\<close>

definition ex_conn :: "nat active_conn" where
  "ex_conn = (case w_states ex_connected 7 of Some (StActive a) \<Rightarrow> a)"

lemma ex_connected:
  "w_states ex_connected 7 = Some (StActive ex_conn)" "ac_their_id ex_conn = 9" "ac_token ex_conn = 7"
  "hb_recv_timer (ac_heartbeat ex_conn) = CoreTimer 7 0" "hb_recv_timeout (ac_heartbeat ex_conn) = 2"
  "w_timers ex_connected 2 = Some (CoreTimer 7 0, 120000000000)"
  "w_cm ex_connected = [9 \<mapsto> \<lparr>active_connection = Some 7, currently_handshaking = 0\<rparr>]"
  "w_running ex_connected" "w_events ex_connected = [ConnectSuccess 9]"
  by (simp_all add: ex_conn_def eval)

lemma ex_asked:
  "w_cm ex_asked = [9 \<mapsto> \<lparr>active_connection = None, currently_handshaking = 1\<rparr>]"
  by (simp_all add: eval)

end
