(* ===== verification/Socket_Facts.thy ===== *)
theory Socket_Facts
  imports Socket
begin

section \<open>Reading: the buffered reader is a frame parser on the byte stream\<close>

fun rx_data :: "(io_error + byte list) list \<Rightarrow> byte list" where
  "rx_data [] = []"
| "rx_data (Inl e # r) = rx_data r"
| "rx_data (Inr bs # r) = bs @ rx_data r"

text \<open>Only data is pending: no error and no end of stream among the answers.\<close>

definition rx_only_data :: "(io_error + byte list) list \<Rightarrow> bool" where
  "rx_only_data r = (\<forall>x \<in> set r. \<exists>bs. x = Inr bs \<and> bs \<noteq> [])"

text \<open>Everything the stream offers moved into the buffer.\<close>

definition slurp :: "sock_inner \<Rightarrow> sock_inner" where
  "slurp s = s\<lparr>si_stream := (si_stream s)\<lparr>ts_rx := []\<rparr>,
     si_read_buffer := si_read_buffer s @ rx_data (ts_rx (si_stream s))\<rparr>"

text \<open>The bytes the reader has not turned into a message yet, a consumed length prefix included.\<close>

definition held :: "sock_inner \<Rightarrow> byte list" where
  "held s = (if si_read_len s = 0 then [] else write_u32_le (si_read_len s)) @ si_read_buffer s"

definition inbox :: "sock_inner \<Rightarrow> byte list" where
  "inbox s = held s @ rx_data (ts_rx (si_stream s))"

definition incomplete :: "byte list \<Rightarrow> bool" where
  "incomplete b = (length b < 4 \<or>
     (read_u32_le b \<le> MAX_PAYLOAD_SIZE \<and> length b < 4 + read_u32_le b))"

lemma slurp_simps [simp]:
  "held (slurp s) = inbox s" "inbox (slurp s) = inbox s" "si_read_len (slurp s) = si_read_len s"
  "ts_rx (si_stream (slurp s)) = []"
  by (simp_all add: slurp_def held_def inbox_def)

lemma MAX_PAYLOAD_SIZE_bound [simp]: "n \<le> MAX_PAYLOAD_SIZE \<Longrightarrow> n < 4294967296"
  by (simp add: MAX_PAYLOAD_SIZE_def)

lemma rx_only_data_simps [simp]:
  "rx_only_data []"
  "rx_only_data (Inr bs # r) \<longleftrightarrow> bs \<noteq> [] \<and> rx_only_data r"
  "\<not> rx_only_data (Inl e # r)"
  by (auto simp: rx_only_data_def)

lemma read_u32_le_append [codec]: "4 \<le> length b \<Longrightarrow> read_u32_le (b @ r) = read_u32_le b"
  by (cases b) (auto simp: read_u32_le_def nth_append)

lemma byte_digit:
  fixes a :: byte
  shows "word_of_nat (unat a + 256 * k) = a"
proof -
  have "(256 :: byte) = 0"
    by simp
  then show ?thesis
    by (simp only: of_nat_add of_nat_mult of_nat_numeral of_nat_unat mult_zero_left add_0_right) simp
qed

lemma write_read_u32_le [codec]:
  assumes "4 \<le> length b"
  shows "write_u32_le (read_u32_le b) = take 4 b"
proof -
  obtain w x y z r where b: "b = w # x # y # z # r"
    using assms by (auto simp: numeral_eq_Suc Suc_le_length_iff)
  have lt: "unat (v :: byte) < 256" for v
    using unsigned_less [of v, where 'a = nat] by simp
  define n where "n = read_u32_le b"
  have n: "n = unat w + 256 * (unat x + 256 * (unat y + 256 * unat z))"
    by (simp add: n_def b read_u32_le_def)
  have d: "(unat (v :: byte) + 256 * k) div 256 = k" for v k
    using lt [of v] by simp
  have "n div 2 ^ 8 = unat x + 256 * (unat y + 256 * unat z)"
    using d [of w] by (simp only: n) simp
  moreover from this have "n div 2 ^ 16 = unat y + 256 * unat z"
    using d [of x] div_mult2_eq [of n "2 ^ 8" "2 ^ 8"] by simp
  moreover from this have "n div 2 ^ 24 = unat z"
    using d [of y] div_mult2_eq [of n "2 ^ 16" "2 ^ 8"] by simp
  ultimately have "write_u32_le n = [w, x, y, z]"
    unfolding write_u32_le_def by (simp only: byte_digit of_nat_unat ucast_id) (simp only: n byte_digit)
  then show ?thesis
    by (simp add: n_def b)
qed

lemma ts_rx_same [simp]: "ts_rx st = r \<Longrightarrow> st\<lparr>ts_rx := r\<rparr> = st"
  by (cases st) simp

lemma read_loop_only_data:
  "rx_only_data (ts_rx (si_stream s)) \<Longrightarrow>
   read_loop des b s =
     (if b \<or> ts_rx (si_stream s) \<noteq> [] then read_from_buffer des (slurp s) else (Inr None, slurp s))"
proof (induction des b s rule: read_loop.induct)
  case (1 des b s)
  show ?case
  proof (cases "ts_rx (si_stream s)")
    case Nil
    then show ?thesis
      by (simp add: read_loop.simps [of des b s] tcp_read_def slurp_def)
  next
    case (Cons a r)
    then obtain bs where a: "a = Inr bs" and bs: "bs \<noteq> []" and r: "rx_only_data r"
      using 1(2) by (cases a) auto
    show ?thesis
    proof (cases "length bs \<le> READ_WINDOW")
      case True
      with Cons a have tr: "tcp_read (si_stream s) = (Inr bs, (si_stream s)\<lparr>ts_rx := r\<rparr>)"
        by (simp add: tcp_read_def)
      from 1(1) [OF tr [symmetric] refl refl bs] show ?thesis
        using Cons a bs r tr by (simp add: read_loop.simps [of des b s] Let_def slurp_def)
    next
      case False
      with Cons a have tr: "tcp_read (si_stream s) =
          (Inr (take READ_WINDOW bs), (si_stream s)\<lparr>ts_rx := Inr (drop READ_WINDOW bs) # r\<rparr>)"
        by (simp add: tcp_read_def)
      have "take READ_WINDOW bs \<noteq> []" "drop READ_WINDOW bs \<noteq> []"
        using False bs by (auto simp: READ_WINDOW_def)
      with 1(1) [OF tr [symmetric] refl refl] show ?thesis
        using Cons a r tr by (simp add: read_loop.simps [of des b s] Let_def slurp_def)
          (metis append_take_drop_id append.assoc)
    qed
  qed
qed


lemma read_from_buffer_frame:
  assumes "held s = frame p @ rest" and "length p \<le> MAX_PAYLOAD_SIZE"
    and "des (p @ rest) = Some m" and "si_read_len s \<le> MAX_PAYLOAD_SIZE"
  shows "read_from_buffer des s = (Inr (Some m), s\<lparr>si_read_buffer := rest, si_read_len := 0\<rparr>)"
proof (cases "si_read_len s = 0")
  case True
  then show ?thesis
    using assms read_write_u32_le [of "length p" "p @ rest"]
    by (auto simp: read_from_buffer_def frame_def held_def Let_def)
next
  case False
  then have eq: "write_u32_le (si_read_len s) @ si_read_buffer s = write_u32_le (length p) @ p @ rest"
    using assms(1) by (simp add: held_def frame_def)
  have n: "si_read_len s = length p"
    using arg_cong [OF eq, of read_u32_le] assms(2,4) by (simp add: read_write_u32_le)
  have "si_read_buffer s = p @ rest"
    using eq unfolding n by simp
  with False n assms(3) show ?thesis
    by (simp add: read_from_buffer_def)
qed

lemma read_from_buffer_incomplete:
  assumes "incomplete (held s)" and "si_read_len s \<le> MAX_PAYLOAD_SIZE"
  obtains s' where "read_from_buffer des s = (Inr None, s')" and "held s' = held s"
    and "si_stream s' = si_stream s" and "si_read_len s' \<le> MAX_PAYLOAD_SIZE"
proof (cases "si_read_len s = 0")
  case True
  then have b: "held s = si_read_buffer s"
    by (simp add: held_def)
  show ?thesis
  proof (cases "length (si_read_buffer s) < 4")
    case True
    with \<open>si_read_len s = 0\<close> have "read_from_buffer des s = (Inr None, s)"
      by (simp add: read_from_buffer_def)
    with that assms(2) show ?thesis by simp
  next
    case False
    with assms(1) b have n: "read_u32_le (si_read_buffer s) \<le> MAX_PAYLOAD_SIZE"
      "length (si_read_buffer s) < 4 + read_u32_le (si_read_buffer s)"
      by (auto simp: incomplete_def)
    let ?s' = "s\<lparr>si_read_len := read_u32_le (si_read_buffer s), si_read_buffer := drop 4 (si_read_buffer s)\<rparr>"
    have "read_from_buffer des s = (Inr None, ?s')"
      using True False n by (auto simp: read_from_buffer_def Let_def)
    moreover have "held ?s' = held s"
      using False n b by (simp add: held_def write_read_u32_le)
    ultimately show ?thesis
      using that n by simp
  qed
next
  case False
  have "read_u32_le (held s) = si_read_len s"
    using False assms(2) by (simp add: held_def read_write_u32_le)
  then have "length (si_read_buffer s) < si_read_len s"
    using assms(1) False by (auto simp: incomplete_def held_def)
  then have "read_from_buffer des s = (Inr None, s)"
    using False by (simp add: read_from_buffer_def)
  with that assms(2) show ?thesis by simp
qed

lemma held_frame_or_incomplete:
  assumes "held s @ d = frame p @ rest" and "length p \<le> MAX_PAYLOAD_SIZE"
  shows "(\<exists>r. held s = frame p @ r \<and> r @ d = rest) \<or> incomplete (held s)"
proof (cases "length (frame p) \<le> length (held s)")
  case True
  have "take (length (frame p)) (held s) = frame p"
    using arg_cong [OF assms(1), of "take (length (frame p))"] True by simp
  then obtain r where r: "held s = frame p @ r"
    by (metis append_take_drop_id)
  with assms(1) show ?thesis by simp
next
  case False
  show ?thesis
  proof (cases "length (held s) < 4")
    case True
    then show ?thesis by (simp add: incomplete_def)
  next
    case ge: False
    then have "read_u32_le (held s) = read_u32_le (held s @ d)"
      by (simp add: read_u32_le_append)
    also have "\<dots> = length p"
      using assms by (simp add: frame_def read_write_u32_le)
    finally show ?thesis
      using False assms(2) by (simp add: incomplete_def frame_def)
  qed
qed

lemma frame_not_incomplete: "length p \<le> MAX_PAYLOAD_SIZE \<Longrightarrow> \<not> incomplete (frame p @ rest)"
  by (simp add: incomplete_def frame_def read_write_u32_le)

lemma sock_read_frame:
  assumes "inbox s = frame p @ rest" and "length p \<le> MAX_PAYLOAD_SIZE"
    and "\<And>r. des (p @ r) = Some m" and "si_read_len s \<le> MAX_PAYLOAD_SIZE"
    and "rx_only_data (ts_rx (si_stream s))"
  obtains s' where "sock_read des s = (Inr (Some m), s')" and "inbox s' = rest"
    and "si_read_len s' = 0" and "rx_only_data (ts_rx (si_stream s'))"
proof -
  consider (whole) r where "held s = frame p @ r" "r @ rx_data (ts_rx (si_stream s)) = rest"
    | (part) "incomplete (held s)"
    using held_frame_or_incomplete [OF assms(1) [unfolded inbox_def] assms(2)] by blast
  then show ?thesis
  proof cases
    case whole
    then have "sock_read des s = (Inr (Some m), s\<lparr>si_read_buffer := r, si_read_len := 0\<rparr>)"
      using read_from_buffer_frame [of s p r des m] assms(2-4) by (simp add: sock_read_def)
    then show ?thesis
      by (rule that) (use whole(2) assms(5) in \<open>simp_all add: inbox_def held_def\<close>)
  next
    case part
    then obtain s1 where s1: "read_from_buffer des s = (Inr None, s1)" "held s1 = held s"
      "si_stream s1 = si_stream s" "si_read_len s1 \<le> MAX_PAYLOAD_SIZE"
      using assms(4) by (rule read_from_buffer_incomplete)
    have "ts_rx (si_stream s) \<noteq> []"
      using part assms(1,2) frame_not_incomplete [of p rest] by (auto simp: inbox_def)
    then have "sock_read des s = read_from_buffer des (slurp s1)"
      using s1 assms(5) by (simp add: sock_read_def read_loop_only_data)
    moreover have "held (slurp s1) = frame p @ rest"
      using s1 assms(1) by (simp add: inbox_def)
    ultimately have "sock_read des s =
        (Inr (Some m), (slurp s1)\<lparr>si_read_buffer := rest, si_read_len := 0\<rparr>)"
      using read_from_buffer_frame [of "slurp s1" p rest des m] assms(2,3) s1(4) by simp
    then show ?thesis
      by (rule that) (simp_all add: inbox_def held_def)
  qed
qed

lemma sock_read_wait:
  assumes "incomplete (inbox s)" and "si_read_len s \<le> MAX_PAYLOAD_SIZE"
    and "rx_only_data (ts_rx (si_stream s))"
  obtains s' where "sock_read des s = (Inr None, s')" and "inbox s' = inbox s"
    and "si_read_len s' \<le> MAX_PAYLOAD_SIZE" and "ts_rx (si_stream s') = []"
proof -
  have "incomplete (held s)"
    using assms(1) read_u32_le_append [of "held s" "rx_data (ts_rx (si_stream s))"]
    by (cases "length (held s) < 4") (simp_all add: incomplete_def inbox_def)
  then obtain s1 where s1: "read_from_buffer des s = (Inr None, s1)" "held s1 = held s"
    "si_stream s1 = si_stream s" "si_read_len s1 \<le> MAX_PAYLOAD_SIZE"
    using assms(2) by (rule read_from_buffer_incomplete)
  have rd: "sock_read des s =
      (if ts_rx (si_stream s) \<noteq> [] then read_from_buffer des (slurp s1) else (Inr None, slurp s1))"
    using s1 assms(3) by (simp add: sock_read_def read_loop_only_data)
  have h: "inbox s1 = inbox s"
    using s1 by (simp add: inbox_def)
  obtain s3 where s3: "read_from_buffer des (slurp s1) = (Inr None, s3)" "held s3 = held (slurp s1)"
    "si_stream s3 = si_stream (slurp s1)" "si_read_len s3 \<le> MAX_PAYLOAD_SIZE"
    using read_from_buffer_incomplete [of "slurp s1" des] h s1(4) assms(1) by auto
  show ?thesis
  proof (cases "ts_rx (si_stream s) = []")
    case True
    with rd h s1 that [of "slurp s1"] show ?thesis by simp
  next
    case False
    with rd s3 h that [of s3] show ?thesis by (simp add: inbox_def)
  qed
qed

fun read_n :: "(byte list \<Rightarrow> 'm option) \<Rightarrow> nat \<Rightarrow> sock_inner \<Rightarrow> 'm list \<times> sock_inner" where
  "read_n des 0 s = ([], s)"
| "read_n des (Suc n) s =
     (case sock_read des s of
        (Inr (Some m), s') \<Rightarrow> map_prod (Cons m) id (read_n des n s')
      | (_, s') \<Rightarrow> ([], s'))"

definition codec_ok :: "('m \<Rightarrow> byte list option) \<Rightarrow> (byte list \<Rightarrow> 'm option) \<Rightarrow> 'm \<Rightarrow> bool" where
  "codec_ok ser des m \<longleftrightarrow>
     (case ser m of None \<Rightarrow> False
      | Some p \<Rightarrow> length p \<le> MAX_PAYLOAD_SIZE \<and> (\<forall>r. des (p @ r) = Some m))"

lemma read_n_frames:
  assumes "\<forall>m \<in> set ms. codec_ok ser des m"
    and "inbox s = concat (map (\<lambda>m. frame (the (ser m))) ms) @ tail"
    and "si_read_len s \<le> MAX_PAYLOAD_SIZE" and "rx_only_data (ts_rx (si_stream s))"
  shows "\<exists>s'. read_n des (length ms) s = (ms, s') \<and> inbox s' = tail \<and>
    si_read_len s' \<le> MAX_PAYLOAD_SIZE \<and> rx_only_data (ts_rx (si_stream s'))"
  using assms
proof (induction ms arbitrary: s)
  case Nil
  then show ?case by simp
next
  case (Cons m ms)
  then obtain p where p: "ser m = Some p" "length p \<le> MAX_PAYLOAD_SIZE" "\<And>r. des (p @ r) = Some m"
    by (auto simp: codec_ok_def split: option.splits)
  have "inbox s = frame p @ concat (map (\<lambda>m. frame (the (ser m))) ms) @ tail"
    using Cons.prems(2) p(1) by simp
  then obtain s1 where s1: "sock_read des s = (Inr (Some m), s1)"
    "inbox s1 = concat (map (\<lambda>m. frame (the (ser m))) ms) @ tail"
    "si_read_len s1 = 0" "rx_only_data (ts_rx (si_stream s1))"
    using p Cons.prems(3,4) by (blast elim: sock_read_frame)
  obtain s2 where "read_n des (length ms) s1 = (ms, s2) \<and> inbox s2 = tail \<and>
      si_read_len s2 \<le> MAX_PAYLOAD_SIZE \<and> rx_only_data (ts_rx (si_stream s2))"
    using Cons.IH [of s1] Cons.prems(1) s1 by auto
  with s1(1) show ?case by simp
qed

section \<open>Writing\<close>

definition wq_inv :: "write_queue \<Rightarrow> bool" where
  "wq_inv q \<longleftrightarrow> sorted_wrt (<) (map fst q) \<and> (\<forall>pq \<in> set q. snd pq \<noteq> [])"

lemma wq_inv_simps [simp]:
  "wq_inv []"
  "wq_inv ((k, xs) # q) \<longleftrightarrow> xs \<noteq> [] \<and> (\<forall>pq \<in> set q. k < fst pq) \<and> wq_inv q"
  by (auto simp: wq_inv_def)

lemma wq_inv_distinct: "wq_inv q \<Longrightarrow> distinct (map fst q)"
  using strict_sorted_iff [of "map fst q"] by (simp add: wq_inv_def)

lemma fold_wq_remove: "fold wq_remove ks q = filter (\<lambda>pq. fst pq \<notin> set ks) q"
  by (induction ks arbitrary: q) (auto simp: wq_remove_def intro: filter_cong)

lemma drop_expired_takeWhile:
  assumes "distinct (map fst q)"
  shows "drop_expired now q = takeWhile (not_expired now) q"
  using assms
proof (induction q)
  case Nil
  then show ?case by (simp add: drop_expired_def expired_keys_def)
next
  case (Cons x q)
  then show ?case
  proof (cases "not_expired now x")
    case True
    then have "expired_keys now (x # q) = expired_keys now q"
      by (simp add: expired_keys_def)
    moreover have "fst x \<notin> set (expired_keys now q)"
      using Cons.prems by (auto simp: expired_keys_def dest: set_dropWhileD)
    ultimately show ?thesis
      using True Cons by (simp add: drop_expired_def fold_wq_remove)
  next
    case False
    then show ?thesis
      by (auto simp: drop_expired_def expired_keys_def fold_wq_remove wq_remove_def filter_empty_conv)
  qed
qed

lemma wq_inv_drop_expired: "wq_inv q \<Longrightarrow> wq_inv (drop_expired now q)"
  by (simp add: drop_expired_takeWhile wq_inv_distinct, subst takeWhile_eq_take)
    (auto simp: wq_inv_def take_map [symmetric] sorted_wrt_take dest: in_set_takeD)

lemma set_wq_push_keys: "fst ` set (wq_push p x q) = insert p (fst ` set q)"
  by (induction p x q rule: wq_push.induct) auto

lemma wq_inv_push: "wq_inv q \<Longrightarrow> wq_inv (wq_push p x q)"
proof (induction p x q rule: wq_push.induct)
  case (2 p x k xs q)
  have "\<forall>pq \<in> set (wq_push p x q). k < fst pq" if "\<not> p < k" "p \<noteq> k"
  proof
    fix pq assume "pq \<in> set (wq_push p x q)"
    then have "fst pq \<in> insert p (fst ` set q)"
      by (subst set_wq_push_keys [of p x q, symmetric]) simp
    with 2(2) that show "k < fst pq" by auto
  qed
  with 2 show ?case by auto
qed simp

lemma next_write_Some:
  assumes "wq_inv q"
  shows "(q = [] \<and> next_write q = Some None) \<or>
    (\<exists>k ts data xs q0 q'. q = (k, (ts, data) # xs) # q0 \<and> next_write q = Some (Some (data, q')) \<and>
       wq_inv q' \<and> q' = (if xs = [] then q0 else (k, xs) # q0))"
  using assms by (cases q rule: next_write.cases) auto

text \<open>The bytes put on the stream so far, the part of the current frame still to be sent included.\<close>

definition outgoing :: "sock_inner \<Rightarrow> byte list" where
  "outgoing s = ts_sent (si_stream s) @ (case si_current_write s of None \<Rightarrow> [] | Some d \<Rightarrow> d)"

lemma flush_current_ok:
  assumes "flush_current s = (Inr u, s')"
  shows "outgoing s' = outgoing s" and "si_write_queue s' = si_write_queue s"
    and "si_read_buffer s' = si_read_buffer s" and "si_read_len s' = si_read_len s"
    and "ts_rx (si_stream s') = ts_rx (si_stream s)"
  using assms
  by (auto simp: flush_current_def tcp_write_def outgoing_def min_def split: option.splits sum.splits
      prod.splits if_splits)

lemma tcp_register_frame:
  assumes "tcp_register tok k st = (r, st')"
  shows "ts_sent st' = ts_sent st" "ts_rx st' = ts_rx st" "ts_tx st' = ts_tx st" "ts_peer st' = ts_peer st"
  using assms by (auto simp: tcp_register_def split: prod.splits option.splits)

lemma flush_and_reregister_ok:
  assumes "flush_and_reregister tok s = (Inr d, s')"
  shows "outgoing s' = outgoing s" and "si_write_queue s' = si_write_queue s"
    and "d = write_done s'"
    and "ts_reg (si_stream s') = Some (tok, if d then ready_erh else ready_erhw)"
proof -
  obtain s1 st where f: "flush_current s = (Inr (), s1)"
    and r: "tcp_register tok (if write_done s1 then ready_erh else ready_erhw) (si_stream s1) = (None, st)"
    and s': "s' = s1\<lparr>si_stream := st\<rparr>" "d = write_done s1"
    using assms by (auto simp: flush_and_reregister_def Let_def split: prod.splits sum.splits option.splits)
  note flush_current_ok [OF f] tcp_register_frame [OF r]
  then show "outgoing s' = outgoing s" "si_write_queue s' = si_write_queue s"
    by (simp_all add: s' outgoing_def)
  show "d = write_done s'"
    by (simp add: s' write_done_def)
  show "ts_reg (si_stream s') = Some (tok, if d then ready_erh else ready_erhw)"
    using r by (auto simp: s' tcp_register_def split: prod.splits option.splits)
qed

lemma flush_and_reregister_queue [simp]:
  "si_write_queue (snd (flush_and_reregister tok s)) = si_write_queue s"
  by (auto simp: flush_and_reregister_def flush_current_def Let_def
      split: prod.splits sum.splits option.splits if_splits)

text \<open>The head of the queue map becomes the current frame, when there is no current frame.\<close>

fun load_current :: "write_queue \<Rightarrow> sock_inner \<Rightarrow> sock_inner" where
  "load_current ((k, (ts, data) # xs) # q) s =
     (if si_current_write s = None
      then s\<lparr>si_write_queue := (if xs = [] then q else (k, xs) # q), si_current_write := Some data\<rparr>
      else s\<lparr>si_write_queue := (k, (ts, data) # xs) # q\<rparr>)"
| "load_current q s = s\<lparr>si_write_queue := q\<rparr>"

fun head_frame :: "write_queue \<Rightarrow> byte list" where
  "head_frame ((k, (ts, data) # xs) # q) = data"
| "head_frame q = []"

lemma wq_inv_load_current: "wq_inv q \<Longrightarrow> wq_inv (si_write_queue (load_current q s))"
  by (cases "(q, s)" rule: load_current.cases) auto

lemma outgoing_load_current:
  "outgoing (load_current q s) =
     outgoing s @ (if si_current_write s = None then head_frame q else [])"
  by (cases "(q, s)" rule: load_current.cases) (auto simp: outgoing_def split: option.splits)

lemma sock_write_eq:
  assumes "wq_inv (si_write_queue s)"
  shows "sock_write ser now tok msg s = Some
     (case enqueue_msg ser now msg (drop_expired now (si_write_queue s)) of
        Inl e \<Rightarrow> (Inl e, s\<lparr>si_write_queue := drop_expired now (si_write_queue s)\<rparr>)
      | Inr q \<Rightarrow>
          if si_current_write s = None \<and> q = [] then (Inr True, s\<lparr>si_write_queue := []\<rparr>)
          else flush_and_reregister tok (load_current q s))"
proof (cases "enqueue_msg ser now msg (drop_expired now (si_write_queue s))")
  case (Inl e)
  then show ?thesis by (simp add: sock_write_def Let_def)
next
  case (Inr q)
  have q: "wq_inv q"
    using assms Inr
    by (auto simp: enqueue_msg_def wq_inv_drop_expired wq_inv_push split: option.splits)
  show ?thesis
  proof (cases q)
    case Nil
    then show ?thesis
      using Inr by (cases "si_current_write s") (simp_all add: sock_write_def Let_def)
  next
    case (Cons e q0)
    with q obtain k ts data xs where "e = (k, (ts, data) # xs)"
      by (cases e; cases "snd e") auto
    with Cons q Inr show ?thesis
      by (cases "si_current_write s"; cases xs) (simp_all add: sock_write_def Let_def)
  qed
qed

lemma wq_inv_enqueue:
  assumes "wq_inv q0" and "enqueue_msg ser now msg (drop_expired now q0) = Inr q"
  shows "wq_inv q"
  using assms by (auto simp: enqueue_msg_def wq_inv_drop_expired wq_inv_push split: option.splits)

text \<open>
  C19 Writing never panics on the \<open>unwrap!\<close> of an empty queue: the queue map keeps its keys in
  strictly increasing order and no queue empty, whatever the kernel answers.
\<close>

theorem sock_write_total:
  assumes "wq_inv (si_write_queue s)"
  shows "\<exists>r s'. sock_write ser now tok msg s = Some (r, s') \<and> wq_inv (si_write_queue s')"
proof (cases "enqueue_msg ser now msg (drop_expired now (si_write_queue s))")
  case (Inl e)
  then show ?thesis
    using assms by (simp add: sock_write_eq wq_inv_drop_expired)
next
  case (Inr q)
  then have "wq_inv (si_write_queue (load_current q s))"
    using assms by (blast intro: wq_inv_load_current wq_inv_enqueue)
  then show ?thesis
    using Inr flush_and_reregister_queue [of tok "load_current q s"]
    by (cases "flush_and_reregister tok (load_current q s)") (auto simp: sock_write_eq [OF assms])
qed

lemma sock_write_ok:
  assumes "wq_inv (si_write_queue s)"
    and "enqueue_msg ser now msg (drop_expired now (si_write_queue s)) = Inr q"
    and "sock_write ser now tok msg s = Some (Inr d, s')"
  shows "outgoing s' = outgoing (load_current q s)"
    and "si_write_queue s' = si_write_queue (load_current q s)"
proof -
  have "outgoing s' = outgoing (load_current q s) \<and> si_write_queue s' = si_write_queue (load_current q s)"
  proof (cases "si_current_write s = None \<and> q = []")
    case True
    with assms show ?thesis by (auto simp: sock_write_eq outgoing_def)
  next
    case False
    with assms have "flush_and_reregister tok (load_current q s) = (Inr d, s')"
      by (auto simp: sock_write_eq split: if_splits)
    then show ?thesis
      using flush_and_reregister_ok(1,2) by simp
  qed
  then show "outgoing s' = outgoing (load_current q s)"
    and "si_write_queue s' = si_write_queue (load_current q s)"
    by simp_all
qed

text \<open>
  C18 No interleaving: a successful write only ever extends the byte stream by the frame at the
  head of the lowest-numbered (most urgent) queue, and only when no frame is in progress; the rest
  of the queue map is kept in order. Whether the frame goes out in one piece or in many does
  not change the bytes on the stream.
\<close>

theorem sock_write_stream:
  assumes "wq_inv (si_write_queue s)"
    and "enqueue_msg ser now msg (drop_expired now (si_write_queue s)) = Inr q"
    and "sock_write ser now tok msg s = Some (Inr d, s')"
  shows "outgoing s' = outgoing s @ (if si_current_write s = None then head_frame q else []) \<and>
    (if si_current_write s = None then next_write q = Some None \<or>
        next_write q = Some (Some (head_frame q, si_write_queue s'))
     else si_write_queue s' = q)"
proof -
  have q: "wq_inv q"
    using assms(1,2) by (rule wq_inv_enqueue)
  have "if si_current_write s = None then next_write q = Some None \<or>
        next_write q = Some (Some (head_frame q, si_write_queue (load_current q s)))
     else si_write_queue (load_current q s) = q"
    using next_write_Some [OF q] by (cases "(q, s)" rule: load_current.cases) auto
  then show ?thesis
    using sock_write_ok [OF assms] by (simp add: outgoing_load_current)
qed

text \<open>
  No lost wake-up: a write reports completion exactly when nothing is left to send, and
  whenever something is left the socket is registered for writability under the caller's token.
\<close>

lemma sock_write_interest:
  assumes "wq_inv (si_write_queue s)" and "sock_write ser now tok msg s = Some (Inr d, s')"
  shows "d = write_done s' \<and> (\<not> d \<longrightarrow> ts_reg (si_stream s') = Some (tok, ready_erhw))"
proof (cases "enqueue_msg ser now msg (drop_expired now (si_write_queue s))")
  case (Inl e)
  with assms show ?thesis by (simp add: sock_write_eq)
next
  case (Inr q)
  then show ?thesis
    using assms flush_and_reregister_ok(3,4) [of tok "load_current q s" d s']
    by (auto simp: sock_write_eq write_done_def split: if_splits)
qed


text \<open>The receiver turns a frame longer than the limit away as soon as its header is in.\<close>

lemma sock_read_oversized:
  assumes "si_read_len s = 0" and "4 \<le> length (si_read_buffer s)"
    and "MAX_PAYLOAD_SIZE < read_u32_le (si_read_buffer s)"
  shows "fst (sock_read des s) = Inl PayloadSizeProhibitive"
  using assms by (simp add: sock_read_def read_from_buffer_def Let_def)

definition fresh_sock :: "tcp_stream \<Rightarrow> sock_inner" where
  "fresh_sock st = the (socket_wrap st)"

lemma fresh_sock_simps [simp]:
  "si_stream (fresh_sock st) = st" "si_read_buffer (fresh_sock st) = []" "si_read_len (fresh_sock st) = 0"
  "si_write_queue (fresh_sock st) = []" "si_current_write (fresh_sock st) = None"
  by (simp_all add: fresh_sock_def socket_wrap_def)

text \<open>
  C37 The size limit is enforced by the reader only: a payload above the limit (and below 4 GiB)
  is framed and sent by \<open>write\<close> without an error, and the peer that receives exactly those
  bytes fails with \<open>PayloadSizeProhibitive\<close>.
\<close>

theorem oversized_sent_then_rejected:
  assumes "ser m = Some p" and "MAX_PAYLOAD_SIZE < length p" and "length p < 2 ^ 32"
    and "ts_tx st = []" and "ts_poll st = []" and "ts_sent st = []"
    and "ts_rx rst = [Inr (take READ_WINDOW (frame p))]"
  shows "\<exists>s'. sock_write ser now tok (Some (m, pr)) (fresh_sock st) = Some (Inr True, s') \<and>
      ts_sent (si_stream s') = frame p \<and>
      fst (sock_read des (fresh_sock rst)) = Inl PayloadSizeProhibitive"
proof -
  have hdr: "read_u32_le (take READ_WINDOW (frame p)) = length p"
    "4 \<le> length (take READ_WINDOW (frame p))"
    using assms(2,3) read_write_u32_le [of "length p"]
    by (simp_all add: frame_def READ_WINDOW_def MAX_PAYLOAD_SIZE_def)
  have "sock_write ser now tok (Some (m, pr)) (fresh_sock st) =
      Some (flush_and_reregister tok (load_current [(pr, [(now, frame p)])] (fresh_sock st)))"
    using assms(1) by (simp add: sock_write_eq enqueue_msg_def drop_expired_def expired_keys_def)
  moreover have "\<exists>s'. flush_and_reregister tok (load_current [(pr, [(now, frame p)])] (fresh_sock st))
      = (Inr True, s') \<and> ts_sent (si_stream s') = frame p"
    using assms(4-6) by (simp add: flush_and_reregister_def flush_current_def tcp_write_def
        tcp_register_def write_done_def)
  moreover have "fst (sock_read des (fresh_sock rst)) = Inl PayloadSizeProhibitive"
  proof -
    have "take READ_WINDOW (frame p) \<noteq> []"
      using hdr(2) by auto
    then have "sock_read des (fresh_sock rst) = read_from_buffer des (slurp (fresh_sock rst))"
      using assms(7) by (simp add: sock_read_def read_from_buffer_def read_loop_only_data)
    then show ?thesis
      using hdr assms(2,7) by (simp add: read_from_buffer_def slurp_def Let_def del: length_take)
  qed
  ultimately show ?thesis by auto
qed

text \<open>
  C11 Framing round trip: whatever the sizes of the pieces in which the bytes of the frames
  arrive, and wherever the reader stands in the first frame, reading returns the messages in order,
  and then waits without losing any byte of an incomplete frame.
\<close>

theorem read_frames_in_order:
  assumes "\<forall>m \<in> set ms. codec_ok ser des m"
    and "inbox s = concat (map (\<lambda>m. frame (the (ser m))) ms) @ tail" and "incomplete tail"
    and "si_read_len s \<le> MAX_PAYLOAD_SIZE" and "rx_only_data (ts_rx (si_stream s))"
  shows "\<exists>s' s''. read_n des (length ms) s = (ms, s') \<and> sock_read des s' = (Inr None, s'') \<and> inbox s'' = tail"
proof -
  obtain s' where s': "read_n des (length ms) s = (ms, s')" "inbox s' = tail"
    "si_read_len s' \<le> MAX_PAYLOAD_SIZE" "rx_only_data (ts_rx (si_stream s'))"
    using read_n_frames [OF assms(1,2,4,5)] by blast
  with assms(3) obtain s'' where "sock_read des s' = (Inr None, s'')" "inbox s'' = tail"
    by (metis sock_read_wait)
  with s' show ?thesis by blast
qed

section \<open>End to end\<close>

text \<open>
  A run of \<open>write\<close> calls, each with its instant: \<open>Some m\<close> queues a message of priority \<open>p\<close>,
  \<open>None\<close> is the call made on a writable event. It is \<open>None\<close> when a call fails.
\<close>

fun write_run ::
    "('m \<Rightarrow> byte list option) \<Rightarrow> token \<Rightarrow> priority \<Rightarrow> (nat \<times> 'm option) list \<Rightarrow> sock_inner \<Rightarrow> sock_inner option" where
  "write_run ser tok p [] s = Some s"
| "write_run ser tok p ((now, m) # cs) s =
     (case sock_write ser now tok (map_option (\<lambda>m. (m, p)) m) s of
        Some (Inr d, s') \<Rightarrow> write_run ser tok p cs s'
      | _ \<Rightarrow> None)"

definition run_msgs :: "(nat \<times> 'm option) list \<Rightarrow> 'm list" where
  "run_msgs cs = List.map_filter snd cs"

definition one_queue :: "priority \<Rightarrow> write_queue \<Rightarrow> bool" where
  "one_queue p q \<longleftrightarrow> q = [] \<or> (\<exists>xs. xs \<noteq> [] \<and> q = [(p, xs)])"

fun queue_bytes :: "write_queue \<Rightarrow> byte list" where
  "queue_bytes [] = []"
| "queue_bytes ((k, xs) # q) = concat (map snd xs) @ queue_bytes q"

lemma one_queue_wq_inv: "one_queue p q \<Longrightarrow> wq_inv q"
  by (auto simp: one_queue_def)

lemma one_queue_kept: "one_queue p q \<Longrightarrow> p < MSG_DROP_PRIORITY \<Longrightarrow> drop_expired now q = q"
  by (auto simp: one_queue_def drop_expired_takeWhile not_expired_def)

lemma one_queue_load_current: "one_queue p q \<Longrightarrow> one_queue p (si_write_queue (load_current q s))"
  by (cases "(q, s)" rule: load_current.cases) (auto simp: one_queue_def)

lemma bytes_load_current:
  "outgoing (load_current q s) @ queue_bytes (si_write_queue (load_current q s)) =
     outgoing s @ queue_bytes q"
  by (cases "(q, s)" rule: load_current.cases) (auto simp: outgoing_def split: option.splits)

lemma sock_write_run_step:
  assumes q: "one_queue p (si_write_queue s)" and p: "p < MSG_DROP_PRIORITY"
    and w: "sock_write ser now tok (map_option (\<lambda>m. (m, p)) m) s = Some (Inr d, s')"
  shows "one_queue p (si_write_queue s')" (is ?one)
    and "outgoing s' @ queue_bytes (si_write_queue s') = outgoing s @ queue_bytes (si_write_queue s) @
      (case m of None \<Rightarrow> [] | Some m \<Rightarrow> frame (the (ser m)))" (is ?bytes)
    and "m = Some m' \<Longrightarrow> ser m' \<noteq> None"
proof -
  obtain q1 where e: "enqueue_msg ser now (map_option (\<lambda>m. (m, p)) m)
      (drop_expired now (si_write_queue s)) = Inr q1"
    using w by (auto simp: sock_write_def Let_def split: sum.splits)
  then show "m = Some m' \<Longrightarrow> ser m' \<noteq> None"
    by (auto simp: enqueue_msg_def split: option.splits)
  have q1: "one_queue p q1 \<and> queue_bytes q1 = queue_bytes (si_write_queue s) @
      (case m of None \<Rightarrow> [] | Some m \<Rightarrow> frame (the (ser m)))"
    using e q one_queue_kept [OF q p, of now]
    by (auto simp: enqueue_msg_def one_queue_def split: option.splits)
  note st = sock_write_ok [OF one_queue_wq_inv [OF q] e w]
  from q1 show ?one
    unfolding st by (blast intro: one_queue_load_current)
  from q1 show ?bytes
    unfolding st by (simp add: bytes_load_current)
qed

lemma write_run_bytes:
  assumes "one_queue p (si_write_queue s)" and "p < MSG_DROP_PRIORITY"
    and "write_run ser tok p cs s = Some s'"
  shows "outgoing s' @ queue_bytes (si_write_queue s') = outgoing s @ queue_bytes (si_write_queue s) @
      concat (map (\<lambda>m. frame (the (ser m))) (run_msgs cs))"
  using assms
proof (induction cs arbitrary: s)
  case Nil
  then show ?case by (simp add: run_msgs_def map_filter_def)
next
  case (Cons c cs)
  obtain now m where c: "c = (now, m)" by (cases c)
  with Cons.prems(3) obtain d s1 where
    w: "sock_write ser now tok (map_option (\<lambda>m. (m, p)) m) s = Some (Inr d, s1)"
    and r: "write_run ser tok p cs s1 = Some s'"
    by (auto split: option.splits sum.splits)
  note step = sock_write_run_step [OF Cons.prems(1,2) w]
  show ?case
    using Cons.IH [OF step(1) Cons.prems(2) r] step(2)
    by (cases m) (simp_all add: c run_msgs_def map_filter_def)
qed

text \<open>
  C4 End-to-end delivery: messages written with a priority that is never dropped, in any number of
  calls and however the kernel splits them, are read by the peer complete and in the order
  written, once the writer reports completion and the bytes have arrived in pieces of any size.
\<close>

theorem written_messages_are_read:
  assumes "p < MSG_DROP_PRIORITY"
    and "ts_sent st = []" and "write_run ser tok p cs (fresh_sock st) = Some s'" and "write_done s'"
    and "\<forall>m \<in> set (run_msgs cs). codec_ok ser des m"
    and "rx_only_data (ts_rx rst)" and "rx_data (ts_rx rst) = ts_sent (si_stream s')"
  shows "fst (read_n des (length (run_msgs cs)) (fresh_sock rst)) = run_msgs cs"
proof -
  have "outgoing s' @ queue_bytes (si_write_queue s') =
      concat (map (\<lambda>m. frame (the (ser m))) (run_msgs cs))"
    using write_run_bytes [OF _ assms(1,3)] assms(2) by (simp add: one_queue_def outgoing_def)
  then have "ts_sent (si_stream s') = concat (map (\<lambda>m. frame (the (ser m))) (run_msgs cs))"
    using assms(4) by (simp add: write_done_def outgoing_def)
  then have "inbox (fresh_sock rst) = concat (map (\<lambda>m. frame (the (ser m))) (run_msgs cs)) @ []"
    using assms(7) by (simp add: inbox_def held_def)
  from read_n_frames [OF assms(5) this] assms(6) show ?thesis
    by (auto simp: MAX_PAYLOAD_SIZE_def)
qed

section \<open>Concrete instances\<close>

definition ex_stream :: "(io_error + byte list) list \<Rightarrow> (io_error + nat) list \<Rightarrow> tcp_stream" where
  "ex_stream rx tx = \<lparr>ts_rx = rx, ts_tx = tx, ts_poll = [], ts_sent = [],
     ts_peer = Inr \<lparr>sa_ip = V4 (Ipv4Addr 8 8 8 8), sa_port = 5000\<rparr>, ts_reg = None\<rparr>"

definition ex_ser :: "bool \<Rightarrow> byte list option" where
  "ex_ser b = Some [if b then 1 else 0]"

definition ex_des :: "byte list \<Rightarrow> bool option" where
  "ex_des bs = (case bs of [] \<Rightarrow> None | x # _ \<Rightarrow> Some (x = 1))"

definition ex_sock :: "write_queue \<Rightarrow> sock_inner" where
  "ex_sock q = (fresh_sock (ex_stream [] [Inr 3]))\<lparr>si_write_queue := q\<rparr>"

lemma ex_simps [simp]:
  "ts_rx (ex_stream rx tx) = rx" "ts_tx (ex_stream rx tx) = tx" "ts_poll (ex_stream rx tx) = []"
  "ts_sent (ex_stream rx tx) = []" "si_write_queue (ex_sock q) = q" "si_current_write (ex_sock q) = None"
  "codec_ok ex_ser ex_des b"
  by (simp_all add: ex_stream_def ex_sock_def codec_ok_def ex_ser_def ex_des_def MAX_PAYLOAD_SIZE_def)

theorem sock_write_total_witness:
  "wq_inv [(0, [(0, [1])]), (2, [(0, [2])])] \<and>
   (\<exists>r s'. sock_write ex_ser 5 7 (Some (True, 1)) (ex_sock [(0, [(0, [1])]), (2, [(0, [2])])]) = Some (r, s') \<and>
      wq_inv (si_write_queue s'))"
  using sock_write_total [of "ex_sock [(0, [(0, [1])]), (2, [(0, [2])])]" ex_ser 5 7 "Some (True, 1)"]
  by simp

lemma ex_sock_write:
  "sock_write ex_ser 5 7 (Some (True, 0)) (ex_sock []) =
     Some (Inr False, (ex_sock [])\<lparr>si_stream := \<lparr>ts_rx = [], ts_tx = [], ts_poll = [], ts_sent = [1, 0, 0],
       ts_peer = Inr \<lparr>sa_ip = V4 (Ipv4Addr 8 8 8 8), sa_port = 5000\<rparr>, ts_reg = Some (7, ready_erhw)\<rparr>,
       si_current_write := Some [0, 1]\<rparr>)"
  by (simp add: sock_write_eq enqueue_msg_def drop_expired_def expired_keys_def ex_ser_def ex_sock_def
      frame_def write_u32_le_def flush_and_reregister_def flush_current_def tcp_write_def
      tcp_register_def write_done_def ex_stream_def fresh_sock_def socket_wrap_def)

theorem sock_write_stream_witness:
  "\<exists>d s'. sock_write ex_ser 5 7 (Some (True, 0)) (ex_sock []) = Some (Inr d, s') \<and>
     outgoing s' = [1, 0, 0, 0, 1] \<and> ts_sent (si_stream s') = [1, 0, 0] \<and> si_write_queue s' = []"
  using sock_write_stream [OF _ _ ex_sock_write, of "[(0, [(5, [1, 0, 0, 0, 1])])]"]
  by (simp add: ex_sock_write enqueue_msg_def drop_expired_def expired_keys_def ex_ser_def frame_def
      write_u32_le_def outgoing_def) auto


theorem oversized_sent_then_rejected_witness:
  "\<exists>s'. sock_write (\<lambda>_ :: unit. Some (replicate (Suc MAX_PAYLOAD_SIZE) 0)) 5 7 (Some ((), 0))
       (fresh_sock (ex_stream [] [])) = Some (Inr True, s') \<and>
     ts_sent (si_stream s') = frame (replicate (Suc MAX_PAYLOAD_SIZE) 0) \<and>
     fst (sock_read (\<lambda>_. Some ()) (fresh_sock (ex_stream
       [Inr (take READ_WINDOW (frame (replicate (Suc MAX_PAYLOAD_SIZE) 0)))] []))) = Inl PayloadSizeProhibitive"
  by (rule oversized_sent_then_rejected) (simp_all add: MAX_PAYLOAD_SIZE_def del: replicate_Suc)

theorem read_frames_in_order_witness:
  "\<exists>s' s''. read_n ex_des 2 (fresh_sock (ex_stream [Inr [1, 0], Inr [0, 0, 1, 1, 0, 0], Inr [0, 0, 9]] []))
      = ([True, False], s') \<and> sock_read ex_des s' = (Inr None, s'') \<and> inbox s'' = [9]"
proof -
  have "inbox (fresh_sock (ex_stream [Inr [1, 0], Inr [0, 0, 1, 1, 0, 0], Inr [0, 0, 9]] [])) =
      concat (map (\<lambda>m. frame (the (ex_ser m))) [True, False]) @ [9]"
    by (simp add: inbox_def held_def ex_ser_def frame_def write_u32_le_def)
  from read_frames_in_order [OF _ this] show ?thesis
    by (simp add: incomplete_def numeral_2_eq_2 del: read_n.simps)
qed

theorem written_messages_are_read_witness:
  "fst (read_n ex_des 2 (fresh_sock (ex_stream [Inr [1, 0, 0], Inr [0, 1, 1, 0, 0, 0, 0]] []))) = [True, False]"
proof -
  obtain s where s: "write_run ex_ser 7 1 [(0, Some True), (3, Some False), (4, None)]
      (fresh_sock (ex_stream [] [Inr 2, Inr 9, Inr 5])) = Some s"
    "write_done s" "ts_sent (si_stream s) = [1, 0, 0, 0, 1, 1, 0, 0, 0, 0]"
  proof -
    have "map_option (\<lambda>s. (write_done s, ts_sent (si_stream s)))
       (write_run ex_ser 7 1 [(0, Some True), (3, Some False), (4, None)]
         (fresh_sock (ex_stream [] [Inr 2, Inr 9, Inr 5]))) = Some (True, [1, 0, 0, 0, 1, 1, 0, 0, 0, 0])"
      by (simp add: sock_write_eq enqueue_msg_def drop_expired_def expired_keys_def ex_ser_def
        frame_def write_u32_le_def flush_and_reregister_def flush_current_def tcp_write_def
        tcp_register_def write_done_def not_expired_def MSG_DROP_PRIORITY_def
        ex_stream_def fresh_sock_def socket_wrap_def)
    with that show ?thesis by auto
  qed
  have r: "run_msgs [(0 :: nat, Some True), (3, Some False), (4, None)] = [True, False]"
    by (simp add: run_msgs_def map_filter_simps)
  show ?thesis
    using written_messages_are_read [OF _ _ s(1,2), of ex_des
        "ex_stream [Inr [1, 0, 0], Inr [0, 1, 1, 0, 0, 0, 0]] []"] s(3)
    by (simp add: MSG_DROP_PRIORITY_def r numeral_2_eq_2 del: read_n.simps)
qed

end
