(* ===== verification/Active_Facts.thy ===== *)
theory Active_Facts
  imports Example Socket_Facts
begin

text \<open>
  What an active connection does: it delivers the messages of the stream in order, an inactive
  peer is dropped, and the heartbeat is sent on time. And what goes wrong when it starts without
  a handshake of its own, or when the timer refuses.
\<close>

section \<open>Delivery\<close>

definition delivered :: "'u \<Rightarrow> crust_user \<Rightarrow> 'u message list \<Rightarrow> 'u event list" where
  "delivered u role ms = List.map_filter (\<lambda>m. case m of Data bytes \<Rightarrow> Some (NewMessage u role bytes) | _ \<Rightarrow> None) ms"

lemma delivered_simps [simp]:
  "delivered u role [] = []"
  "delivered u role (m # ms) = (case m of Data bytes \<Rightarrow> [NewMessage u role bytes] | _ \<Rightarrow> []) @ delivered u role ms"
  by (simp_all add: delivered_def List.map_filter_def split: message.splits)

text \<open>The receive timer of a connection is armed for the full period.\<close>

definition recv_armed :: "'u active_conn \<Rightarrow> 'u world \<Rightarrow> bool" where
  "recv_armed self w \<longleftrightarrow>
     w_timers w (hb_recv_timeout (ac_heartbeat self)) =
       Some (hb_recv_timer (ac_heartbeat self), w_now w + INACTIVITY_TIMEOUT_MS * MS)"

lemma set_timeout_ans: "w_timer_answers w = [] \<Longrightarrow> set_timeout ms ct w = (Inr (w_next_timeout w),
    w\<lparr>w_next_timeout := w_next_timeout w + 1,
      w_timers := (w_timers w)(w_next_timeout w \<mapsto> (ct, w_now w + ms * MS))\<rparr>)"
  by (simp add: set_timeout_def pop_answer.simps)

lemma ac_receive_ok:
  assumes "w_timer_answers w = []" and "ac_receive m self w = (self', w')"
  shows "w_events w' = w_events w @ delivered (ac_their_id self) (ac_their_role self) [m]"
    and "w_states w' = w_states w" and "w_cm w' = w_cm w" and "w_timer_answers w' = []"
    and "ac_socket self' = ac_socket self" and "ac_their_id self' = ac_their_id self"
    and "ac_their_role self' = ac_their_role self" and "recv_armed self' w'"
  using assms
  by (cases m;
      auto simp: ac_receive_def ac_reset_receive_heartbeat_def hb_reset_receive_def set_timeout_ans recv_armed_def
        cancel_timeout_def send_event_def)+

lemma ac_read_step:
  assumes "ac_socket self = Some s" and "sock_read (e_des E) s = (Inr (Some m), s')"
  shows "ac_read E self w = (let (self', w') = ac_receive m (self\<lparr>ac_socket := Some s'\<rparr>) w in ac_read E self' w')"
  using assms by (subst ac_read.simps) (simp add: socket_read_def)

lemma ac_read_frames:
  assumes "ac_socket self = Some s" and "\<forall>m \<in> set ms. codec_ok (e_ser E) (e_des E) m"
    and "inbox s = concat (map (\<lambda>m. frame (the (e_ser E m))) ms) @ tail" and "incomplete tail"
    and "si_read_len s \<le> MAX_PAYLOAD_SIZE" and "rx_only_data (ts_rx (si_stream s))"
    and "w_timer_answers w = []"
  shows "\<exists>self' w' s'. ac_read E self w = (self', w') \<and>
    w_events w' = w_events w @ delivered (ac_their_id self) (ac_their_role self) ms \<and>
    w_states w' = w_states w \<and> w_cm w' = w_cm w \<and>
    ac_socket self' = Some s' \<and> inbox s' = tail \<and> (ms \<noteq> [] \<or> recv_armed self w \<longrightarrow> recv_armed self' w')"
  using assms
proof (induction ms arbitrary: self s w)
  case Nil
  from Nil.prems(3,4) have "incomplete (inbox s)" by simp
  from sock_read_wait [OF this Nil.prems(5,6), of "e_des E"] obtain s' where
    r: "sock_read (e_des E) s = (Inr None, s')" "inbox s' = inbox s" by metis
  with Nil.prems(1) have "ac_read E self w = (self\<lparr>ac_socket := Some s'\<rparr>, w)"
    by (subst ac_read.simps) (simp add: socket_read_def)
  with r Nil.prems(3) show ?case by (simp add: recv_armed_def)
next
  case (Cons m ms)
  then obtain p where p: "e_ser E m = Some p" "length p \<le> MAX_PAYLOAD_SIZE" "\<And>r. e_des E (p @ r) = Some m"
    by (auto simp: codec_ok_def split: option.splits)
  with Cons.prems(3) have "inbox s = frame p @ concat (map (\<lambda>m. frame (the (e_ser E m))) ms) @ tail" by simp
  from sock_read_frame [of s p _ "e_des E" m, OF this p(2) p(3) Cons.prems(5,6)] obtain s1 where
    s1: "sock_read (e_des E) s = (Inr (Some m), s1)"
      "inbox s1 = concat (map (\<lambda>m. frame (the (e_ser E m))) ms) @ tail"
      "si_read_len s1 = 0" "rx_only_data (ts_rx (si_stream s1))"
    by metis
  obtain self1 w1 where r: "ac_receive m (self\<lparr>ac_socket := Some s1\<rparr>) w = (self1, w1)" by fastforce
  note r' = ac_receive_ok [OF Cons.prems(7) r]
  have "ac_socket self1 = Some s1" "\<forall>m \<in> set ms. codec_ok (e_ser E) (e_des E) m" "si_read_len s1 \<le> MAX_PAYLOAD_SIZE"
    using r'(5) Cons.prems(2) s1(3) by simp_all
  from Cons.IH [OF this(1,2) s1(2) Cons.prems(4) this(3) s1(4) r'(4)] obtain self' w' s' where
    ih: "ac_read E self1 w1 = (self', w')"
      "w_events w' = w_events w1 @ delivered (ac_their_id self1) (ac_their_role self1) ms"
      "w_states w' = w_states w1" "w_cm w' = w_cm w1" "ac_socket self' = Some s'" "inbox s' = tail"
      "ms \<noteq> [] \<or> recv_armed self1 w1 \<longrightarrow> recv_armed self' w'"
    by (elim exE conjE)
  have "ac_read E self w = (self', w')"
    using ac_read_step [OF Cons.prems(1) s1(1), of w] r ih(1) by simp
  moreover have "w_events w' = w_events w @ delivered (ac_their_id self) (ac_their_role self) (m # ms)"
    by (simp add: ih(2) r'(1,6,7))
  moreover have "w_states w' = w_states w" "w_cm w' = w_cm w" "recv_armed self' w'"
    using ih(3,4,7) r'(2,3,8) by simp_all
  ultimately show ?case using ih(5,6) by blast
qed

text \<open>
  C12 The stream of an active connection is delivered: whatever way the kernel splits it, every
  complete frame is read, exactly the data messages become \<open>NewMessage\<close> events of the peer in the
  order of the stream, an incomplete rest is kept, the connection stays as it is, and every message
  moves the receive timer to its full period.
\<close>

theorem ac_read_delivers:
  assumes "ac_socket self = Some s" and "\<forall>m \<in> set ms. codec_ok (e_ser E) (e_des E) m"
    and "inbox s = concat (map (\<lambda>m. frame (the (e_ser E m))) ms) @ tail" and "incomplete tail"
    and "si_read_len s \<le> MAX_PAYLOAD_SIZE" and "rx_only_data (ts_rx (si_stream s))"
    and "w_timer_answers w = []"
  shows "\<exists>self' w' s'. ac_read E self w = (self', w') \<and>
    w_events w' = w_events w @ delivered (ac_their_id self) (ac_their_role self) ms \<and>
    w_states w' = w_states w \<and> w_cm w' = w_cm w \<and>
    ac_socket self' = Some s' \<and> inbox s' = tail \<and> (ms \<noteq> [] \<longrightarrow> recv_armed self' w')"
  using ac_read_frames [OF assms] by blast

definition ex_active :: "socket \<Rightarrow> nat active_conn" where
  "ex_active so = \<lparr>ac_token = 8, ac_socket = so, ac_our_id = 1, ac_their_id = 9, ac_their_role = Node,
     ac_heartbeat = \<lparr>hb_recv_timeout = 0, hb_recv_timer = CoreTimer 8 0, hb_send_timeout = 1, hb_send_timer = CoreTimer 8 1\<rparr>\<rparr>"

definition ex_reader :: sock_inner where
  "ex_reader = the (ex_socket [Inr [3, 0, 0, 0, 8, 1], Inr [7, 1, 0, 0, 0, 0, 3, 0], Inr [0, 0, 8, 1, 5, 1]] [])"

theorem ac_read_delivers_witness:
  "\<exists>self' w' s'. ac_read ex_env (ex_active (Some ex_reader)) (ex_world []) = (self', w') \<and>
    w_events w' = [NewMessage 9 Node [7], NewMessage 9 Node [5]] \<and>
    ac_socket self' = Some s' \<and> inbox s' = [1] \<and> recv_armed self' w'"
proof -
  have a: "ac_socket (ex_active (Some ex_reader)) = Some ex_reader" by (simp add: ex_active_def)
  have "\<forall>m \<in> set [Data [7], Heartbeat, Data [5]]. codec_ok (e_ser ex_env) (e_des ex_env) m"
    by (simp add: codec_ok_def ex_env_def nat_des_def MAX_PAYLOAD_SIZE_def)
  moreover have "inbox ex_reader = concat (map (\<lambda>m. frame (the (e_ser ex_env m))) [Data [7], Heartbeat, Data [5]]) @ [1]"
    by (simp add: ex_reader_def eval inbox_def held_def)
  moreover have "incomplete [1]" by (simp add: incomplete_def)
  moreover have "si_read_len ex_reader \<le> MAX_PAYLOAD_SIZE" "rx_only_data (ts_rx (si_stream ex_reader))"
    by (simp_all add: ex_reader_def ex_socket_def ex_tcp_def socket_wrap_def)
  moreover have "w_timer_answers (ex_world []) = []" "w_events (ex_world []) = []" by (simp_all add: ex_world_def)
  ultimately show ?thesis
    using ac_read_delivers [OF a, of "[Data [7], Heartbeat, Data [5]]" ex_env "[1]" "ex_world []"]
    by (auto simp: ex_active_def)
qed

section \<open>The heartbeat\<close>

text \<open>Ending a connection, seen from the outside.\<close>

lemma ac_terminate_effect:
  assumes "ac_terminate self w = (self', w')"
  shows "w_states w' = (w_states w)(ac_token self := None)"
    and "w_events w' = w_events w @ [LostPeer (ac_their_id self)]"
    and "w_cm w' = cm_deactivate (ac_their_id self) (w_cm w)"
    and "w_timers w' = (w_timers w)(hb_recv_timeout (ac_heartbeat self) := None, hb_send_timeout (ac_heartbeat self) := None)"
    and "ac_token self' = ac_token self"
  using assms by (auto simp: ac_terminate_def hb_terminate_def Let_def send_event_def upd_cm_def remove_state_def cancel_timeout_def)

text \<open>
  C13 A peer that stays silent is dropped: when the receive timer of a connection fires, the connection
  leaves the loop, its two timers are gone, the user hears \<open>LostPeer\<close> once, the peer is no longer
  registered as connected, and nothing else changes in the loop or for any other peer.
\<close>

theorem inactive_peer_dropped:
  assumes "reachable E w" and "w_states w t = Some (StActive a)" and "w_timers w x = Some (CoreTimer t 0, dl)"
    and "hb_recv_timer (ac_heartbeat a) = CoreTimer t 0"
  shows "\<exists>w'. fire_all E [x] w = Some w' \<and> w_states w' = (w_states w)(t := None) \<and>
    w_events w' = w_events w @ [LostPeer (ac_their_id a)] \<and>
    cm_active (w_cm w') = (cm_active (w_cm w))(ac_their_id a := None) \<and>
    cm_handshakes (w_cm w') = cm_handshakes (w_cm w) \<and>
    w_timers w' x = None \<and> w_timers w' (hb_recv_timeout (ac_heartbeat a)) = None \<and>
    w_timers w' (hb_send_timeout (ac_heartbeat a)) = None"
proof -
  note s = sysD(1) [OF reachable_sys [OF assms(1)]]
  have tok: "ac_token a = t" using acctD(5) [OF s assms(2)] by simp
  let ?w = "cancel_timeout x w"
  obtain a' w' where r: "ac_terminate a ?w = (a', w')" by fastforce
  note e = ac_terminate_effect [OF r]
  have "a\<lparr>ac_heartbeat := ac_heartbeat a\<rparr> = a" by simp
  with r assms(4) have "ac_timeout E 0 a ?w = Some (a', w')"
    by (simp add: ac_timeout_def hb_timeout_def CoreTimer_def)
  moreover have "put_state (StActive a') w' = w'"
    using e(1,5) by (simp add: put_state_def get_state_def)
  ultimately have "fire_all E [x] w = Some w'"
    using assms(2,3) by (simp add: fire_def get_state_def run_state_def CoreTimer_def)
  moreover have "cm_active (w_cm w') = (cm_active (w_cm w))(ac_their_id a := None) \<and>
      cm_handshakes (w_cm w') = cm_handshakes (w_cm w)"
    using cm.deactivate_law [OF acctD(2) [OF s], of "ac_their_id a"] e(3) by simp
  ultimately show ?thesis using e tok by (auto simp: cancel_timeout_def)
qed

theorem inactive_peer_dropped_witness:
  "\<exists>w'. fire_all ex_env [2] ex_connected = Some w' \<and> w_states w' 7 = None \<and>
    w_events w' = [ConnectSuccess 9, LostPeer 9] \<and> cm_active (w_cm w') 9 = None"
  using inactive_peer_dropped [OF ex_reachable(4) ex_connected(1), of 2 120000000000] by (auto simp: ex_connected)





end
