(* ===== verification/Handshake_Facts.thy ===== *)
theory Handshake_Facts
  imports Example Socket_Facts
begin

text \<open>
  What the handshakes decide: who is admitted by the listener, which of two peers chooses a candidate,
  and what is left when a connect times out.
\<close>

section \<open>Admission by the listener\<close>












section \<open>Choosing a candidate\<close>

text \<open>Reading sends nothing, and an idle socket with a willing kernel sends a whole frame at once.\<close>

lemma read_from_buffer_outgoing: "outgoing (snd (read_from_buffer des s)) = outgoing s"
  by (auto simp: read_from_buffer_def outgoing_def Let_def split: option.splits)

lemma read_loop_outgoing: "outgoing (snd (read_loop des b s)) = outgoing s"
proof (induction des b s rule: read_loop.induct)
  case (1 des b s)
  obtain r st where t: "tcp_read (si_stream s) = (r, st)" by fastforce
  then have o: "outgoing (s\<lparr>si_stream := st\<rparr>) = outgoing s"
    by (auto simp: tcp_read_def outgoing_def split: list.splits sum.splits if_splits)
  have "outgoing (s\<lparr>si_stream := st, si_read_buffer := x\<rparr>) = outgoing (s\<lparr>si_stream := st\<rparr>)" for x
    by (simp add: outgoing_def)
  with 1 [OF t [symmetric]] t o read_from_buffer_outgoing [of des "s\<lparr>si_stream := st\<rparr>"] show ?case
    by (subst read_loop.simps) (auto simp: Let_def split: sum.splits option.splits prod.splits)
qed

lemma sock_read_outgoing: "sock_read des s = (r, s') \<Longrightarrow> outgoing s' = outgoing s"
  using read_from_buffer_outgoing [of des s] read_loop_outgoing [of des False "snd (read_from_buffer des s)"]
  by (auto simp: sock_read_def split: prod.splits sum.splits option.splits)

lemma sock_write_idle_all:
  assumes "si_write_queue s = []" and "si_current_write s = None" and "ts_tx (si_stream s) = []"
    and "ts_poll (si_stream s) = []" and "ser m = Some p"
  shows "\<exists>s'. sock_write ser now tok (Some (m, pr)) s = Some (Inr True, s') \<and>
    ts_sent (si_stream s') = ts_sent (si_stream s) @ frame p"
proof -
  have "enqueue_msg ser now (Some (m, pr)) (drop_expired now (si_write_queue s)) = Inr [(pr, [(now, frame p)])]"
    using assms(1,5) by (simp add: enqueue_msg_def drop_expired_def expired_keys_def)
  with assms show ?thesis
    by (simp add: sock_write_eq flush_and_reregister_def flush_current_def tcp_write_def tcp_register_def write_done_def)
qed

text \<open>The end that does not choose registers for reading and reads.\<close>

lemma cand_write_listens:
  assumes "cm_active (w_cm w) (cc_their_id b) = None" and "\<not> cc_our_id b > cc_their_id b"
    and "cc_socket b = Some sb" and "ts_poll (si_stream sb) = []"
  obtains s1 where "cand_write E fin m b w = cand_read E fin (b\<lparr>cc_socket := Some s1\<rparr>) w"
    and "inbox s1 = inbox sb" and "outgoing s1 = outgoing sb" and "si_read_len s1 = si_read_len sb"
    and "ts_rx (si_stream s1) = ts_rx (si_stream sb)"
proof -
  let ?s = "sb\<lparr>si_stream := (si_stream sb)\<lparr>ts_poll := [], ts_reg := Some (cc_token b, ready_erh)\<rparr>\<rparr>"
  show ?thesis
    by (rule that [of ?s])
      (use assms in \<open>simp_all add: cand_write_def socket_register_def tcp_register_def inbox_def held_def outgoing_def\<close>)
qed

text \<open>
  C10 The two ends of a connection agree on it. Each end is a candidate that knows both identifiers; the
  end with the greater one sends \<open>ChooseConnection\<close> and is done. The other end sends nothing: it waits
  as long as nothing has arrived, and is done when those bytes have arrived.
\<close>

theorem candidates_agree:
  assumes "cc_their_id a = cc_our_id b" and "cc_their_id b = cc_our_id a" and "cc_our_id b < cc_our_id a"
    and "cm_active (w_cm wa) (cc_their_id a) = None" and "cm_active (w_cm wb) (cc_their_id b) = None"
    and "cc_socket a = Some sa" and "si_write_queue sa = []" and "si_current_write sa = None"
    and "ts_tx (si_stream sa) = []" and "ts_poll (si_stream sa) = []"
    and "cc_socket b = Some sb" and "ts_poll (si_stream sb) = []"
    and "si_read_len sb \<le> MAX_PAYLOAD_SIZE" and "rx_only_data (ts_rx (si_stream sb))"
    and "e_ser E ChooseConnection = Some p" and "codec_ok (e_ser E) (e_des E) ChooseConnection"
  shows "(\<exists>sa'. cand_write E fa (Some (ChooseConnection, 0)) a wa = cand_done fa (a\<lparr>cc_socket := Some sa'\<rparr>) wa \<and>
      ts_sent (si_stream sa') = ts_sent (si_stream sa) @ frame p) \<and>
    (\<exists>sb'. outgoing sb' = outgoing sb \<and>
      (inbox sb = [] \<longrightarrow> cand_write E fb m b wb = Some (b\<lparr>cc_socket := Some sb'\<rparr>, wb)) \<and>
      (inbox sb = frame p \<longrightarrow> cand_write E fb m b wb = cand_done fb (b\<lparr>cc_socket := Some sb'\<rparr>) wb))"
proof
  obtain sa' where sa': "sock_write (e_ser E) (w_now wa) (cc_token a) (Some (ChooseConnection, 0)) sa = Some (Inr True, sa')"
      "ts_sent (si_stream sa') = ts_sent (si_stream sa) @ frame p"
    using sock_write_idle_all [of sa "e_ser E" ChooseConnection p] assms(7-10,15) by blast
  with assms(1,3,4,6) show "\<exists>sa'. cand_write E fa (Some (ChooseConnection, 0)) a wa = cand_done fa (a\<lparr>cc_socket := Some sa'\<rparr>) wa \<and>
      ts_sent (si_stream sa') = ts_sent (si_stream sa) @ frame p"
    by (auto simp: cand_write_def socket_write_def)
next
  have "\<not> cc_our_id b > cc_their_id b" using assms(2,3) by simp
  then obtain s1 where s1: "cand_write E fb m b wb = cand_read E fb (b\<lparr>cc_socket := Some s1\<rparr>) wb" "inbox s1 = inbox sb"
      "outgoing s1 = outgoing sb" "si_read_len s1 = si_read_len sb" "ts_rx (si_stream s1) = ts_rx (si_stream sb)"
    using cand_write_listens [OF assms(5) _ assms(11,12)] by metis
  obtain r s2 where r: "sock_read (e_des E) s1 = (r, s2)" by fastforce
  have p: "length p \<le> MAX_PAYLOAD_SIZE" "\<And>x. e_des E (p @ x) = Some ChooseConnection"
    using assms(15,16) by (simp_all add: codec_ok_def)
  have "r = Inr None" if "inbox sb = []"
    using sock_read_wait [of s1 "e_des E"] r that s1 assms(13,14) by (auto simp: incomplete_def)
  moreover have "r = Inr (Some ChooseConnection)" if "inbox sb = frame p"
  proof -
    have i: "inbox s1 = frame p @ []" using that s1(2) by simp
    show ?thesis
      using sock_read_frame [of s1 p "[]" "e_des E" ChooseConnection, OF i p] r s1(4,5) assms(13,14) by auto
  qed
  ultimately show "\<exists>sb'. outgoing sb' = outgoing sb \<and>
      (inbox sb = [] \<longrightarrow> cand_write E fb m b wb = Some (b\<lparr>cc_socket := Some sb'\<rparr>, wb)) \<and>
      (inbox sb = frame p \<longrightarrow> cand_write E fb m b wb = cand_done fb (b\<lparr>cc_socket := Some sb'\<rparr>) wb)"
    using sock_read_outgoing [OF r] r s1(1,3)
    by (intro exI [of _ s2]) (auto simp: cand_read_def socket_read_def)
qed

definition ex_cand :: "nat \<Rightarrow> nat \<Rightarrow> socket \<Rightarrow> nat candidate" where
  "ex_cand our their so = \<lparr>cc_token = 6, cc_socket = so, cc_our_id = our, cc_their_id = their,
     cc_msg = Some (ChooseConnection, 0), cc_finish = FinListener\<rparr>"

theorem candidates_agree_witness:
  "\<exists>sb'. cand_write ex_env (cand_fin ex_env) None (ex_cand 9 20 (ex_socket [Inr [1, 0, 0, 0, 1]] [])) (ex_world []) =
     cand_done (cand_fin ex_env) (ex_cand 9 20 (Some sb')) (ex_world []) \<and> outgoing sb' = []"
proof -
  let ?a = "ex_cand 20 9 (ex_socket [] [])" and ?b = "ex_cand 9 20 (ex_socket [Inr [1, 0, 0, 0, 1]] [])"
  let ?sb = "the (cc_socket ?b)"
  note defs = ex_cand_def ex_socket_def socket_wrap_def ex_tcp_def ex_world_def ex_env_def cm_active_def
  have ids: "cc_their_id ?a = cc_our_id ?b" "cc_their_id ?b = cc_our_id ?a" "cc_our_id ?b < cc_our_id ?a"
    "cm_active (w_cm (ex_world [])) (cc_their_id ?a) = None" "cm_active (w_cm (ex_world [])) (cc_their_id ?b) = None"
    by (simp_all add: defs)
  have sa: "cc_socket ?a = Some (the (cc_socket ?a))" "si_write_queue (the (cc_socket ?a)) = []"
    "si_current_write (the (cc_socket ?a)) = None" "ts_tx (si_stream (the (cc_socket ?a))) = []"
    "ts_poll (si_stream (the (cc_socket ?a))) = []"
    by (simp_all add: defs)
  have sb: "cc_socket ?b = Some ?sb" "ts_poll (si_stream ?sb) = []" "si_read_len ?sb \<le> MAX_PAYLOAD_SIZE"
    "rx_only_data (ts_rx (si_stream ?sb))"
    by (simp_all add: defs)
  have e: "e_ser ex_env ChooseConnection = Some [1]" "codec_ok (e_ser ex_env) (e_des ex_env) ChooseConnection"
    by (simp_all add: defs codec_ok_def nat_des_def MAX_PAYLOAD_SIZE_def)
  have i: "inbox ?sb = frame [1]" "outgoing ?sb = []"
    by (simp_all add: defs inbox_def held_def outgoing_def frame_def write_u32_le_def)
  from candidates_agree [OF ids sa sb e, of "cand_fin ex_env" "cand_fin ex_env" None] i
  obtain sb' where "outgoing sb' = []"
    "cand_write ex_env (cand_fin ex_env) None ?b (ex_world []) = cand_done (cand_fin ex_env) (?b\<lparr>cc_socket := Some sb'\<rparr>) (ex_world [])"
    by auto
  then show ?thesis by (auto simp: ex_cand_def)
qed

section \<open>The end of a connect\<close>

lemma terminate_attempts_events:
  assumes "terminate_attempts ts w = Some w'" and "sys P d w"
    and "\<forall>t \<in> set ts. \<forall>s. w_states w t = Some s \<longrightarrow> child_of s \<noteq> None"
  shows "w_events w' = w_events w"
  using assms
proof (induction ts arbitrary: w)
  case (Cons t ts)
  show ?case
  proof (cases "w_states w t")
    case None
    with Cons show ?thesis by (simp add: get_state_def)
  next
    case (Some s)
    with Cons.prems(3) have ch: "child_of s \<noteq> None" by simp
    from Cons.prems(1) Some obtain w1 where w1: "terminate_attempt s w = Some w1" "terminate_attempts ts w1 = Some w'"
      by (auto simp: get_state_def split: bind_splits)
    from terminate_attempt_ok [OF Cons.prems(2) Some ch] w1(1)
    have ok: "sys P d w1" "w_states w1 = (w_states w)(t := None)" by auto
    have "w_events w1 = w_events w"
      using w1(1) ch by (cases s) (auto simp: cex_terminate_def cand_terminate_def Let_def)
    with Cons.IH [OF w1(2) ok(1)] Cons.prems(3) ok(2) show ?thesis by auto
  qed
qed simp

lemma connect_terminate_events:
  assumes "sys {cn_token self} d w" and "conn_local self w" and "connect_terminate self w = Some (self', w')"
  shows "w_events w' = w_events w @ (if w_cm w' (cn_their_id self) = None then [ConnectFailure (cn_their_id self)] else [])"
proof -
  have c: "\<forall>t \<in> set (cn_children self). \<forall>s. w_states w t = Some s \<longrightarrow> child_of s \<noteq> None"
    using conn_localD(2) [OF assms(2)] by fastforce
  from assms(3) obtain w1 where w1: "terminate_attempts (cn_children self) w = Some w1"
    and w': "w' = (let w = remove_state (cn_token self) (cancel_timeout (cn_timeout self) w1)
      in if w_cm w (cn_their_id self) = None then send_event (ConnectFailure (cn_their_id self)) w else w)"
    by (auto simp: connect_terminate_def Let_def split: bind_splits)
  from terminate_attempts_events [OF w1 assms(1) c] show ?thesis by (simp add: w' Let_def)
qed

text \<open>
  C8 A connect ends after its timeout: when its timer fires, the connect and all its attempts leave the
  loop and nothing else does; no attempt of it is left anywhere; the connection map stays exact; and
  the user hears \<open>ConnectFailure\<close> exactly when no handshake and no connection with the peer remains.
\<close>

theorem connect_timeout_ends:
  assumes "reachable E w" and "w_states w p = Some (StConnect c)" and "w_timers w x = Some (CoreTimer p k, dl)"
  shows "\<exists>w'. fire_all E [x] w = Some w' \<and>
    w_states w' = (\<lambda>t. if t = p \<or> t \<in> set (cn_children c) then None else w_states w t) \<and>
    (\<forall>t s u. w_states w' t = Some s \<longrightarrow> child_of s \<noteq> Some (p, u)) \<and>
    (\<forall>u. cm_handshakes (w_cm w') u = live w' u) \<and>
    w_events w' = w_events w @
      (if live w' (cn_their_id c) = 0 \<and> cm_active (w_cm w') (cn_their_id c) = None then [ConnectFailure (cn_their_id c)] else [])"
proof -
  let ?w = "cancel_timeout x w"
  have s: "sys {} no_debt ?w" using reachable_sys [OF assms(1)] by simp
  note o = conn_open [OF s, of p c, simplified, OF assms(2)]
  from connect_terminate_ok [of c no_debt ?w] o assms(2) obtain c' w' where
    t: "connect_terminate c ?w = Some (c', w')" and s': "sys {} no_debt w'" and c': "cn_token c' = p"
    and st0: "w_states w' = (\<lambda>t. if t = p \<or> t \<in> set (cn_children c) then None else w_states ?w t)"
    by auto
  have st: "w_states w' = (\<lambda>t. if t = p \<or> t \<in> set (cn_children c) then None else w_states w t)"
    by (simp add: st0 fun_eq_iff)
  have "put_state (StConnect c') w' = w'" using st c' by (simp add: put_state_def get_state_def)
  with t assms(2,3) have "fire_all E [x] w = Some w'"
    by (simp add: fire_def get_state_def run_state_def CoreTimer_def connect_timeout_def)
  moreover have "child_of s \<noteq> Some (p, u)" if "w_states w' t = Some s" for t s u
    using linksD(1) [OF sysD(2) [OF s'] that, of p u] st by (auto simp: parent_ok_def)
  moreover have "w_events w' = w_events w @ (if w_cm w' (cn_their_id c) = None then [ConnectFailure (cn_their_id c)] else [])"
    using connect_terminate_events [of c no_debt ?w, OF _ o(3) t] o by simp
  ultimately show ?thesis using st sys_entry(1,2) [OF s'] by simp
qed

theorem connect_timeout_ends_witness:
  "\<exists>w'. fire_all ex_env [1] ex_candidate = Some w' \<and> w_states w' 6 = None \<and> w_states w' 7 = None"
proof -
  obtain c where c: "w_states ex_candidate 6 = Some (StConnect c)" "cn_children c = [7]"
    and t: "w_timers ex_candidate 1 = Some (CoreTimer 6 0, 60000000000)"
    by (simp add: eval)
  from connect_timeout_ends [OF ex_reachable(3) c(1) t] c(2) show ?thesis by auto
qed

end
