(* ===== verification/Service_Facts.thy ===== *)
theory Service_Facts
  imports Active_Facts Handshake_Facts
begin

text \<open>
  What the calls of the service achieve once the event loop runs the messages they post.
\<close>

section \<open>Disconnecting and sending\<close>

text \<open>
  C14 \<open>disconnect\<close> ends the connection: for a connected peer it reports success and posts a message that,
  whenever the loop runs it while that connection lives, removes exactly that connection, tells
  the user once, and leaves every other peer connected as before.
\<close>

theorem disconnect_disconnects:
  assumes "reachable E w" and "cm_active (w_cm w) u = Some t" and "w_running w"
    and "reachable E w2" and "cm_active (w_cm w2) u = Some t"
  shows "disconnect u w = (True, w\<lparr>w_msgs := w_msgs w @ [MsgTerminate t]\<rparr>) \<and>
    (\<exists>w3. exec_msg E (MsgTerminate t) w2 = Some w3 \<and> \<not> is_connected u w3 \<and>
       w_states w3 = (w_states w2)(t := None) \<and> w_events w3 = w_events w2 @ [LostPeer u] \<and>
       (\<forall>v. v \<noteq> u \<longrightarrow> w_cm w3 v = w_cm w2 v))"
proof
  show "disconnect u w = (True, w\<lparr>w_msgs := w_msgs w @ [MsgTerminate t]\<rparr>)"
    using assms(2,3) by (simp add: disconnect_def post_def)
  from sys_entry(3) [OF reachable_sys [OF assms(4)] assms(5)] obtain a where
    a: "w_states w2 t = Some (StActive a)" "ac_token a = t" "ac_their_id a = u" by blast
  obtain a' w3 where r: "ac_terminate a w2 = (a', w3)" by fastforce
  note e = ac_terminate_effect [OF r]
  have "exec_msg E (MsgTerminate t) w2 = Some w3"
    using a(1) r by (simp add: msg_terminate_def get_state_def)
  moreover have "cm_active (w_cm w3) u = None"
    using cm.deactivate_law [OF acctD(2) [OF sysD(1) [OF reachable_sys [OF assms(4)]]], of u] e(3) a(3) by simp
  moreover have "w_cm w3 v = w_cm w2 v" if "v \<noteq> u" for v
    using ac_terminate_cm [of v a w2] that a(3) r by simp
  ultimately show "\<exists>w3. exec_msg E (MsgTerminate t) w2 = Some w3 \<and> \<not> is_connected u w3 \<and>
       w_states w3 = (w_states w2)(t := None) \<and> w_events w3 = w_events w2 @ [LostPeer u] \<and>
       (\<forall>v. v \<noteq> u \<longrightarrow> w_cm w3 v = w_cm w2 v)"
    using e(1,2) a by (auto simp: is_connected_def)
qed

theorem disconnect_disconnects_witness:
  "fst (disconnect 9 ex_connected) \<and>
   (\<exists>w3. exec_msg ex_env (MsgTerminate 7) ex_connected = Some w3 \<and> \<not> is_connected 9 w3 \<and>
      w_events w3 = [ConnectSuccess 9, LostPeer 9])"
proof -
  have "cm_active (w_cm ex_connected) 9 = Some 7" by (simp add: ex_connected cm_active_def)
  from disconnect_disconnects [OF ex_reachable(4) this ex_connected(8) ex_reachable(4) this] show ?thesis
    by (auto simp: ex_connected)
qed

text \<open>Writing on a connection when the kernel takes everything.\<close>

lemma ac_state_write_all:
  assumes "ac_socket a = Some s" and "si_write_queue s = []" and "si_current_write s = None"
    and "ts_tx (si_stream s) = []" and "ts_poll (si_stream s) = []" and "e_ser E (Data bytes) = Some q"
    and "w_timer_answers w = []"
  shows "\<exists>a' w' s'. ac_state_write E bytes p a w = Some (a', w') \<and> ac_token a' = ac_token a \<and>
    ac_their_id a' = ac_their_id a \<and> ac_socket a' = Some s' \<and>
    ts_sent (si_stream s') = ts_sent (si_stream s) @ frame q \<and> w_states w' = w_states w \<and> w_cm w' = w_cm w \<and>
    w_events w' = w_events w"
proof -
  from sock_write_idle_all [of s "e_ser E" "Data bytes" q "w_now w" "ac_token a" p, OF assms(2-6)] obtain s' where
    s': "sock_write (e_ser E) (w_now w) (ac_token a) (Some (Data bytes, p)) s = Some (Inr True, s')"
      "ts_sent (si_stream s') = ts_sent (si_stream s) @ frame q" by blast
  then have "ac_write E (Some (Data bytes, p)) a w = Some (a\<lparr>ac_socket := Some s'\<rparr>, w)"
    by (simp add: ac_write_def socket_write_def assms(1))
  then show ?thesis
    using s'(2) assms(7)
    by (simp add: ac_state_write_def ac_reset_send_heartbeat_def hb_reset_send_def set_timeout_ans cancel_timeout_def)
qed

text \<open>
  C5 A message that is sent arrives. When the socket of a connected peer is idle and the kernel takes
  what it is given, \<open>send\<close> and the message it posts put one frame on the stream; and an active
  connection at the other end that receives those bytes, in whatever pieces, delivers to its user
  exactly the bytes that were sent.
\<close>

theorem sent_message_arrives:
  assumes "reachable E w" and "w_running w" and "cm_active (w_cm w) u = Some t"
    and "w_states w t = Some (StActive a)" and "ac_socket a = Some s"
    and "si_write_queue s = []" and "si_current_write s = None"
    and "ts_tx (si_stream s) = []" and "ts_poll (si_stream s) = []" and "codec_ok (e_ser E) (e_des E) (Data bytes)"
  shows "\<exists>w1 w2 a' s' new. send u bytes p w = (Inr (), w1) \<and> w_msgs w1 = w_msgs w @ [MsgSend t bytes p] \<and>
    exec_msg E (MsgSend t bytes p) w = Some w2 \<and>
    w_states w2 t = Some (StActive a') \<and> ac_socket a' = Some s' \<and>
    ts_sent (si_stream s') = ts_sent (si_stream s) @ new \<and>
    (\<forall>b sb wb. ac_socket b = Some sb \<and> si_read_len sb = 0 \<and> si_read_buffer sb = [] \<and>
       rx_only_data (ts_rx (si_stream sb)) \<and> rx_data (ts_rx (si_stream sb)) = new \<and> w_timer_answers wb = [] \<longrightarrow>
       (\<exists>b' wb'. ac_read E b wb = (b', wb') \<and>
          w_events wb' = w_events wb @ [NewMessage (ac_their_id b) (ac_their_role b) bytes]))"
proof -
  note sy = reachable_sys [OF assms(1)]
  obtain q where q: "e_ser E (Data bytes) = Some q" using assms(10) by (auto simp: codec_ok_def split: option.splits)
  have tok: "ac_token a = t" using acctD(5) [OF sysD(1) [OF sy] assms(4)] by simp
  from ac_state_write_all [OF assms(5-9) q sysD(3) [OF sy], of p] obtain a' w' s' where
    r: "ac_state_write E bytes p a w = Some (a', w')" "ac_token a' = ac_token a" "ac_socket a' = Some s'"
      "ts_sent (si_stream s') = ts_sent (si_stream s) @ frame q" "w_states w' = w_states w" by blast
  have x: "exec_msg E (MsgSend t bytes p) w = Some (put_state (StActive a') w')"
    using r(1) assms(4) by (simp add: msg_send_def get_state_def run_state_def)
  have st: "w_states (put_state (StActive a') w') t = Some (StActive a')"
    using r(2,5) tok assms(4) by (simp add: put_state_def get_state_def)
  have "\<exists>b' wb'. ac_read E b wb = (b', wb') \<and>
      w_events wb' = w_events wb @ [NewMessage (ac_their_id b) (ac_their_role b) bytes]"
    if "ac_socket b = Some sb" "si_read_len sb = 0" "si_read_buffer sb = []" "rx_only_data (ts_rx (si_stream sb))"
      "rx_data (ts_rx (si_stream sb)) = frame q" "w_timer_answers wb = []" for b :: "'a active_conn" and sb wb
    using ac_read_frames [OF that(1), of "[Data bytes]" E "[]" wb] that assms(10) q
    by (auto simp: inbox_def held_def incomplete_def)
  moreover have "send u bytes p w = (Inr (), w\<lparr>w_msgs := w_msgs w @ [MsgSend t bytes p]\<rparr>)"
    using assms(2,3) by (simp add: send_def post_def)
  ultimately show ?thesis
    using x st r(3,4) by (intro exI [of _ "w\<lparr>w_msgs := w_msgs w @ [MsgSend t bytes p]\<rparr>"] exI [of _ "put_state (StActive a') w'"]
        exI [of _ a'] exI [of _ s'] exI [of _ "frame q"]) auto
qed

theorem sent_message_arrives_witness:
  "\<exists>w2 a' s' new. exec_msg ex_env (MsgSend 7 [42] 1) ex_connected = Some w2 \<and>
     w_states w2 7 = Some (StActive a') \<and> ac_socket a' = Some s' \<and>
     ts_sent (si_stream s') = ts_sent (si_stream (the (ac_socket ex_conn))) @ new"
proof -
  have a: "cm_active (w_cm ex_connected) 9 = Some 7" by (simp add: ex_connected cm_active_def)
  have s: "ac_socket ex_conn = Some (the (ac_socket ex_conn))" "si_write_queue (the (ac_socket ex_conn)) = []"
    "si_current_write (the (ac_socket ex_conn)) = None" "ts_tx (si_stream (the (ac_socket ex_conn))) = []"
    "ts_poll (si_stream (the (ac_socket ex_conn))) = []"
    by (simp_all add: ex_conn_def eval)
  have c: "codec_ok (e_ser ex_env) (e_des ex_env) (Data [42])"
    by (simp add: codec_ok_def ex_env_def nat_des_def MAX_PAYLOAD_SIZE_def)
  from sent_message_arrives [OF ex_reachable(4) ex_connected(8) a ex_connected(1) s c, of 1] show ?thesis by blast
qed

section \<open>The end of the loop\<close>




section \<open>Refreshing the configuration\<close>








end
