(* ===== verification/Net_Facts.thy ===== *)
theory Net_Facts
  imports IfAddrs
begin

text \<open>
  Facts on addresses: the classification of \<open>src/nat/util.rs\<close> against a table of address blocks, and
  the conversions and netmasks of \<open>src/common/get_if_addrs.rs\<close>.
\<close>

section \<open>Global addresses\<close>

text \<open>An IPv4 address as a number, and membership in a block \<open>base/len\<close>.\<close>

definition push_byte :: "nat \<Rightarrow> byte \<Rightarrow> nat" where
  "push_byte x b = x * 256 + unat b"

fun ipv4_nat :: "ipv4_addr \<Rightarrow> nat" where
  "ipv4_nat (Ipv4Addr a b c d) = push_byte (push_byte (push_byte (unat a) b) c) d"

definition in_block :: "ipv4_addr \<Rightarrow> ipv4_addr \<times> nat \<Rightarrow> bool" where
  "in_block ip blk = (ipv4_nat ip div 2 ^ (32 - snd blk) = ipv4_nat (fst blk) div 2 ^ (32 - snd blk))"

text \<open>The blocks that are not global: loopback, private use, link-local, multicast, broadcast, documentation, and
  the unspecified address.\<close>

definition non_global_blocks :: "(ipv4_addr \<times> nat) list" where
  "non_global_blocks =
    [(Ipv4Addr 127 0 0 0, 8), (Ipv4Addr 10 0 0 0, 8), (Ipv4Addr 172 16 0 0, 12), (Ipv4Addr 192 168 0 0, 16),
     (Ipv4Addr 169 254 0 0, 16), (Ipv4Addr 224 0 0 0, 4), (Ipv4Addr 255 255 255 255, 32),
     (Ipv4Addr 192 0 2 0, 24), (Ipv4Addr 198 51 100 0, 24), (Ipv4Addr 203 0 113 0, 24), (Ipv4Addr 0 0 0 0, 32)]"

lemma byte_less: "unat (b :: byte) < 256"
  using unsigned_less [of b, where 'a = nat] by simp

lemma push_byte_div: "push_byte x b div 256 = x"
  using byte_less [of b] by (simp add: push_byte_def div_plus_div_distrib_dvd_left)

lemma push_byte_div_16: "push_byte x b div 16 = x * 16 + unat b div 16"
  unfolding push_byte_def by presburger

lemma div_steps:
  fixes n :: nat
  shows "n div 65536 = n div 256 div 256" "n div 16777216 = n div 256 div 256 div 256"
    "n div 1048576 = n div 256 div 256 div 16" "n div 268435456 = n div 256 div 256 div 256 div 16"
  by (simp_all add: div_mult2_eq [symmetric])

lemma push_byte_eq: "push_byte x b = push_byte y c \<longleftrightarrow> x = y \<and> b = c"
proof
  assume e: "push_byte x b = push_byte y c"
  with push_byte_div [of x b] push_byte_div [of y c] have "x = y" by simp
  with e show "x = y \<and> b = c" by (simp add: push_byte_def word_unat_eq_iff)
qed simp

lemma div_16_eq: "n div 16 = k \<longleftrightarrow> 16 * k \<le> n \<and> n < 16 * k + (16 :: nat)"
proof
  assume "n div 16 = k"
  then have "n = 16 * k + n mod 16" by auto
  then show "16 * k \<le> n \<and> n < 16 * k + 16" using mod_less_divisor [of 16 n] by linarith
next
  assume "16 * k \<le> n \<and> n < 16 * k + 16"
  then show "n div 16 = k" by (intro div_nat_eqI) auto
qed

lemma block_4: "unat (a :: byte) div 16 = 14 \<longleftrightarrow> 224 \<le> a \<and> a \<le> 239"
  unfolding div_16_eq by (auto simp: word_le_nat_alt)

lemma block_12: "unat (a :: byte) * 16 + unat (b :: byte) div 16 = 2753 \<longleftrightarrow> a = 172 \<and> 16 \<le> b \<and> b \<le> 31"
proof -
  have lt: "unat b div 16 < 16" using byte_less [of b] by simp
  have "unat a * 16 + unat b div 16 = 2753 \<longleftrightarrow> unat a = 172 \<and> unat b div 16 = 1"
  proof
    assume "unat a * 16 + unat b div 16 = 2753"
    moreover have "x = 172 \<and> y = 1" if "x * 16 + y = 2753" "y < 16" for x y :: nat
      using that by presburger
    ultimately show "unat a = 172 \<and> unat b div 16 = 1" using lt by blast
  qed simp
  also have "\<dots> \<longleftrightarrow> a = 172 \<and> 16 \<le> b \<and> b \<le> 31"
    unfolding div_16_eq by (auto simp: word_le_nat_alt word_unat_eq_iff)
  finally show ?thesis .
qed

lemma in_block_simps:
  "in_block (Ipv4Addr a b c d) (Ipv4Addr e f g h, 8) \<longleftrightarrow> a = e"
  "in_block (Ipv4Addr a b c d) (Ipv4Addr e f g h, 16) \<longleftrightarrow> a = e \<and> b = f"
  "in_block (Ipv4Addr a b c d) (Ipv4Addr e f g h, 24) \<longleftrightarrow> a = e \<and> b = f \<and> c = g"
  "in_block (Ipv4Addr a b c d) (Ipv4Addr e f g h, 32) \<longleftrightarrow> a = e \<and> b = f \<and> c = g \<and> d = h"
  "in_block (Ipv4Addr a b c d) (Ipv4Addr 224 0 0 0, 4) \<longleftrightarrow> 224 \<le> a \<and> a \<le> 239"
  "in_block (Ipv4Addr a b c d) (Ipv4Addr 172 16 0 0, 12) \<longleftrightarrow> a = 172 \<and> 16 \<le> b \<and> b \<le> 31"
  by (auto simp: in_block_def div_steps push_byte_div push_byte_div_16 push_byte_eq word_unat_eq_iff block_4 block_12)

text \<open>
  C29 The test for global IPv4 addresses is membership in none of eleven address blocks.
\<close>

theorem ipv4_global_iff_no_block:
  "ipv4_addr_is_global ip \<longleftrightarrow> list_all (\<lambda>blk. \<not> in_block ip blk) non_global_blocks"
  by (cases ip) (auto simp: ipv4_addr_is_global_def non_global_blocks_def in_block_simps)

section \<open>Addresses of the operating system\<close>

unbundle bit_operations_syntax

text \<open>How the kernel stores an address: in network order, read on a little-endian host.\<close>

fun s_addr_of :: "ipv4_addr \<Rightarrow> u32" where
  "s_addr_of (Ipv4Addr a b c d) = ucast a OR push_bit 8 (ucast b) OR push_bit 16 (ucast c) OR push_bit 24 (ucast d)"

definition segment_bytes :: "u16 \<Rightarrow> byte list" where
  "segment_bytes s = [ucast (drop_bit 8 s), ucast s]"

definition s6_addr_of :: "ipv6_addr \<Rightarrow> byte list" where
  "s6_addr_of a = concat (map segment_bytes (ipv6_segments a))"

lemma and_255: "x AND 255 = take_bit 8 (x :: 'w::len word)"
  by (simp add: take_bit_eq_mask mask_eq_exp_minus_1)

lemma s_addr_octet:
  fixes a b c d :: byte
  defines "s \<equiv> s_addr_of (Ipv4Addr a b c d)"
  shows "ucast (s AND 255) = a" and "ucast (drop_bit 8 s AND 255) = b" and "ucast (drop_bit 16 s AND 255) = c"
    and "ucast (drop_bit 24 s AND 255) = d"
  unfolding s_def s_addr_of.simps and_255
  by (rule bit_word_eqI; auto simp: bit_simps dest: bit_imp_le_length)+

lemma octets_roundtrip: "octets_of_s_addr (s_addr_of a) = a"
  by (cases a) (simp only: octets_of_s_addr_def s_addr_octet)

lemma segment_roundtrip: "push_bit 8 (ucast (ucast (drop_bit 8 s) :: byte) AND 255) OR ucast (ucast s :: byte) = (s :: u16)"
  unfolding and_255 by (rule bit_word_eqI) (auto simp: bit_simps)

lemma segments_roundtrip: "segments_of_s6_addr (s6_addr_of a) = a"
  by (cases a)
    (simp add: segments_of_s6_addr_def s6_addr_of_def segment_at_def segment_bytes_def segment_roundtrip
      segment_roundtrip [simplified])

text \<open>Link-local: the first segment is \<open>fe80\<close>.\<close>

lemma link_local_bytes: "ucast (drop_bit 8 s) = (0xfe :: byte) \<and> ucast s = (0x80 :: byte) \<longleftrightarrow> s = (0xfe80 :: u16)"
proof
  assume "ucast (drop_bit 8 s) = (0xfe :: byte) \<and> ucast s = (0x80 :: byte)"
  with segment_roundtrip [of s] show "s = 0xfe80" by simp
qed simp

text \<open>
  C28 The conversion from the addresses of the operating system loses nothing: every IPv4 address in
  network order and every IPv6 address is read back, except for the link-local ones, which are
  skipped.
\<close>

theorem sockaddr_roundtrip:
  "sockaddr_to_ipaddr (Some (SockaddrIn (s_addr_of a))) = Some (V4 a) \<and>
   sockaddr_to_ipaddr (Some (SockaddrIn6 (s6_addr_of b))) =
     (if hd (ipv6_segments b) = 0xfe80 then None else Some (V6 b))"
  using link_local_bytes
  by (cases b)
    (simp add: sockaddr_to_ipaddr_def octets_roundtrip segments_roundtrip, simp add: s6_addr_of_def segment_bytes_def)

section \<open>Netmasks on Windows\<close>

lemma prefix_bits_from:
  fixes x y :: "'w::len word"
  assumes "base + LENGTH('w) \<le> plen + 1" and "k \<le> LENGTH('w)"
  shows "prefix_bits base plen x y [k..<LENGTH('w)] (mask k) =
    (if \<forall>n. k \<le> n \<and> n < LENGTH('w) \<longrightarrow> bit x n = bit y n then Some (- 1) else None)"
  using assms
proof (induction "LENGTH('w) - k" arbitrary: k)
  case 0
  then have "k = LENGTH('w)" by simp
  moreover have "mask LENGTH('w) = (- 1 :: 'w word)" by (rule bit_word_eqI) (simp add: bit_simps)
  ultimately show ?case by simp
next
  case (Suc n)
  then have k: "k < LENGTH('w)" by simp
  then have u: "[k..<LENGTH('w)] = k # [Suc k..<LENGTH('w)]" by (simp add: upt_conv_Cons)
  have m: "mask k OR push_bit k 1 = (mask (Suc k) :: 'w word)"
    by (rule bit_word_eqI) (auto simp: bit_simps)
  have e: "x AND push_bit k 1 = y AND push_bit k 1 \<longleftrightarrow> bit x k = bit y k"
  proof
    assume "x AND push_bit k 1 = y AND push_bit k 1"
    then have "bit (x AND push_bit k 1) k = bit (y AND push_bit k 1) k" by simp
    with k show "bit x k = bit y k" by (simp add: bit_simps)
  next
    assume "bit x k = bit y k"
    then show "x AND push_bit k 1 = y AND push_bit k 1"
      by (intro bit_word_eqI) (auto simp: bit_simps)
  qed
  have d: "(\<forall>n. k \<le> n \<and> n < LENGTH('w) \<longrightarrow> bit x n = bit y n) \<longleftrightarrow>
      bit x k = bit y k \<and> (\<forall>n. Suc k \<le> n \<and> n < LENGTH('w) \<longrightarrow> bit x n = bit y n)"
    using k by (metis le_eq_less_or_eq Suc_le_eq)
  have ih: "prefix_bits base plen x y [Suc k..<LENGTH('w)] (mask (Suc k)) =
      (if \<forall>n. Suc k \<le> n \<and> n < LENGTH('w) \<longrightarrow> bit x n = bit y n then Some (- 1) else None)"
    by (rule Suc.hyps(1)) (use Suc k in simp_all)
  have "\<not> plen < base + k" using k assms(1) by simp
  then have "prefix_bits base plen x y [k..<LENGTH('w)] (mask k) =
      (if bit x k = bit y k then prefix_bits base plen x y [Suc k..<LENGTH('w)] (mask (Suc k)) else None)"
    by (simp only: u prefix_bits.simps Let_def m e if_False)
  then show ?case unfolding d ih by simp
qed

lemma prefix_bits_whole:
  fixes x y :: "'w::len word"
  assumes "base + LENGTH('w) \<le> plen + 1"
  shows "prefix_bits base plen x y [0..<LENGTH('w)] 0 = (if x = y then Some (- 1) else None)"
proof -
  have "(\<forall>n. n < LENGTH('w) \<longrightarrow> bit x n = bit y n) \<longleftrightarrow> x = y" by (auto intro: bit_word_eqI)
  with prefix_bits_from [OF assms, of 0 x y] show ?thesis by simp
qed

lemma prefix_mask_octets:
  fixes xs ys :: "byte list"
  assumes "length xs = length ys" and "n + length xs = 4" and "k \<le> 4"
  shows "prefix_mask 8 (8 * k) n xs ys =
    (if take (k - n) xs = take (k - n) ys then Some (replicate (min (length xs) (k - n)) (- 1) @ replicate (length xs - (k - n)) 0)
     else None)"
  using assms
proof (induction xs ys arbitrary: n rule: list_induct2)
  case (Cons x xs y ys)
  have lim: "(8 * k + 8 - 1) div 8 = k" by simp
  show ?case
  proof (cases "n < k")
    case True
    have "prefix_bits (n * 8) (8 * k) x y [0..<8] 0 = (if x = y then Some (- 1) else None)"
      using prefix_bits_whole [of "n * 8" "8 * k" x y] True by simp
    moreover have "k - n = Suc (k - Suc n)" using True by simp
    ultimately show ?thesis using Cons.IH [of "Suc n"] Cons.prems True lim by (simp add: Cons.hyps)
  next
    case False
    then show ?thesis using Cons.IH [of "Suc n"] Cons.prems lim by (simp add: Cons.hyps)
  qed
qed simp

text \<open>
  For a prefix of whole octets the search for the netmask is right: an address matches the prefix
  exactly when the octets agree, and the netmask has exactly those octets set.
\<close>

lemma windows_octet_prefix:
  assumes "k \<le> 4"
  shows "prefix_mask 8 (8 * k) 0 (ipv4_octets ip) (ipv4_octets a) =
    (if take k (ipv4_octets ip) = take k (ipv4_octets a) then Some (replicate k 255 @ replicate (4 - k) 0) else None)"
proof -
  have "length (ipv4_octets ip) = 4" "length (ipv4_octets a) = 4" by (cases ip; cases a; simp)+
  moreover have "(- 1 :: byte) = 255" by simp
  ultimately show ?thesis
    using prefix_mask_octets [of "ipv4_octets ip" "ipv4_octets a" 0 k] assms by (simp add: min_absorb2)
qed


end
