(* ===== verification/Startup_Facts.thy ===== *)
theory Startup_Facts
  imports Example
begin

text \<open>
  Facts on the services that exist once: discovery on the local network, bootstrapping and the
  listener.
\<close>

section \<open>Service discovery\<close>



lemma obs_send_other: "obs_send ch msg w = (ok, w1) \<Longrightarrow> ch' \<noteq> ch \<Longrightarrow> w_chans w1 ch' = w_chans w ch'"
  by (auto simp: obs_send_def split: option.splits)

text \<open>
  An answer found on the network reaches every observer that still listens, exactly once, and the
  observers that have gone are forgotten.
\<close>

lemma observers_notified:
  assumes "distinct chs" and "notify_observers chs msg w = (obs, w')"
  shows "obs = filter (\<lambda>ch. w_chans w ch \<noteq> None) chs \<and>
    w_chans w' = (\<lambda>ch. if ch \<in> set chs then map_option (\<lambda>q. q @ [msg]) (w_chans w ch) else w_chans w ch)"
  using assms
proof (induction chs arbitrary: w obs w')
  case (Cons ch chs)
  obtain ok w1 where s: "obs_send ch msg w = (ok, w1)" by fastforce
  obtain rest w2 where n: "notify_observers chs msg w1 = (rest, w2)" by fastforce
  have w': "w' = w2" "obs = (if ok then ch # rest else rest)" using Cons.prems(2) s n by auto
  have c: "ok \<longleftrightarrow> w_chans w ch \<noteq> None" "w_chans w1 ch = map_option (\<lambda>q. q @ [msg]) (w_chans w ch)"
    using s by (auto simp: obs_send_def split: option.splits)
  have other: "w_chans w1 ch' = w_chans w ch'" if "ch' \<in> set chs" for ch'
    using obs_send_other [OF s, of ch'] that Cons.prems(1) by auto
  from Cons.IH [OF _ n] Cons.prems(1) have
    ih: "rest = filter (\<lambda>ch. w_chans w1 ch \<noteq> None) chs"
      "w_chans w2 = (\<lambda>ch. if ch \<in> set chs then map_option (\<lambda>q. q @ [msg]) (w_chans w1 ch) else w_chans w1 ch)"
    by auto
  have "filter (\<lambda>ch. w_chans w1 ch \<noteq> None) chs = filter (\<lambda>ch. w_chans w ch \<noteq> None) chs"
    by (rule filter_cong) (simp_all add: other)
  moreover have "w_chans w2 x = (if x \<in> set (ch # chs) then map_option (\<lambda>q. q @ [msg]) (w_chans w x) else w_chans w x)" for x
    using ih(2) other [of x] c(2) obs_send_other [OF s, of x] Cons.prems(1) by auto
  ultimately show ?case using w' ih(1) c(1) by auto
qed simp

section \<open>Bootstrapping\<close>

lemma try_peer_start_contacts:
  assumes "try_peer_start peer our nh ext p w = (r, w')" and "w_states w' t = Some (StTryPeer s)"
  shows "w_states w t = Some (StTryPeer s) \<or> tp_peer s = peer"
  using assms
  by (auto simp: try_peer_start_def Let_def get_new_token_def dest!: socket_connect_eqD
      split: prod.splits sum.splits option.splits if_splits)

lemma try_peers_contacts:
  assumes "try_peers ps self w = (self', w')" and "w_states w' t = Some (StTryPeer s)"
  shows "w_states w t = Some (StTryPeer s) \<or> tp_peer s \<in> set ps"
  using assms
proof (induction ps self w rule: try_peers.induct)
  case (2 peer peers self w)
  then show ?case
    by (auto split: prod.splits sum.splits dest: try_peer_start_contacts)
qed simp

lemma bs_terminate_childless:
  assumes "bs_children self = []"
  obtains w' where "bs_terminate self w = Some (self\<lparr>bs_sd_meta := None\<rparr>, w')" and "w_events w' = w_events w"
    and "w_states w' = (w_states w)(bs_token self := None)"
proof -
  have "self\<lparr>bs_children := []\<rparr> = self" using assms by (cases self) simp
  with assms that show ?thesis
    by (auto simp: bs_terminate_def Let_def drop_receiver_def split: option.splits)
qed

lemma try_peer_start_events: "try_peer_start peer our nh ext p w = (r, w') \<Longrightarrow> w_events w' = w_events w"
  by (auto simp: try_peer_start_def Let_def get_new_token_def dest!: socket_connect_quiet
      split: prod.splits sum.splits option.splits) (auto simp: quiet_def)

lemma try_peers_events: "try_peers ps self w = (self', w') \<Longrightarrow> w_events w' = w_events w"
  by (induction ps self w rule: try_peers.induct) (auto split: prod.splits sum.splits dest!: try_peer_start_events)

lemma try_peers_token: "try_peers ps self w = (self', w') \<Longrightarrow> bs_token self' = bs_token self"
  by (induction ps self w rule: try_peers.induct) (auto split: prod.splits sum.splits)

text \<open>
  C23 A bootstrap asks only contacts that are not blacklisted, and does not hang: it never panics, and
  when not a single request could be started the user hears \<open>BootstrapFailed\<close> at once and the
  bootstrap is gone. The shuffle of the random number generator reorders the contacts.
\<close>

theorem bootstrap_asks_allowed_peers:
  assumes "\<forall>xs. set (e_shuffle E xs) = set xs" and "bs_children self = []"
  shows "\<exists>self' w'. begin_bootstrap E self w = Some (self', w') \<and>
    (\<forall>t s. w_states w' t = Some (StTryPeer s) \<longrightarrow>
       w_states w t = Some (StTryPeer s) \<or> tp_peer s \<in> set (bs_peers self) \<and> tp_peer s \<notin> bs_blacklist self) \<and>
    (if bs_children self' = [] then w_events w' = w_events w @ [BootstrapFailed] \<and> w_states w' (bs_token self) = None
     else w_events w' = w_events w)"
proof -
  let ?self = "self\<lparr>bs_peers := []\<rparr>" and ?ps = "filter (\<lambda>addr. addr \<notin> bs_blacklist self) (bs_peers self)"
  show ?thesis
  proof (cases "?ps = []")
    case True
    obtain w' where w': "bs_terminate ?self (send_event BootstrapFailed w) = Some (?self\<lparr>bs_sd_meta := None\<rparr>, w')"
        "w_events w' = w_events w @ [BootstrapFailed]" "w_states w' = (w_states w)(bs_token self := None)"
      using bs_terminate_childless [of ?self "send_event BootstrapFailed w"] assms(2) by auto
    with True assms(2) show ?thesis by (auto simp: begin_bootstrap_def Let_def)
  next
    case False
    obtain self1 w1 where t: "try_peers (e_shuffle E ?ps) ?self w = (self1, w1)" by fastforce
    have c: "w_states w t = Some (StTryPeer s) \<or> tp_peer s \<in> set (bs_peers self) \<and> tp_peer s \<notin> bs_blacklist self"
      if "w_states w1 t = Some (StTryPeer s)" for t s
      using try_peers_contacts [OF t that] assms(1) by auto
    have tok: "bs_token self1 = bs_token self"
      using try_peers_token [OF t] by simp
    show ?thesis
    proof (cases "bs_children self1 = []")
      case True
      obtain w' where w': "bs_terminate self1 w1 = Some (self1\<lparr>bs_sd_meta := None\<rparr>, w')"
          "w_events w' = w_events w1" "w_states w' = (w_states w1)(bs_token self := None)"
        using bs_terminate_childless [OF True] tok by metis
      with True False t c try_peers_events [OF t] show ?thesis
        by (auto simp: begin_bootstrap_def bs_maybe_terminate_def Let_def)
    next
      case ne: False
      with False t c try_peers_events [OF t] show ?thesis
        by (auto simp: begin_bootstrap_def bs_maybe_terminate_def Let_def)
    qed
  qed
qed

definition ex_bootstrap :: "nat bootstrap" where
  "ex_bootstrap = \<lparr>bs_token = 0, bs_peers = [ex_addr 1, ex_addr 2], bs_blacklist = {ex_addr 1}, bs_name_hash = [],
     bs_ext_reachability = NotRequired, bs_our_uid = 20, bs_sd_meta = None, bs_timer = CoreTimer 0 0, bs_timeout = 0,
     bs_children = []\<rparr>"

theorem bootstrap_asks_allowed_peers_witness:
  "\<exists>self' w'. begin_bootstrap ex_env ex_bootstrap (ex_world [Inr (ex_tcp [] [])]) = Some (self', w') \<and>
    (\<forall>t s. w_states w' t = Some (StTryPeer s) \<longrightarrow> tp_peer s = ex_addr 2)"
proof -
  have "\<forall>xs. set (e_shuffle ex_env xs) = set xs" "bs_children ex_bootstrap = []"
    by (simp_all add: ex_env_def ex_bootstrap_def)
  from bootstrap_asks_allowed_peers [OF this, of "ex_world [Inr (ex_tcp [] [])]"] obtain self' w' where
    "begin_bootstrap ex_env ex_bootstrap (ex_world [Inr (ex_tcp [] [])]) = Some (self', w')"
    "\<forall>t s. w_states w' t = Some (StTryPeer s) \<longrightarrow> w_states (ex_world [Inr (ex_tcp [] [])]) t = Some (StTryPeer s) \<or>
       tp_peer s \<in> set (bs_peers ex_bootstrap) \<and> tp_peer s \<notin> bs_blacklist ex_bootstrap"
    by blast
  then show ?thesis by (auto simp: ex_bootstrap_def ex_world_def)
qed

section \<open>The listener\<close>

lemma lex_start_ok:
  assumes "ts_poll st = []" and "w_timer_answers w = []"
  obtains w' s where "lex_start tmo (socket_wrap st) acc our nh w = (Inr (), w')"
    and "w_states w' = (w_states w)(w_token_counter w \<mapsto> StListenEx s)" and "le_next_state s = NsNone"
    and "le_accept_bootstrap s = acc" and "le_our_uid s = our" and "le_name_hash s = nh"
    and "w_token_counter w' = Suc (w_token_counter w)" and "w_timer_answers w' = []"
  using assms that
  by (simp add: lex_start_def get_new_token_def socket_wrap_def socket_register_def tcp_register_def
      set_timeout_def insert_state_def Let_def)

text \<open>
  C24 The listener takes the whole backlog. When the kernel grants registrations and timers, every
  connection accepted before the first error gets a message exchange of its own under a new token,
  with the listener's settings, and what comes after the error stays for the next event.
\<close>

theorem listener_accepts_backlog:
  assumes "tl_accepts (cl_listener self) = map Inr sts @ Inl e # rest" and "\<forall>st \<in> set sts. ts_poll st = []"
    and "w_timer_answers w = []" and "listener_accept self w = (self', w')"
  shows "tl_accepts (cl_listener self') = rest \<and> w_token_counter w' = w_token_counter w + length sts \<and>
    (\<forall>t < w_token_counter w. w_states w' t = w_states w t) \<and>
    (\<forall>i < length sts. \<exists>s. w_states w' (w_token_counter w + i) = Some (StListenEx s) \<and> le_next_state s = NsNone \<and>
       le_accept_bootstrap s = cl_accept_bootstrap self \<and> le_our_uid s = cl_our_uid self \<and>
       le_name_hash s = cl_name_hash self)"
  using assms
proof (induction sts arbitrary: self w)
  case Nil
  then show ?case by (subst (asm) listener_accept.simps) (auto simp: tl_accept_def)
next
  case (Cons st sts)
  let ?self = "self\<lparr>cl_listener := (cl_listener self)\<lparr>tl_accepts := map Inr sts @ Inl e # rest\<rparr>\<rparr>"
  obtain w1 s where l: "lex_start (cl_timeout_sec self) (socket_wrap st) (cl_accept_bootstrap self) (cl_our_uid self)
        (cl_name_hash self) w = (Inr (), w1)"
      "w_states w1 = (w_states w)(w_token_counter w \<mapsto> StListenEx s)" "le_next_state s = NsNone"
      "le_accept_bootstrap s = cl_accept_bootstrap self" "le_our_uid s = cl_our_uid self" "le_name_hash s = cl_name_hash self"
      "w_token_counter w1 = Suc (w_token_counter w)" "w_timer_answers w1 = []"
    using lex_start_ok [of st w] Cons.prems(2,3) by (metis list.set_intros(1))
  have "listener_accept ?self w1 = (self', w')"
    using Cons.prems(1,4) l(1) by (subst (asm) listener_accept.simps) (simp add: tl_accept_def)
  from Cons.IH [OF _ _ l(8) this] Cons.prems(2) have ih:
    "tl_accepts (cl_listener self') = rest" "w_token_counter w' = w_token_counter w1 + length sts"
    "\<forall>t < w_token_counter w1. w_states w' t = w_states w1 t"
    "\<forall>i < length sts. \<exists>s. w_states w' (w_token_counter w1 + i) = Some (StListenEx s) \<and> le_next_state s = NsNone \<and>
       le_accept_bootstrap s = cl_accept_bootstrap self \<and> le_our_uid s = cl_our_uid self \<and>
       le_name_hash s = cl_name_hash self"
    by simp_all
  have "\<exists>s. w_states w' (w_token_counter w + i) = Some (StListenEx s) \<and> le_next_state s = NsNone \<and>
       le_accept_bootstrap s = cl_accept_bootstrap self \<and> le_our_uid s = cl_our_uid self \<and>
       le_name_hash s = cl_name_hash self" if "i < length (st # sts)" for i
  proof (cases i)
    case 0
    with ih(3) l(2-7) show ?thesis by auto
  next
    case (Suc j)
    with ih(4) l(7) that show ?thesis by simp
  qed
  moreover have "\<forall>t < w_token_counter w. w_states w' t = w_states w t" using ih(3) l(2,7) by auto
  ultimately show ?case using ih(1,2) l(7) by simp
qed

definition ex_listener :: "nat conn_listener" where
  "ex_listener = \<lparr>cl_token = 2, cl_listener = \<lparr>tl_accepts = [Inr (ex_tcp [] []), Inr (ex_tcp [] []), Inl WouldBlock], tl_poll = [], tl_local = Inr (ex_addr 7),
     tl_reg = None\<rparr>, cl_name_hash = [], cl_our_uid = 20, cl_timeout_sec = None, cl_accept_bootstrap = True\<rparr>"

theorem listener_accepts_backlog_witness:
  "\<exists>self' w' s. listener_accept ex_listener (ex_world []) = (self', w') \<and> w_token_counter w' = 8 \<and>
     w_states w' 7 = Some (StListenEx s) \<and> le_accept_bootstrap s"
proof -
  obtain self' w' where r: "listener_accept ex_listener (ex_world []) = (self', w')" by fastforce
  have a: "tl_accepts (cl_listener ex_listener) = map Inr [ex_tcp [] [], ex_tcp [] []] @ Inl WouldBlock # []"
    "\<forall>st \<in> set [ex_tcp [] [], ex_tcp [] []]. ts_poll st = []" "w_timer_answers (ex_world []) = []"
    "w_token_counter (ex_world []) = 6" "cl_accept_bootstrap ex_listener"
    by (simp_all add: ex_listener_def ex_tcp_def ex_world_def)
  from listener_accepts_backlog [OF a(1-3) r] have
    n: "w_token_counter w' = 8" "\<forall>i < length [ex_tcp [] [], ex_tcp [] []]. \<exists>s. w_states w' (6 + i) = Some (StListenEx s) \<and>
      le_accept_bootstrap s"
    using a(4,5) by (simp_all, metis)
  from n(2) [rule_format, of 1] n(1) r show ?thesis by auto
qed

text \<open>
  C27 The port forced into the external addresses: the mapped addresses are all kept and no new IP address
  appears; and when the option is set, the port is given and some mapped address is global, then a
  global address with that port is published.
\<close>

theorem forced_port_published:
  "set mapped \<subseteq> set (listener_addrs port force mapped) \<and>
   sa_ip ` set (listener_addrs port force mapped) = sa_ip ` set mapped \<and>
   (force \<and> port \<noteq> 0 \<and> (\<exists>s \<in> set mapped. ip_addr_is_global (sa_ip s)) \<longrightarrow>
     (\<exists>s \<in> set (listener_addrs port force mapped). ip_addr_is_global (sa_ip s) \<and> sa_port s = port))"
proof -
  let ?new = "List.map_filter (\<lambda>s. if ip_addr_is_global (sa_ip s) then Some (set_port port s) else None) mapped"
  have new: "x \<in> set ?new \<longleftrightarrow> (\<exists>s \<in> set mapped. ip_addr_is_global (sa_ip s) \<and> x = set_port port s)" for x
    by (auto simp: set_map_filter split: if_splits)
  have ip: "sa_ip (set_port port s) = sa_ip s" "sa_port (set_port port s) = port" for s
    by (simp_all add: set_port_def)
  show ?thesis
  proof (cases "force \<and> port \<noteq> 0 \<and> \<not> list_ex (\<lambda>s. ip_addr_is_global (sa_ip s) \<and> sa_port s = port) mapped")
    case True
    then have l: "listener_addrs port force mapped = mapped @ ?new" by (simp add: listener_addrs_def)
    have "sa_ip ` set ?new \<subseteq> sa_ip ` set mapped" using new ip(1) by fastforce
    moreover have "\<exists>x \<in> set ?new. ip_addr_is_global (sa_ip x) \<and> sa_port x = port"
      if "s \<in> set mapped" "ip_addr_is_global (sa_ip s)" for s
      by (rule bexI [of _ "set_port port s"]) (use that ip new in auto)
    ultimately show ?thesis unfolding l set_append image_Un by blast
  next
    case False
    then show ?thesis by (auto simp: listener_addrs_def list_ex_iff)
  qed
qed

theorem forced_port_published_witness:
  "\<exists>s \<in> set (listener_addrs 5000 True [ex_addr 1\<lparr>sa_port := 77\<rparr>]). ip_addr_is_global (sa_ip s) \<and> sa_port s = 5000"
proof -
  have "ip_addr_is_global (sa_ip (ex_addr 1\<lparr>sa_port := 77\<rparr>))"
    by (simp add: ex_addr_def ipv4_addr_is_global_def)
  then show ?thesis using forced_port_published [of "[ex_addr 1\<lparr>sa_port := 77\<rparr>]" 5000 True] by simp
qed

end
