(* ===== verification/Defects.thy ===== *)
theory Defects
  imports Active_Facts Handshake_Facts Startup_Facts
begin

text \<open>
  Where the code does not do what it means to: each theorem shows a situation that the steps of
  \<open>clean_step\<close> exclude, and what it does to the connection map, the timers or the thread of the
  event loop. The runs start in reachable worlds.
\<close>

section \<open>Runs\<close>

text \<open>A service with identifier \<open>our\<close> that connects to peer 9 under the given addresses.\<close>

definition run_msg :: "nat \<Rightarrow> byte list \<Rightarrow> nat core_msg" where
  "run_msg our ns =
     MsgConnect \<lparr>priv_id = our, priv_for_direct = [], priv_for_hole_punch = [], priv_hole_punch_socket = None\<rparr>
       \<lparr>pub_id = 9, pub_for_hole_punch = [], pub_for_direct = map ex_addr ns\<rparr> []"

definition run_new :: "nat \<Rightarrow> tcp_stream list \<Rightarrow> nat service \<times> nat world" where
  "run_new our cs = projr (with_config (\<lambda>_. []) (Inr []) (\<lambda>_. None) None config_default our (ex_world (map Inr cs)))"

definition run_started :: "nat \<Rightarrow> tcp_stream list \<Rightarrow> nat world" where
  "run_started our cs = the (exec_msg ex_env MsgStartConfigRefresher ((snd (run_new our cs))\<lparr>w_msgs := []\<rparr>))"

definition run_connecting :: "nat \<Rightarrow> byte list \<Rightarrow> tcp_stream list \<Rightarrow> nat world" where
  "run_connecting our ns cs = the (exec_msg ex_env (run_msg our ns) (run_started our cs))"

lemmas eval_run = run_msg_def run_new_def run_started_def run_connecting_def

lemma run_new_eq:
  "with_config (\<lambda>_. []) (Inr []) (\<lambda>_. None) None config_default our (ex_world (map Inr cs)) = Inr (run_new our cs)"
  by (simp add: eval eval_run)

lemma run_reachable:
  assumes "exec_msg ex_env (run_msg our ns) (run_started our cs) \<noteq> None"
    and "w_token_counter (run_connecting our ns cs) < 2 ^ 64"
  shows "reachable ex_env (run_connecting our ns cs)"
proof -
  have n: "reachable ex_env (snd (run_new our cs))"
    unfolding reachable_def
  proof (intro exI conjI)
    show "with_config (\<lambda>_. []) (Inr []) (\<lambda>_. None) None config_default our (ex_world (map Inr cs)) =
        Inr (fst (run_new our cs), snd (run_new our cs))"
      using run_new_eq by simp
  qed (simp_all add: ex_world_def)
  have s: "clean_step ex_env (snd (run_new our cs)) (run_started our cs)"
    by (rule clean_step.message [of _ MsgStartConfigRefresher "[]"]) (simp_all add: eval eval_run)
  let ?w = "snd (post (run_msg our ns) (run_started our cs))"
  have p: "clean_step ex_env (run_started our cs) ?w" by (rule clean_step.call)
  have m: "clean_step ex_env ?w (run_connecting our ns cs)"
  proof (rule clean_step.message [of _ "run_msg our ns" "[]"])
    show "w_msgs ?w = [run_msg our ns]" by (simp add: eval eval_run)
    have "?w\<lparr>w_msgs := []\<rparr> = run_started our cs" by (simp add: eval eval_run)
    with assms(1) show "exec_msg ex_env (run_msg our ns) (?w\<lparr>w_msgs := []\<rparr>) = Some (run_connecting our ns cs)"
      by (auto simp: run_connecting_def)
  qed (rule assms(2))
  from n s p m show ?thesis by (meson reachable_step)
qed

section \<open>One event for reading and writing\<close>

text \<open>The interest under which the socket of an attempt or a candidate is registered.\<close>

fun state_interest :: "'u state option \<Rightarrow> ready option" where
  "state_interest (Some (StConnectEx c)) = Option.bind (ce_socket c) (\<lambda>s. map_option snd (ts_reg (si_stream s)))"
| "state_interest (Some (StCandidate c)) = Option.bind (cc_socket c) (\<lambda>s. map_option snd (ts_reg (si_stream s)))"
| "state_interest _ = None"

text \<open>Two attempts, the first of which could send only a part of its message.\<close>

definition two_connecting :: "nat world" where
  "two_connecting = run_connecting 20 [1, 2] [ex_tcp [Inl (OtherIo 1)] [Inr 1, Inl (OtherIo 1)], ex_tcp [] []]"

definition two_attempts :: "nat world" where
  "two_attempts = ex_step wr 7 two_connecting"

lemma two_attempts_reachable: "reachable ex_env two_attempts"
proof -
  have "reachable ex_env two_connecting"
    unfolding two_connecting_def by (rule run_reachable) (simp_all add: eval eval_run)
  moreover have "clean_step ex_env two_connecting two_attempts"
    unfolding two_attempts_def
    by (rule ex_ready_step) (simp_all add: two_connecting_def eval eval_run one_kind_def)
  ultimately show ?thesis by (rule reachable_step)
qed

lemmas eval_two = two_attempts_def two_connecting_def eval eval_run

text \<open>
  C30 An attempt that fails twice in one event is subtracted twice. An outgoing attempt that waits to send the rest
  of its message is registered for reading and writing; \<open>ready\<close> goes on to
  read after the write has failed and the attempt has been terminated; when the read fails
  too, the handshake is subtracted again, at the expense of another attempt to the same
  peer, which stays in the loop with no entry in the connection map.
\<close>

theorem failed_attempt_subtracted_twice:
  "reachable ex_env two_attempts \<and> state_interest (w_states two_attempts 7) = Some ready_erhw \<and>
   cm_handshakes (w_cm two_attempts) 9 = 2 \<and>
   (\<exists>w' c. handle_event ex_env 7 rdwr two_attempts = Some w' \<and> w_states w' 7 = None \<and>
      w_states w' 8 = Some (StConnectEx c) \<and> ce_expected_id c = 9 \<and> w_cm w' 9 = None)"
proof -
  have "state_interest (w_states two_attempts 7) = Some ready_erhw" "cm_handshakes (w_cm two_attempts) 9 = 2"
    by (simp_all add: eval_two)
  moreover have "\<exists>w' c. handle_event ex_env 7 rdwr two_attempts = Some w' \<and> w_states w' 7 = None \<and>
      w_states w' 8 = Some (StConnectEx c) \<and> ce_expected_id c = 9 \<and> w_cm w' 9 = None"
    by (simp add: eval_two)
  ultimately show ?thesis using two_attempts_reachable by blast
qed

text \<open>A candidate of the end that chooses: it has sent a part of its choice when the peer chooses, too.\<close>

definition choosing_connecting :: "nat world" where
  "choosing_connecting = run_connecting 20 [1] [ex_tcp [Inr (ex_frame [2, 9]), Inr (ex_frame [1])] [Inr 6, Inr 1]]"

definition choosing_candidate :: "nat world" where
  "choosing_candidate = ex_step wr 7 (ex_step rd 7 (ex_step wr 7 choosing_connecting))"

lemmas eval_choosing = choosing_candidate_def choosing_connecting_def eval eval_run

lemma choosing_candidate_reachable: "reachable ex_env choosing_candidate"
proof -
  let ?w = choosing_connecting
  have "reachable ex_env ?w"
    unfolding choosing_connecting_def by (rule run_reachable) (simp_all add: eval eval_run)
  moreover have "clean_step ex_env ?w (ex_step wr 7 ?w)"
    by (rule ex_ready_step) (simp_all add: eval_choosing one_kind_def)
  moreover have "clean_step ex_env (ex_step wr 7 ?w) (ex_step rd 7 (ex_step wr 7 ?w))"
    by (rule ex_ready_step) (simp_all add: eval_choosing one_kind_def)
  moreover have "clean_step ex_env (ex_step rd 7 (ex_step wr 7 ?w)) choosing_candidate"
    unfolding choosing_candidate_def by (rule ex_ready_step) (simp_all add: eval_choosing one_kind_def)
  ultimately show ?thesis by (meson reachable_step)
qed

lemma unat_minus_one_64: "unat (- 1 :: usize) = 18446744073709551615"
  by (simp add: unsigned_minus_1_eq_mask mask_eq_exp_minus_1)

text \<open>
  C31 A peer that chooses out of turn destroys the bookkeeping. While a candidate waits to send the rest of its choice, an event for reading
  and writing brings a choice from the peer. The candidate becomes an active
  connection, and \<open>ready\<close> goes on to write; the peer is
  connected by now, so the candidate takes itself for superfluous, removes the new connection's state from the loop
  and subtracts a handshake that is no longer counted: the user was told \<open>ConnectSuccess\<close>, the
  connection map names a connection that does not exist, and its counter has wrapped around.
\<close>

theorem chosen_candidate_removes_connection:
  "reachable ex_env choosing_candidate \<and> state_interest (w_states choosing_candidate 7) = Some ready_erhw \<and>
   (\<exists>w'. handle_event ex_env 7 rdwr choosing_candidate = Some w' \<and> w_events w' = [ConnectSuccess 9] \<and>
      w_states w' 7 = None \<and> cm_active (w_cm w') 9 = Some 7 \<and> cm_handshakes (w_cm w') 9 = 2 ^ 64 - 1)"
proof -
  have "state_interest (w_states choosing_candidate 7) = Some ready_erhw" by (simp add: eval_choosing)
  moreover have "\<exists>w'. handle_event ex_env 7 rdwr choosing_candidate = Some w' \<and> w_events w' = [ConnectSuccess 9] \<and>
      w_states w' 7 = None \<and> cm_active (w_cm w') 9 = Some 7 \<and> cm_handshakes (w_cm w') 9 = 2 ^ 64 - 1"
    by (simp add: eval_choosing unat_minus_one_64)
  ultimately show ?thesis using choosing_candidate_reachable by blast
qed

section \<open>Panics of the event loop\<close>




text \<open>
  C34 The event loop panics in \<open>Connect::accept\<close>: when a connection arrives on the listener of a connect that
  has no attempt left and cannot be registered, the connect terminates and gives up its listener,
  and the next round of the loop unwraps the listener that is gone.
\<close>

theorem accept_panics:
  assumes "cn_children self = []" and "cn_listener self = Some l" and "tl_accepts l = Inr st # rest"
    and "ts_poll st = Some e # ps"
  shows "connect_accept self w = None"
proof -
  have "fst (cex_start (socket_wrap st) our u nh p w) = Inl (CrustIo e)" for our u nh p
    using assms(4)
    by (simp add: cex_start_def get_new_token_def socket_wrap_def socket_register_def tcp_register_def Let_def)
  then obtain w1 where c: "cex_start (socket_wrap st) (cn_our_id self) (cn_their_id self) (cn_our_nh self) (cn_token self) w =
      (Inl (CrustIo e), w1)" by (metis prod.collapse)
  have "cn_listener self' = None"
    if "connect_exchange_msg (socket_wrap st) (self\<lparr>cn_listener := Some (l\<lparr>tl_accepts := rest\<rparr>)\<rparr>) w = Some (self', w')" for self' w'
    using that c assms(1)
    by (auto simp: connect_exchange_msg_def connect_maybe_terminate_def connect_terminate_def Let_def)
  then have "connect_accept self' w' = None"
    if "connect_exchange_msg (socket_wrap st) (self\<lparr>cn_listener := Some (l\<lparr>tl_accepts := rest\<rparr>)\<rparr>) w = Some (self', w')" for self' w'
    using that by (subst connect_accept.simps) simp
  then show ?thesis
    using assms(2,3) by (subst connect_accept.simps) (auto simp: tl_accept_def split: bind_splits)
qed

definition ex_backlog :: tcp_listener where
  "ex_backlog = \<lparr>tl_accepts = [Inr ((ex_tcp [] [])\<lparr>ts_poll := [Some (OtherIo 3)]\<rparr>)], tl_poll = [],
     tl_local = Inr (ex_addr 7), tl_reg = None\<rparr>"

definition ex_punching :: "nat connect_st" where
  "ex_punching = \<lparr>cn_token = 6, cn_timeout = 1, cn_our_nh = [], cn_our_id = 20, cn_their_id = 9,
     cn_listener = Some ex_backlog, cn_children = []\<rparr>"

theorem accept_panics_witness: "connect_accept ex_punching (ex_world []) = None"
  by (rule accept_panics [of _ ex_backlog "(ex_tcp [] [])\<lparr>ts_poll := [Some (OtherIo 3)]\<rparr>" "[]" "OtherIo 3" "[]"])
    (simp_all add: ex_punching_def ex_backlog_def)

section \<open>Bootstrapping\<close>

text \<open>
  C32 A bootstrap that is granted by a peer with a connection corrupts the entry of that peer. The request to a contact is never counted as a
  handshake, but the connection that follows subtracts one: the counter of the peer wraps around
  to the greatest \<open>usize\<close>, and the earlier connection is no longer registered although it is still
  in the loop.
\<close>

theorem bootstrap_grant_wraps:
  assumes "w_cm w u = Some \<lparr>active_connection = Some t, currently_handshaking = 0\<rparr>"
    and "w_states w t = Some s" and "t \<noteq> child" and "t \<noteq> bs_token self"
    and "bs_children self = [child]" and "bs_sd_meta self = None"
    and "w_timer_answers w = []" and "socket_read (e_des E) so = (Inr None, so')"
  shows "\<exists>self' w'. bs_handle_result E child (Inr (so, a, u)) self w = Some (self', w') \<and>
    w_cm w' u = Some \<lparr>active_connection = Some child, currently_handshaking = - 1\<rparr> \<and>
    cm_handshakes (w_cm w') u = 2 ^ 64 - 1 \<and> w_states w' t = Some s"
proof -
  let ?self = "self\<lparr>bs_children := []\<rparr>"
  have "hs_remove child [child] = []" by (simp add: hs_remove_def)
  then have r: "bs_handle_result E child (Inr (so, a, u)) self w =
      do { (self, w) \<leftarrow> bs_terminate ?self w;
           Some (self, ac_start E child so (bs_our_uid self) u Node (BootstrapConnect u a) w) }"
    by (simp add: bs_handle_result_def assms(5))
  let ?w = "cancel_timeout (bs_timeout self) (remove_state (bs_token self) w)"
  have "bs_terminate ?self w = Some (?self\<lparr>bs_sd_meta := None\<rparr>, ?w)"
    by (simp add: bs_terminate_def assms(6) Let_def)
  with r have r: "bs_handle_result E child (Inr (so, a, u)) self w =
      Some (?self\<lparr>bs_sd_meta := None\<rparr>, ac_start E child so (bs_our_uid self) u Node (BootstrapConnect u a) ?w)" by simp
  define w' where "w' = ac_start E child so (bs_our_uid self) u Node (BootstrapConnect u a) ?w"
  have "w_cm w' u = Some \<lparr>active_connection = Some child, currently_handshaking = - 1\<rparr> \<and> w_states w' t = Some s"
    using assms(1-4,7,8)
    by (simp add: w'_def ac_start_def hb_new_def set_timeout_ans Let_def ac_read.simps cm_activate_def put_state_def get_state_def
        insert_state_def upd_cm_def send_event_def remove_state_def cancel_timeout_def)
  then show ?thesis using r by (auto simp: w'_def [symmetric] cm_handshakes_def unat_minus_one_64)
qed

definition ex_bootstrapping :: "nat bootstrap" where
  "ex_bootstrapping = \<lparr>bs_token = 1, bs_peers = [], bs_blacklist = {}, bs_name_hash = [], bs_ext_reachability = NotRequired,
     bs_our_uid = 20, bs_sd_meta = None, bs_timer = CoreTimer 1 0, bs_timeout = 9, bs_children = [11]\<rparr>"

theorem bootstrap_grant_wraps_witness:
  "\<exists>self' w'. bs_handle_result ex_env 11 (Inr (ex_socket [] [], ex_addr 7, 9)) ex_bootstrapping ex_connected = Some (self', w') \<and>
    w_cm w' 9 = Some \<lparr>active_connection = Some 11, currently_handshaking = - 1\<rparr> \<and>
    cm_handshakes (w_cm w') 9 = 2 ^ 64 - 1 \<and> w_states w' 7 = Some (StActive ex_conn)"
proof (rule bootstrap_grant_wraps)
  show "socket_read (e_des ex_env) (ex_socket [] []) = (Inr None, snd (socket_read (e_des ex_env) (ex_socket [] [])))"
    by (simp add: eval)
  show "w_timer_answers ex_connected = []" by (simp add: eval)
qed (simp_all add: ex_connected ex_bootstrapping_def)

section \<open>Timers left behind\<close>

lemma bs_seek_peers_timers:
  assumes "bs_seek_peers tok w = Some (Inl e, w')" and "w_timer_answers w = []"
  shows "w_timers w' = w_timers w"
  using assms
  by (auto simp: bs_seek_peers_def new_channel_def drop_receiver_def put_state_def insert_state_def Let_def set_timeout_ans
      split: option.splits state.splits sum.splits prod.splits if_splits)

text \<open>
  C36 A bootstrap that fails to seek its peers leaves its timer armed: \<open>Bootstrap::start\<close> sets the timer before it asks the
  service discovery, and returns the error of the latter without cancelling it.
\<close>

theorem bootstrap_leaves_timer:
  assumes "bs_start E nh r our bl tok w = Some (Inl e, w')" and "w_timer_answers w = []"
    and "cache_new w = (Inr c, w1)"
  shows "w_timers w' (w_next_timeout w) =
    Some (CoreTimer tok BOOTSTRAP_TIMER_ID, w_now w + BOOTSTRAP_TIMEOUT_SEC * 1000 * MS)"
proof -
  have w1: "w_timer_answers w1 = []" "w_next_timeout w1 = w_next_timeout w" "w_now w1 = w_now w" "w_timers w1 = w_timers w"
    using assms(2,3) by (auto simp: cache_new_def split: prod.splits)
  define w2 where "w2 = snd (set_timeout (BOOTSTRAP_TIMEOUT_SEC * 1000) (CoreTimer tok BOOTSTRAP_TIMER_ID) w1)"
  have w2: "w_timer_answers w2 = []" "w_timers w2 (w_next_timeout w) =
      Some (CoreTimer tok BOOTSTRAP_TIMER_ID, w_now w + BOOTSTRAP_TIMEOUT_SEC * 1000 * MS)"
    using w1 by (simp_all add: w2_def set_timeout_ans)
  have "bs_seek_peers tok w2 = Some (Inl e, w')"
    using assms(1) w1(1) unfolding bs_start_def assms(3)
    by (auto simp: set_timeout_ans [OF w1(1)] w2_def Let_def
        split: bind_splits sum.splits crust_error.splits if_splits)
  with w2 show ?thesis using bs_seek_peers_timers by metis
qed

definition ex_unsendable :: service_disc where
  "ex_unsendable = \<lparr>sd_token = SERVICE_DISCOVERY_TOKEN, sd_socket = \<lparr>us_rx = [], us_tx = [Inl (OtherIo 3)], us_sent = [],
     us_poll = [], us_broadcast = None, us_reg = None\<rparr>, sd_remote_addr = ex_addr 255, sd_listen = False,
     sd_seek_peers_req = [], sd_reply_to = [], sd_observers = [], sd_guid = 0\<rparr>"

definition ex_seeking :: "nat world" where
  "ex_seeking = (ex_world [])\<lparr>w_states := [SERVICE_DISCOVERY_TOKEN \<mapsto> StServiceDisc ex_unsendable],
     w_cache_file := [Inr (Inr [])]\<rparr>"

lemmas eval_seeking = ex_seeking_def ex_unsendable_def ex_world_def cache_new_def bs_start_def bs_seek_peers_def
  new_channel_def sd_register_observer_def sd_seek_peers_def us_send_to_def put_state_def insert_state_def
  drop_receiver_def set_timeout_ans get_state_def pop_answer.simps

theorem bootstrap_leaves_timer_witness:
  "\<exists>w'. bs_start ex_env [] NotRequired 20 {} BOOTSTRAP_TOKEN ex_seeking = Some (Inl (ServiceDisc (SdIo (OtherIo 3))), w') \<and>
    w_timers w' 0 = Some (CoreTimer BOOTSTRAP_TOKEN BOOTSTRAP_TIMER_ID, BOOTSTRAP_TIMEOUT_SEC * 1000 * MS)"
proof -
  have "\<exists>w'. bs_start ex_env [] NotRequired 20 {} BOOTSTRAP_TOKEN ex_seeking = Some (Inl (ServiceDisc (SdIo (OtherIo 3))), w')"
    by (simp add: eval_seeking)
  moreover have "cache_new ex_seeking = (Inr (Inr []), ex_seeking\<lparr>w_cache_file := []\<rparr>)" "w_timer_answers ex_seeking = []"
    "w_next_timeout ex_seeking = 0" "w_now ex_seeking = 0"
    by (simp_all add: eval_seeking)
  ultimately show ?thesis using bootstrap_leaves_timer [of ex_env "[]" NotRequired 20 "{}" BOOTSTRAP_TOKEN ex_seeking] by fastforce
qed

section \<open>A peer that keeps silent\<close>

text \<open>
  A service with identifier 20 listens. A peer that says it is 30 connects, names itself, and says nothing
  more.
\<close>

definition mute_config :: config where
  "mute_config = config_default\<lparr>network_name := Some []\<rparr>"

definition mute_builder :: tcp_builder where
  "mute_builder = \<lparr>tb_opts = [], tb_local = Inr (ex_addr 1),
     tb_listen = Inr \<lparr>tl_accepts = [Inr (ex_tcp [Inr (ex_frame [2, 30])] [])], tl_poll = [], tl_local = Inr (ex_addr 1),
       tl_reg = None\<rparr>, tb_from_listener = None, tb_to_stream = None\<rparr>"

definition mute_kernel :: "nat world" where
  "mute_kernel = (ex_world [])\<lparr>w_builders := [Inr mute_builder], w_config_file := []\<rparr>"

definition mute_new :: "nat service \<times> nat world" where
  "mute_new = projr (with_config (\<lambda>_. []) (Inr []) (\<lambda>_. None) None mute_config 20 mute_kernel)"

definition mute_started :: "nat world" where
  "mute_started = the (exec_msg ex_env MsgStartConfigRefresher ((snd mute_new)\<lparr>w_msgs := []\<rparr>))"

definition mute_listening :: "nat world" where
  "mute_listening = the (exec_msg ex_env (MsgStartListener 0 False 20 []) mute_started)"

definition mute_accepted :: "nat world" where
  "mute_accepted = ex_step rd LISTENER_TOKEN mute_listening"

definition mute_named :: "nat world" where
  "mute_named = ex_step rd 7 mute_accepted"

definition mute_waiting :: "nat world" where
  "mute_waiting = ex_step wr 7 mute_named"

lemmas eval_mute = mute_config_def mute_builder_def mute_kernel_def mute_new_def mute_started_def mute_listening_def
  mute_accepted_def mute_named_def mute_waiting_def msg_start_listener_def listener_start_def mapped_start_def
  new_reusably_bound_tcp_socket_def tcp_builder_new_def tb_call_def igd_requests_def mapped_terminate_def mapped_fin_def
  listener_finish_def listener_handle_mapped_socket_def listener_addrs_def tl_register_def MAPPED_TIMEOUT_SEC_def
  listener_ready_def listener_accept.simps tl_accept_def lex_start_def EXCHANGE_MSG_TIMEOUT_SEC_def
  lex_ready_def lex_read_def lex_validate_peer_uid_def lex_handle_connect_def lex_is_valid_name_hash_def
  lex_try_update_crust_config_def read_config_file_def lex_is_peer_whitelisted_def whitelisted_def
  lex_enter_handshaking_mode_def lex_write_def lex_multiple_bootstrap_def lex_done_def start_listening_tcp_def eval


lemma mute_waiting:
  "w_cm mute_waiting = [30 \<mapsto> \<lparr>active_connection = None, currently_handshaking = 1\<rparr>]"
  "w_timers mute_waiting = [0 \<mapsto> (CoreTimer CONFIG_REFRESHER_TOKEN 0, 30000000000)]"
  "w_events mute_waiting = [ListenerStarted 5000]"
  "w_states mute_waiting CONFIG_REFRESHER_TOKEN =
     Some (StRefresher \<lparr>rf_token = CONFIG_REFRESHER_TOKEN, rf_timer = CoreTimer CONFIG_REFRESHER_TOKEN 0, rf_timeout = 0\<rparr>)"
  "sv_our_uid (fst mute_new) = 20"
  by (simp_all add: eval_mute)
















section \<open>A connect that ends without an event\<close>

text \<open>
  When the timer of a connect cannot be set, the posted message ends with an error that its closure discards: the
  world has no new state and the user hears neither of a success nor of a failure.
\<close>

lemma unset_timer_loses_connect:
  assumes "pub_for_direct their \<noteq> [] \<or> pub_for_hole_punch their \<noteq> []" and "w_timer_answers w = False # rest"
  shows "\<exists>w'. msg_connect our their nh w = Some w' \<and> w_events w' = w_events w \<and> w_states w' = w_states w"
  using assms by (auto simp: msg_connect_def connect_start_def get_new_token_def set_timeout_def Let_def)

end
