(* ===== verification/CrustPeer.thy ===== *)
theory CrustPeer
  imports Service "HOL-Library.Multiset"
begin

text \<open>
  \<open>examples/crust_peer.rs\<close>: the node with a command line. Its table of peers follows the events of
  the library in one thread, the other thread turns lines of input into calls of the service.
  The command line parser (clap), the JSON codec, the random numbers and the order in which a hash
  map is walked are arguments; what clap is asked to parse is declared here. Printing has no effect on the
  state. Counters wrap as in a release build. The chars of a string stand for its bytes. The last
  section has the locks of the two threads.
\<close>

section \<open>The table of peers\<close>

record 'u network =
  nodes :: "usize \<rightharpoonup> 'u"
  our_connection_infos :: "u32 \<rightharpoonup> 'u priv_connection_info"
  performance_start :: nat
  performance_interval :: nat
  received_msgs :: u32
  received_bytes :: usize
  peer_index :: usize
  connection_info_index :: u32

definition network_new :: "nat \<Rightarrow> 'u network" where
  "network_new now = \<lparr>nodes = Map.empty, our_connection_infos = Map.empty, performance_start = now,
     performance_interval = 10 * 1000 * MS, received_msgs = 0, received_bytes = 0, peer_index = 0,
     connection_info_index = 0\<rparr>"

definition next_peer_index :: "'u network \<Rightarrow> usize \<times> 'u network" where
  "next_peer_index self = (peer_index self, self\<lparr>peer_index := peer_index self + 1\<rparr>)"

definition next_connection_info_index :: "'u network \<Rightarrow> u32 \<times> 'u network" where
  "next_connection_info_index self =
     (connection_info_index self, self\<lparr>connection_info_index := connection_info_index self + 1\<rparr>)"

definition get_peer_id :: "usize \<Rightarrow> 'u network \<Rightarrow> 'u option" where
  "get_peer_id n self = nodes self n"

text \<open>The clock is read once for the start of the measurement and once for its end.\<close>

definition record_received :: "usize \<Rightarrow> nat \<Rightarrow> nat \<Rightarrow> 'u network \<Rightarrow> 'u network" where
  "record_received msg_size now now' self =
     (let self = self\<lparr>received_msgs := received_msgs self + 1, received_bytes := received_bytes self + msg_size\<rparr>;
          self = (if received_msgs self = 1 then self\<lparr>performance_start := now\<rparr> else self)
      in
      if performance_start self + performance_interval self < now' then
        self\<lparr>received_msgs := 0, received_bytes := 0\<rparr>
      else self)"

text \<open>What \<open>print_connected_nodes\<close> writes: the number of nodes, then index, status and id of each.\<close>

definition print_connected_nodes ::
    "((usize \<rightharpoonup> 'u) \<Rightarrow> usize list) \<Rightarrow> 'u network \<Rightarrow> 'u world \<Rightarrow> nat \<times> (usize \<times> bool \<times> 'u) list" where
  "print_connected_nodes walk self w =
     (card (dom (nodes self)),
      List.map_filter (\<lambda>i. map_option (\<lambda>node. (i, is_connected node w, node)) (nodes self i)) (walk (nodes self)))"

definition handle_new_peer :: "'u \<Rightarrow> 'u network \<Rightarrow> usize \<times> 'u network" where
  "handle_new_peer peer_id self =
     (let (i, self) = next_peer_index self in (i, self\<lparr>nodes := (nodes self)(i \<mapsto> peer_id)\<rparr>))"

section \<open>The event thread\<close>

text \<open>\<open>walk\<close> is the order of the hash map; the first index of the peer is removed.\<close>

definition handle_lost_peer :: "((usize \<rightharpoonup> 'u) \<Rightarrow> usize list) \<Rightarrow> 'u \<Rightarrow> 'u network \<Rightarrow> 'u network" where
  "handle_lost_peer walk peer_id self =
     (case List.find (\<lambda>i. nodes self i = Some peer_id) (walk (nodes self)) of
        Some i \<Rightarrow> self\<lparr>nodes := (nodes self)(i := None)\<rparr>
      | None \<Rightarrow> self)"

text \<open>
  One event: the new table and the index sent to the main thread, \<open>None\<close> is a panic. The JSON codec
  has no answer when it fails.
\<close>

definition peer_event ::
    "((usize \<rightharpoonup> 'u) \<Rightarrow> usize list) \<Rightarrow> ('u pub_connection_info \<Rightarrow> string option) \<Rightarrow> nat \<Rightarrow> nat
       \<Rightarrow> 'u event \<Rightarrow> 'u network \<Rightarrow> (usize list \<times> 'u network) option" where
  "peer_event walk to_json now now' event self =
     (case event of
        NewMessage peer_id _ bytes \<Rightarrow> Some ([], record_received (of_nat (length bytes)) now now' self)
      | ConnectionInfoPrepared r \<Rightarrow>
          (case conn_info_result r of
             Inl e \<Rightarrow> Some ([], self)
           | Inr info \<Rightarrow>
               do { info_json \<leftarrow> to_json (to_pub_connection_info info);
                    if our_connection_infos self (result_token r) \<noteq> None then None
                    else Some ([], self\<lparr>our_connection_infos := (our_connection_infos self)(result_token r \<mapsto> info)\<rparr>) })
      | BootstrapConnect peer_id addr \<Rightarrow> (let (i, self) = handle_new_peer peer_id self in Some ([i], self))
      | BootstrapAccept peer_id _ \<Rightarrow> (let (i, self) = handle_new_peer peer_id self in Some ([i], self))
      | ConnectSuccess peer_id \<Rightarrow> Some ([], snd (handle_new_peer peer_id self))
      | LostPeer peer_id \<Rightarrow> Some ([], handle_lost_peer walk peer_id self)
      | _ \<Rightarrow> Some ([], self))"

text \<open>
  What the two channels of the thread give in one round: an event of the library with the two
  clock readings, a category without an event, a category of another library, a timeout with or
  without the order to exit, or that the sender is gone.
\<close>

datatype 'u peer_input =
    CrustEvent nat nat "'u event"
  | NoEvent
  | OtherCategory
  | TimedOut bool
  | Disconnected

fun event_thread ::
    "((usize \<rightharpoonup> 'u) \<Rightarrow> usize list) \<Rightarrow> ('u pub_connection_info \<Rightarrow> string option)
       \<Rightarrow> 'u peer_input list \<Rightarrow> 'u network \<Rightarrow> (usize list \<times> 'u network) option" where
  "event_thread walk to_json [] self = Some ([], self)"
| "event_thread walk to_json (CrustEvent now now' event # is) self =
     do { (bs, self) \<leftarrow> peer_event walk to_json now now' event self;
          (bs', self) \<leftarrow> event_thread walk to_json is self;
          Some (bs @ bs', self) }"
| "event_thread walk to_json (NoEvent # is) self = Some ([], self)"
| "event_thread walk to_json (OtherCategory # is) self = None"
| "event_thread walk to_json (TimedOut exit # is) self =
     (if exit then Some ([], self) else event_thread walk to_json is self)"
| "event_thread walk to_json (Disconnected # is) self = Some ([], self)"

section \<open>Commands\<close>

datatype user_command =
    UStop
  | UPrepareConnectionInfo
  | UConnect string string
  | USend usize string
  | USendAll string
  | UList

text \<open>\<open>str::parse\<close> for the unsigned types: an optional sign, then digits that fit the type.\<close>

definition digit_value :: "char \<Rightarrow> nat option" where
  "digit_value c = (let n = of_char c in if 48 \<le> n \<and> n \<le> 57 then Some (n - 48) else None)"

fun parse_digits :: "nat \<Rightarrow> string \<Rightarrow> nat option" where
  "parse_digits acc [] = Some acc"
| "parse_digits acc (c # cs) = do { d \<leftarrow> digit_value c; parse_digits (10 * acc + d) cs }"

definition parse_uint :: "string \<Rightarrow> 'w::len word option" where
  "parse_uint s =
     (let ds = (case s of c # cs \<Rightarrow> if c = CHR ''+'' then cs else s | [] \<Rightarrow> s)
      in
      if ds = [] then None
      else do { n \<leftarrow> parse_digits 0 ds; if n < 2 ^ LENGTH('w) then Some (of_nat n) else None })"

fun split_at_char :: "char \<Rightarrow> string \<Rightarrow> string list" where
  "split_at_char c [] = [[]]"
| "split_at_char c (x # xs) =
     (if x = c then [] # split_at_char c xs
      else (case split_at_char c xs of p # ps \<Rightarrow> (x # p) # ps | [] \<Rightarrow> [[x]]))"

definition command_words :: "string \<Rightarrow> string list" where
  "command_words cmd =
     split_at_char CHR '' '' (rev (dropWhile (\<lambda>c. c = CHR 0x0D \<or> c = CHR 0x0A) (rev cmd)))"

text \<open>
  What is declared to clap, without the help texts: the arguments of the program, and its subcommands
  with theirs.
\<close>

record cli_arg =
  arg_name :: string
  arg_short :: "string option"
  arg_long :: "string option"
  arg_takes_value :: bool
  arg_required :: bool
  arg_index :: "nat option"

record cli_app =
  app_no_binary_name :: bool
  app_args :: "cli_arg list"
  app_subcommands :: "(string \<times> cli_arg list) list"

definition positional :: "string \<Rightarrow> nat \<Rightarrow> cli_arg" where
  "positional name i = \<lparr>arg_name = name, arg_short = None, arg_long = None, arg_takes_value = True,
     arg_required = True, arg_index = Some i\<rparr>"

definition user_app :: cli_app where
  "user_app = \<lparr>app_no_binary_name = True, app_args = [],
     app_subcommands =
       [(''prepare-connection-info'', []),
        (''connect'', [positional ''our-info-id'' 1, positional ''their-info'' 2]),
        (''send'', [positional ''peer'' 1, positional ''message'' 2]),
        (''send-all'', [positional ''message'' 1]),
        (''list'', []),
        (''stop'', []),
        (''help'', [])]\<rparr>"

definition main_app :: cli_app where
  "main_app = \<lparr>app_no_binary_name = False,
     app_args =
       [\<lparr>arg_name = ''discovery-port'', arg_short = None, arg_long = Some ''discovery-port'',
          arg_takes_value = True, arg_required = False, arg_index = None\<rparr>,
        \<lparr>arg_name = ''speed'', arg_short = Some ''s'', arg_long = Some ''speed'',
          arg_takes_value = True, arg_required = False, arg_index = None\<rparr>],
     app_subcommands = []\<rparr>"

text \<open>What clap returns: the values of the arguments, and the subcommand with its own values.\<close>

record arg_matches =
  am_values :: "string \<rightharpoonup> string"
  am_subcommand :: "(string \<times> (string \<rightharpoonup> string)) option"

definition am_is_present :: "string \<Rightarrow> arg_matches \<Rightarrow> bool" where
  "am_is_present name m \<longleftrightarrow>
     am_values m name \<noteq> None \<or> (case am_subcommand m of Some (sub, _) \<Rightarrow> sub = name | None \<Rightarrow> False)"

definition am_subcommand_matches :: "string \<Rightarrow> arg_matches \<Rightarrow> (string \<rightharpoonup> string) option" where
  "am_subcommand_matches name m =
     (case am_subcommand m of Some (sub, vs) \<Rightarrow> if sub = name then Some vs else None | None \<Rightarrow> None)"

text \<open>The outer option is a panic, the inner one is that of the code.\<close>

definition parse_user_command ::
    "(cli_app \<Rightarrow> string list \<Rightarrow> arg_matches option) \<Rightarrow> string \<Rightarrow> user_command option option" where
  "parse_user_command get_matches cmd =
     (case get_matches user_app (command_words cmd) of
        None \<Rightarrow> Some None
      | Some matches \<Rightarrow>
          if am_is_present ''connect'' matches then
            do { ms \<leftarrow> am_subcommand_matches ''connect'' matches;
                 our_info_id \<leftarrow> ms ''our-info-id'';
                 their_info \<leftarrow> ms ''their-info'';
                 Some (Some (UConnect our_info_id their_info)) }
          else if am_is_present ''send'' matches then
            do { ms \<leftarrow> am_subcommand_matches ''send'' matches;
                 peer \<leftarrow> ms ''peer'';
                 peer \<leftarrow> parse_uint peer;
                 msg \<leftarrow> ms ''message'';
                 Some (Some (USend peer msg)) }
          else if am_is_present ''send-all'' matches then
            do { msg \<leftarrow> am_values matches ''message'';
                 Some (Some (USendAll msg)) }
          else if am_is_present ''prepare-connection-info'' matches then Some (Some UPrepareConnectionInfo)
          else if am_is_present ''list'' matches then Some (Some UList)
          else if am_is_present ''stop'' matches then Some (Some UStop)
          else Some None)"

definition into_bytes :: "string \<Rightarrow> byte list" where
  "into_bytes s = map of_char s"

fun send_to_all :: "'u list \<Rightarrow> byte list \<Rightarrow> 'u world \<Rightarrow> 'u world option" where
  "send_to_all [] msg w = Some w"
| "send_to_all (u # us) msg w =
     (case send u msg 0 w of (Inl e, w) \<Rightarrow> None | (Inr _, w) \<Rightarrow> send_to_all us msg w)"

text \<open>One command; the flag tells whether the loop goes on.\<close>

definition run_command ::
    "((usize \<rightharpoonup> 'u) \<Rightarrow> usize list) \<Rightarrow> (string \<Rightarrow> 'u pub_connection_info option) \<Rightarrow> 'u service
       \<Rightarrow> user_command \<Rightarrow> 'u network \<Rightarrow> 'u world \<Rightarrow> (bool \<times> 'u network \<times> 'u world) option" where
  "run_command walk from_json service cmd self w =
     (case cmd of
        UPrepareConnectionInfo \<Rightarrow>
          (let (token, self) = next_connection_info_index self
           in Some (True, self, prepare_connection_info token service w))
      | UConnect our_info_index their_info \<Rightarrow>
          (case parse_uint our_info_index of
             None \<Rightarrow> Some (True, self, w)
           | Some i \<Rightarrow>
               (case our_connection_infos self i of
                  None \<Rightarrow> Some (True, self, w)
                | Some our_info \<Rightarrow>
                    (let self = self\<lparr>our_connection_infos := (our_connection_infos self)(i := None)\<rparr>
                     in
                     case from_json their_info of
                       None \<Rightarrow> Some (True, self, w)
                     | Some their_info \<Rightarrow>
                         (case connect our_info their_info service w of
                            (Inl e, w) \<Rightarrow> None
                          | (Inr _, w) \<Rightarrow> Some (True, self, w)))))
      | USend i message \<Rightarrow>
          (case get_peer_id i self of
             Some peer_id \<Rightarrow>
               (case send peer_id (into_bytes message) 0 w of
                  (Inl e, w) \<Rightarrow> None
                | (Inr _, w) \<Rightarrow> Some (True, self, w))
           | None \<Rightarrow> Some (True, self, w))
      | USendAll message \<Rightarrow>
          map_option (\<lambda>w. (True, self, w))
            (send_to_all (List.map_filter (nodes self) (walk (nodes self))) (into_bytes message) w)
      | UList \<Rightarrow> Some (True, self, w)
      | UStop \<Rightarrow> Some (False, self, w))"

fun command_loop ::
    "((usize \<rightharpoonup> 'u) \<Rightarrow> usize list) \<Rightarrow> (string \<Rightarrow> 'u pub_connection_info option) \<Rightarrow>
     (cli_app \<Rightarrow> string list \<Rightarrow> arg_matches option) \<Rightarrow> 'u service \<Rightarrow> string list \<Rightarrow> 'u network \<Rightarrow> 'u world
       \<Rightarrow> ('u network \<times> 'u world) option" where
  "command_loop walk from_json get_matches service [] self w = Some (self, w)"
| "command_loop walk from_json get_matches service (line # lines) self w =
     do { cmd \<leftarrow> parse_user_command get_matches line;
          (case cmd of
             None \<Rightarrow> command_loop walk from_json get_matches service lines self w
           | Some cmd \<Rightarrow>
               do { (go, self, w) \<leftarrow> run_command walk from_json service cmd self w;
                    if go then command_loop walk from_json get_matches service lines self w
                    else Some (self, w) }) }"

section \<open>Start\<close>

text \<open>
  The service of the node: default configuration apart from the port of the command line, which is
  unwrapped twice, once as a value and once as a number.
\<close>

definition peer_start ::
    "(string \<Rightarrow> byte list) \<Rightarrow> io_error + network_interface list \<Rightarrow> (ipv4_addr \<Rightarrow> gateway option) \<Rightarrow> io_error option \<Rightarrow>
     arg_matches \<Rightarrow> 'u \<Rightarrow> 'u world \<Rightarrow> ('u service \<times> 'u world) option" where
  "peer_start sha3 ifs search p matches our_uid w =
     do { port \<leftarrow> (if am_is_present ''discovery-port'' matches then
                     do { s \<leftarrow> am_values matches ''discovery-port''; map_option Some (parse_uint s) }
                   else Some None);
          let config = config_default\<lparr>service_discovery_port := port\<rparr>;
          (case with_config sha3 ifs search p config our_uid w of
             Inl e \<Rightarrow> None
           | Inr (service, w) \<Rightarrow>
               (case start_listening_tcp service w of
                  (Inl e, w) \<Rightarrow> None
                | (Inr _, w) \<Rightarrow> Some (service, start_service_discovery w))) }"

section \<open>The speed test\<close>

type_synonym u64 = "64 word"

text \<open>The random bytes come from a generator whose state is passed along.\<close>

fun generate_random_vec_u8 :: "('r \<Rightarrow> byte \<times> 'r) \<Rightarrow> nat \<Rightarrow> 'r \<Rightarrow> byte list \<times> 'r" where
  "generate_random_vec_u8 random 0 r = ([], r)"
| "generate_random_vec_u8 random (Suc n) r =
     (let (b, r) = random r;
          (bs, r) = generate_random_vec_u8 random n r
      in (b # bs, r))"

text \<open>
  What the thread of \<open>on_time_out\<close> does when it wakes up: the exit code of the process, if it ends it. The
  argument is what the channel holds then.
\<close>

definition on_time_out :: "bool option \<Rightarrow> bool \<Rightarrow> nat option" where
  "on_time_out msg flag_speed =
     (case msg of
        Some True \<Rightarrow> None
      | _ \<Rightarrow> if flag_speed then Some 3 else None)"

text \<open>
  The messages of one round: each is sent and followed by a pause, in which the rest of the program
  changes the world by \<open>others\<close>. The result has the number of bytes sent and the milliseconds
  slept.
\<close>

fun speed_sends ::
    "('r \<Rightarrow> byte \<times> 'r) \<Rightarrow> ('u world \<Rightarrow> 'u world) \<Rightarrow> 'u \<Rightarrow> u64 \<Rightarrow> u64 \<Rightarrow> nat \<Rightarrow> 'r \<Rightarrow> 'u world
       \<Rightarrow> (nat \<times> nat \<times> 'r \<times> 'u world) option" where
  "speed_sends random others peer_id len sleep_time 0 r w = Some (0, 0, r, w)"
| "speed_sends random others peer_id len sleep_time (Suc n) r w =
     (let (msg, r) = generate_random_vec_u8 random (unat len) r
      in
      case send peer_id msg 0 w of
        (Inl e, w) \<Rightarrow> None
      | (Inr _, w) \<Rightarrow>
          do { (sent, slept, r, w) \<leftarrow> speed_sends random others peer_id len sleep_time n r (others w);
               Some (length msg + sent, unat sleep_time + slept, r, w) })"

text \<open>\<open>gen_range\<close> has no answer for an empty range: it panics.\<close>

definition speed_round ::
    "(u64 \<Rightarrow> u64 \<Rightarrow> 'r \<Rightarrow> (u64 \<times> 'r) option) \<Rightarrow> ('r \<Rightarrow> byte \<times> 'r) \<Rightarrow> ('u world \<Rightarrow> 'u world) \<Rightarrow> u64 \<Rightarrow> 'u \<Rightarrow> 'r
       \<Rightarrow> 'u world \<Rightarrow> (nat \<times> nat \<times> 'r \<times> 'u world) option" where
  "speed_round gen_range random others speed peer_id r w =
     do { (len, r) \<leftarrow> gen_range 50 speed r;
          let times = max 1 (speed div len);
          let sleep_time = max 1 (1000 div times);
          speed_sends random others peer_id len sleep_time (unat times) r w }"

text \<open>The loop has no end: the first \<open>n\<close> rounds of it.\<close>

fun speed_rounds ::
    "(u64 \<Rightarrow> u64 \<Rightarrow> 'r \<Rightarrow> (u64 \<times> 'r) option) \<Rightarrow> ('r \<Rightarrow> byte \<times> 'r) \<Rightarrow> ('u world \<Rightarrow> 'u world) \<Rightarrow> u64 \<Rightarrow> 'u \<Rightarrow> nat \<Rightarrow> 'r
       \<Rightarrow> 'u world \<Rightarrow> (nat \<times> nat \<times> 'r \<times> 'u world) option" where
  "speed_rounds gen_range random others speed peer_id 0 r w = Some (0, 0, r, w)"
| "speed_rounds gen_range random others speed peer_id (Suc n) r w =
     do { (sent, slept, r, w) \<leftarrow> speed_round gen_range random others speed peer_id r w;
          (sent', slept', r, w) \<leftarrow> speed_rounds gen_range random others speed peer_id n r w;
          Some (sent + sent', slept + slept', r, w) }"

text \<open>
  The test from its start. \<open>bs\<close> is the first index that the event thread reports, if it lives to
  report one: without it the process ends with a code of its own. The first pause is before the rate is read.
\<close>

definition speed_test ::
    "(u64 \<Rightarrow> u64 \<Rightarrow> 'r \<Rightarrow> (u64 \<times> 'r) option) \<Rightarrow> ('r \<Rightarrow> byte \<times> 'r) \<Rightarrow> ('u world \<Rightarrow> 'u world) \<Rightarrow> arg_matches \<Rightarrow> usize option
       \<Rightarrow> nat \<Rightarrow> 'u network \<Rightarrow> 'r \<Rightarrow> 'u world \<Rightarrow> (nat + (nat \<times> nat \<times> 'r \<times> 'u world)) option" where
  "speed_test gen_range random others matches bs n self r w =
     (case bs of
        None \<Rightarrow> Some (Inl 6)
      | Some i \<Rightarrow>
          do { peer_id \<leftarrow> get_peer_id i self;
               let w = others w;
               s \<leftarrow> am_values matches ''speed'';
               speed \<leftarrow> parse_uint s;
               (sent, slept, r, w) \<leftarrow> speed_rounds gen_range random others speed peer_id n r w;
               Some (Inr (sent, 100 + slept, r, w)) })"

section \<open>The locks of the two threads\<close>

text \<open>
  The service and the table of peers have a lock each. A handler takes and releases them in a fixed order, the
  order in which the guards come into scope and leave it.
\<close>

datatype lock = ServiceLock | NetworkLock
datatype lock_op = Acquire lock | Release lock

definition new_peer_locks :: "lock_op list" where
  "new_peer_locks = [Acquire ServiceLock, Acquire NetworkLock, Release NetworkLock, Release ServiceLock]"

fun event_locks :: "'u event \<Rightarrow> lock_op list" where
  "event_locks (NewMessage peer_id user bytes) = [Acquire NetworkLock, Release NetworkLock]"
| "event_locks (ConnectionInfoPrepared r) =
     (case conn_info_result r of Inl e \<Rightarrow> [] | Inr info \<Rightarrow> [Acquire NetworkLock, Release NetworkLock])"
| "event_locks (BootstrapConnect peer_id addr) = new_peer_locks"
| "event_locks (BootstrapAccept peer_id kind) = new_peer_locks"
| "event_locks (ConnectSuccess peer_id) = new_peer_locks"
| "event_locks (LostPeer peer_id) =
     [Acquire NetworkLock, Release NetworkLock,
      Acquire NetworkLock, Acquire ServiceLock, Release ServiceLock, Release NetworkLock]"
| "event_locks _ = []"

definition use_service :: "lock_op list" where
  "use_service = [Acquire ServiceLock, Release ServiceLock]"

definition command_locks ::
    "((usize \<rightharpoonup> 'u) \<Rightarrow> usize list) \<Rightarrow> (string \<Rightarrow> 'u pub_connection_info option) \<Rightarrow> user_command \<Rightarrow> 'u network
       \<Rightarrow> lock_op list" where
  "command_locks walk from_json cmd self =
     (case cmd of
        UPrepareConnectionInfo \<Rightarrow> [Acquire NetworkLock] @ use_service @ [Release NetworkLock]
      | UConnect our_info_index their_info \<Rightarrow>
          [Acquire NetworkLock] @
          (case parse_uint our_info_index of
             None \<Rightarrow> []
           | Some i \<Rightarrow>
               if our_connection_infos self i = None \<or> from_json their_info = None then [] else use_service) @
          [Release NetworkLock]
      | USend i message \<Rightarrow>
          [Acquire NetworkLock] @ (if get_peer_id i self = None then [] else use_service) @ [Release NetworkLock]
      | USendAll message \<Rightarrow>
          [Acquire NetworkLock] @
          concat (map (\<lambda>_. use_service) (List.map_filter (nodes self) (walk (nodes self)))) @
          [Release NetworkLock]
      | UList \<Rightarrow> [Acquire NetworkLock] @ use_service @ [Release NetworkLock]
      | UStop \<Rightarrow> [])"

end
