(* ===== verification/Peer_Facts.thy ===== *)
theory Peer_Facts
  imports CrustPeer
begin

text \<open>
  The example node: its table of peers is, at every moment, the multiset of the peers that were
  announced and not lost since.
\<close>

section \<open>The table as a multiset\<close>

definition peers_of :: "'u network \<Rightarrow> 'u multiset" where
  "peers_of n = image_mset (\<lambda>i. the (nodes n i)) (mset_set (dom (nodes n)))"




definition table_ok :: "'u network \<Rightarrow> bool" where
  "table_ok n \<longleftrightarrow> finite (dom (nodes n)) \<and> (\<forall>i \<in> dom (nodes n). i < peer_index n)"

definition walks :: "((usize \<rightharpoonup> 'u) \<Rightarrow> usize list) \<Rightarrow> bool" where
  "walks walk \<longleftrightarrow> (\<forall>m. finite (dom m) \<longrightarrow> set (walk m) = dom m)"






lemma table_ok_frame:
  assumes "nodes n' = nodes n" and "peer_index n' = peer_index n"
  shows "table_ok n' = table_ok n" and "peers_of n' = peers_of n"
  using assms by (simp_all add: table_ok_def peers_of_def)

lemma record_received_frame [simp]:
  "nodes (record_received s now now' n) = nodes n" "peer_index (record_received s now now' n) = peer_index n"
  "our_connection_infos (record_received s now now' n) = our_connection_infos n"
  by (simp_all add: record_received_def Let_def)

section \<open>One event\<close>




section \<open>The thread\<close>






text \<open>The listing shows every entry of the table once per visit of the walk, with the state of its connection.\<close>

lemma print_connected_nodes_lists:
  assumes "walks walk" and "finite (dom (nodes n))"
  shows "set (snd (print_connected_nodes walk n w)) = {(i, is_connected u w, u) | i u. nodes n i = Some u}"
proof -
  have "set (walk (nodes n)) = dom (nodes n)" using assms by (simp add: walks_def)
  then show ?thesis by (auto simp: print_connected_nodes_def map_filter_def image_iff dom_def) force
qed

end
