(* ===== verification/Peer_Threads.thy ===== *)
theory Peer_Threads
  imports CrustPeer
begin

text \<open>
  The example node, beside its table: which lines of input end the program, when its two threads
  wait for each other for ever, and how fast the speed test sends.
\<close>

section \<open>Lines that end the program\<close>

text \<open>
  What clap documents of the matches it returns: only declared arguments have values, the
  subcommand is a declared one, and its required arguments have values.
\<close>

definition clap_ok :: "(cli_app \<Rightarrow> string list \<Rightarrow> arg_matches option) \<Rightarrow> bool" where
  "clap_ok get_matches \<longleftrightarrow> (\<forall>app ws m. get_matches app ws = Some m \<longrightarrow>
     dom (am_values m) \<subseteq> arg_name ` set (app_args app) \<and>
     (\<forall>sub vs. am_subcommand m = Some (sub, vs) \<longrightarrow>
        (\<exists>args. (sub, args) \<in> set (app_subcommands app) \<and> dom vs \<subseteq> arg_name ` set args \<and>
           (\<forall>a \<in> set args. arg_required a \<longrightarrow> arg_name a \<in> dom vs))))"

lemma user_app_values:
  assumes "clap_ok get_matches" and "get_matches user_app ws = Some m"
  shows "am_values m = Map.empty"
  using assms by (force simp: clap_ok_def user_app_def)

lemma user_app_required:
  assumes "clap_ok get_matches" and "get_matches user_app ws = Some m" and "am_subcommand m = Some (sub, vs)"
  shows "sub = ''connect'' \<Longrightarrow> vs ''our-info-id'' \<noteq> None \<and> vs ''their-info'' \<noteq> None"
    and "sub = ''send'' \<Longrightarrow> vs ''peer'' \<noteq> None \<and> vs ''message'' \<noteq> None"
proof -
  obtain args where "(sub, args) \<in> set (app_subcommands user_app)"
    and "\<forall>a \<in> set args. arg_required a \<longrightarrow> arg_name a \<in> dom vs"
    using assms unfolding clap_ok_def by metis
  then show "sub = ''connect'' \<Longrightarrow> vs ''our-info-id'' \<noteq> None \<and> vs ''their-info'' \<noteq> None"
    and "sub = ''send'' \<Longrightarrow> vs ''peer'' \<noteq> None \<and> vs ''message'' \<noteq> None"
    by (auto simp: user_app_def positional_def)
qed

text \<open>
  C40 Which lines end the example node. A line that the command line parser accepts makes the program
  panic exactly if it is a \<open>send-all\<close>, whatever its message, or a \<open>send\<close> whose peer is not a number. The
  message of \<open>send-all\<close> is looked up among the arguments of the program, which declares none,
  instead of those of the subcommand.
\<close>

theorem parse_panics_iff:
  assumes "clap_ok get_matches" and "get_matches user_app (command_words line) = Some m"
  shows "parse_user_command get_matches line = None \<longleftrightarrow>
    (\<exists>vs. am_subcommand m = Some (''send-all'', vs) \<or>
       am_subcommand m = Some (''send'', vs) \<and> (parse_uint (the (vs ''peer'')) :: usize option) = None)"
proof (cases "am_subcommand m")
  case None
  with user_app_values [OF assms] assms(2) show ?thesis by (simp add: parse_user_command_def am_is_present_def)
next
  case (Some p)
  obtain sub vs where p: "p = (sub, vs)" by fastforce
  note req = user_app_required [OF assms Some [unfolded p]]
  note facts = Some p user_app_values [OF assms] assms(2)
  note defs = parse_user_command_def am_is_present_def am_subcommand_matches_def
  consider "sub = ''connect''" | "sub = ''send''" | "sub = ''send-all''"
    | "sub \<noteq> ''connect''" "sub \<noteq> ''send''" "sub \<noteq> ''send-all''" by blast
  then show ?thesis
  proof cases
    case 1
    then show ?thesis using req(1) by (clarsimp simp: facts defs)
  next
    case 2
    then show ?thesis using req(2) by (cases "parse_uint (the (vs ''peer'')) :: usize option") (clarsimp simp: facts defs)+
  qed (simp_all add: facts defs)
qed

text \<open>A parser for programs whose arguments are those of their subcommands, all of them required.\<close>

definition ex_clap :: "cli_app \<Rightarrow> string list \<Rightarrow> arg_matches option" where
  "ex_clap app ws = (case ws of
       [] \<Rightarrow> None
     | sub # vals \<Rightarrow>
         do { args \<leftarrow> map_of (app_subcommands app) sub;
              if length args = length vals then
                Some \<lparr>am_values = Map.empty, am_subcommand = Some (sub, map_of (zip (map arg_name args) vals))\<rparr>
              else None })"

lemma ex_clap_ok: "clap_ok ex_clap"
proof -
  have "\<exists>as. (sub, as) \<in> set (app_subcommands app) \<and> arg_name ` set args \<subseteq> arg_name ` set as \<and>
      (\<forall>a \<in> set as. arg_required a \<longrightarrow> arg_name a \<in> arg_name ` set args)"
    if "map_of (app_subcommands app) sub = Some args" for app sub args
    using map_of_SomeD [OF that] by (intro exI [of _ args]) auto
  then show ?thesis
    by (auto simp: clap_ok_def ex_clap_def dom_map_of_zip bind_eq_Some_conv split: list.splits if_splits)
qed

lemmas eval_clap = ex_clap_def user_app_def positional_def command_words_def

theorem parse_panics_iff_witness:
  "parse_user_command ex_clap ''send-all hello'' = None \<and> parse_user_command ex_clap ''send x hello'' = None \<and>
   parse_user_command ex_clap ''send 3 hello'' \<noteq> None"
proof -
  have m: "ex_clap user_app (command_words ''send-all hello'') =
      Some \<lparr>am_values = Map.empty, am_subcommand = Some (''send-all'', [''message'' \<mapsto> ''hello''])\<rparr>"
    "ex_clap user_app (command_words ''send x hello'') =
      Some \<lparr>am_values = Map.empty, am_subcommand = Some (''send'', [''peer'' \<mapsto> ''x'', ''message'' \<mapsto> ''hello''])\<rparr>"
    "ex_clap user_app (command_words ''send 3 hello'') =
      Some \<lparr>am_values = Map.empty, am_subcommand = Some (''send'', [''peer'' \<mapsto> ''3'', ''message'' \<mapsto> ''hello''])\<rparr>"
    by (simp_all add: eval_clap fun_upd_twist [of "''peer''" "''message''"])
  have "(parse_uint ''x'' :: usize option) = None" "(parse_uint ''3'' :: usize option) \<noteq> None"
    by (simp_all add: parse_uint_def digit_value_def)
  then show ?thesis
    using parse_panics_iff [OF ex_clap_ok m(1)] parse_panics_iff [OF ex_clap_ok m(2)]
      parse_panics_iff [OF ex_clap_ok m(3)] by simp
qed

section \<open>Threads that wait for each other\<close>

text \<open>
  A thread has the locks it holds and the operations it has still to do. It waits for a lock that is
  held, by the other thread or by itself. The two threads move in any order.
\<close>

type_synonym thread = "lock set \<times> lock_op list"

fun thread_step :: "lock set \<Rightarrow> thread \<Rightarrow> thread option" where
  "thread_step other (held, []) = None"
| "thread_step other (held, Acquire l # ops) = (if l \<in> held \<union> other then None else Some (insert l held, ops))"
| "thread_step other (held, Release l # ops) = Some (held - {l}, ops)"

inductive lock_step :: "thread \<times> thread \<Rightarrow> thread \<times> thread \<Rightarrow> bool" where
  event_moves: "thread_step (fst c) e = Some e' \<Longrightarrow> lock_step (e, c) (e', c)"
| command_moves: "thread_step (fst e) c = Some c' \<Longrightarrow> lock_step (e, c) (e, c')"

inductive_simps lock_step_iff: "lock_step (e, c) s"

definition deadlocked :: "thread \<times> thread \<Rightarrow> bool" where
  "deadlocked s \<longleftrightarrow> (\<forall>s'. \<not> lock_step s s') \<and> (snd (fst s) \<noteq> [] \<or> snd (snd s) \<noteq> [])"

text \<open>Taking locks in the order of a rank and leaving none behind keeps two threads from a deadlock.\<close>

fun disciplined :: "(lock \<Rightarrow> nat) \<Rightarrow> lock set \<Rightarrow> lock_op list \<Rightarrow> bool" where
  "disciplined rank held [] \<longleftrightarrow> held = {}"
| "disciplined rank held (Acquire l # ops) \<longleftrightarrow> (\<forall>k \<in> held. rank k < rank l) \<and> disciplined rank (insert l held) ops"
| "disciplined rank held (Release l # ops) \<longleftrightarrow> disciplined rank (held - {l}) ops"

definition both_disciplined :: "(lock \<Rightarrow> nat) \<Rightarrow> thread \<times> thread \<Rightarrow> bool" where
  "both_disciplined rank s \<longleftrightarrow>
     disciplined rank (fst (fst s)) (snd (fst s)) \<and> disciplined rank (fst (snd s)) (snd (snd s))"

lemma thread_step_disciplined:
  "thread_step other (held, ops) = Some (held', ops') \<Longrightarrow> disciplined rank held ops \<Longrightarrow> disciplined rank held' ops'"
  by (cases "(rank, held, ops)" rule: disciplined.cases) (auto split: if_splits)

lemma lock_step_disciplined: "lock_step s s' \<Longrightarrow> both_disciplined rank s \<Longrightarrow> both_disciplined rank s'"
  by (induction rule: lock_step.induct) (auto simp: both_disciplined_def split: prod.splits dest: thread_step_disciplined)

lemma lock_steps_disciplined: "lock_step\<^sup>*\<^sup>* s s' \<Longrightarrow> both_disciplined rank s \<Longrightarrow> both_disciplined rank s'"
  by (induction rule: rtranclp_induct) (auto dest: lock_step_disciplined)

lemma waiting_thread:
  assumes "thread_step other (held, ops) = None" and "disciplined rank held ops"
  shows "ops = [] \<and> held = {} \<or> (\<exists>l \<in> other. \<forall>k \<in> held. rank k < rank l)"
  using assms by (cases "(rank, held, ops)" rule: disciplined.cases) (auto split: if_splits)

lemma disciplined_not_deadlocked:
  assumes "both_disciplined rank s"
  shows "\<not> deadlocked s"
proof
  assume dead: "deadlocked s"
  obtain h1 o1 h2 o2 where s: "s = ((h1, o1), (h2, o2))" by (metis prod.collapse)
  have d: "disciplined rank h1 o1" "disciplined rank h2 o2" using assms s by (auto simp: both_disciplined_def)
  have stuck: "\<not> lock_step ((h1, o1), (h2, o2)) s'" for s' using dead unfolding deadlocked_def s by blast
  have n1: "thread_step h2 (h1, o1) = None"
    by (rule ccontr) (use stuck event_moves [of "(h2, o2)" "(h1, o1)"] in auto)
  have n2: "thread_step h1 (h2, o2) = None"
    by (rule ccontr) (use stuck command_moves [of "(h1, o1)" "(h2, o2)"] in auto)
  have "o1 \<noteq> [] \<or> o2 \<noteq> []" using dead by (simp add: deadlocked_def s)
  with waiting_thread [OF n1 d(1)] waiting_thread [OF n2 d(2)] show False
    by (auto dest: less_asym)
qed

definition announces :: "'u event \<Rightarrow> bool" where
  "announces ev \<longleftrightarrow> (\<exists>u a k. ev = BootstrapConnect u a \<or> ev = BootstrapAccept u k \<or> ev = ConnectSuccess u)"

definition network_first :: "lock \<Rightarrow> nat" where
  "network_first l = (case l of NetworkLock \<Rightarrow> 0 | ServiceLock \<Rightarrow> 1)"

definition service_first :: "lock \<Rightarrow> nat" where
  "service_first l = (case l of ServiceLock \<Rightarrow> 0 | NetworkLock \<Rightarrow> 1)"

lemma event_locks_disciplined:
  "announces ev \<Longrightarrow> event_locks ev = new_peer_locks"
  "\<not> announces ev \<Longrightarrow> disciplined network_first {} (event_locks ev)"
  by (cases ev; force simp: announces_def network_first_def split: sum.splits)+

lemma disciplined_services:
  "disciplined network_first {NetworkLock} (concat (replicate n use_service) @ [Release NetworkLock])"
  by (induction n) (auto simp: use_service_def network_first_def insert_Diff_if)

lemma command_locks_cases:
  obtains "command_locks walk from_json cmd n = []"
  | k where "command_locks walk from_json cmd n = Acquire NetworkLock # concat (replicate k use_service) @ [Release NetworkLock]"
proof -
  have "\<exists>k. command_locks walk from_json cmd n = Acquire NetworkLock # concat (replicate k use_service) @ [Release NetworkLock]"
    if "cmd \<noteq> UStop"
  proof (cases cmd)
    case (UConnect i j)
    then show ?thesis by (auto simp: command_locks_def split: option.splits intro: exI [of _ 0] exI [of _ 1])
  next
    case (USend i m)
    then show ?thesis by (auto simp: command_locks_def intro: exI [of _ 0] exI [of _ 1])
  next
    case (USendAll m)
    then show ?thesis by (auto simp: command_locks_def map_replicate_const)
  qed (use that in \<open>auto simp: command_locks_def intro: exI [of _ 1]\<close>)
  then show thesis using that by (cases "cmd = UStop") (auto simp: command_locks_def)
qed

lemma new_peer_deadlock:
  assumes "ops = Acquire NetworkLock # Acquire ServiceLock # rest"
  shows "\<exists>s. lock_step\<^sup>*\<^sup>* (({}, new_peer_locks), ({}, ops)) s \<and> deadlocked s"
proof -
  let ?e = "({ServiceLock}, tl new_peer_locks)"
  let ?c = "({NetworkLock}, Acquire ServiceLock # rest)"
  have "lock_step (({}, new_peer_locks), ({}, ops)) (?e, ({}, ops))" "lock_step (?e, ({}, ops)) (?e, ?c)"
    by (auto simp: lock_step_iff new_peer_locks_def assms)
  moreover have "deadlocked (?e, ?c)" by (auto simp: deadlocked_def lock_step_iff new_peer_locks_def)
  ultimately show ?thesis by (meson converse_rtranclp_into_rtranclp rtranclp.rtrancl_refl)
qed

text \<open>
  C39 When the example node hangs. The event thread takes the lock of the service before the one of the table
  when a peer is announced, the thread of the commands takes them in the other order. For every
  event and every command that run at the same time, some interleaving ends with both threads
  waiting for ever exactly if the event announces a peer and the command calls the service; no
  interleaving of any other pair gets stuck.
\<close>

theorem threads_deadlock_iff:
  "(\<exists>s. lock_step\<^sup>*\<^sup>* (({}, event_locks ev), ({}, command_locks walk from_json cmd n)) s \<and> deadlocked s) \<longleftrightarrow>
   announces ev \<and> Acquire ServiceLock \<in> set (command_locks walk from_json cmd n)"
  (is "?hangs = (_ \<and> ?calls)")
proof (cases rule: command_locks_cases [of walk from_json cmd n])
  case 1
  have "both_disciplined (if announces ev then service_first else network_first) (({}, event_locks ev), ({}, []))"
    using event_locks_disciplined [of ev] by (auto simp: both_disciplined_def new_peer_locks_def service_first_def)
  then show ?thesis using 1 lock_steps_disciplined disciplined_not_deadlocked by fastforce
next
  case (2 k)
  let ?s = "(({}, event_locks ev), ({} :: lock set, command_locks walk from_json cmd n))"
  have d: "?hangs = False" if "both_disciplined rank ?s" for rank
    using lock_steps_disciplined [OF _ that] disciplined_not_deadlocked by blast
  consider "\<not> announces ev" | "announces ev" "k = 0" | k' where "announces ev" "k = Suc k'" by (cases k) auto
  then show ?thesis
  proof cases
    case 1
    then have "both_disciplined network_first ?s"
      using event_locks_disciplined(2) [of ev] disciplined_services [of k] by (simp add: both_disciplined_def 2)
    from d [OF this] 1 show ?thesis by simp
  next
    case none: 2
    then have "both_disciplined service_first ?s"
      using event_locks_disciplined(1) [of ev] by (simp add: both_disciplined_def 2 new_peer_locks_def service_first_def)
    from d [OF this] none show ?thesis by (simp add: 2)
  next
    case 3
    then have ?hangs
      using new_peer_deadlock event_locks_disciplined(1) [of ev] by (simp add: 2 use_service_def)
    with 3 show ?thesis by (simp add: 2 use_service_def)
  qed
qed

section \<open>The rate of the speed test\<close>

definition range_ok :: "(u64 \<Rightarrow> u64 \<Rightarrow> 'r \<Rightarrow> (u64 \<times> 'r) option) \<Rightarrow> bool" where
  "range_ok gen_range \<longleftrightarrow> (\<forall>lo hi r x r'. gen_range lo hi r = Some (x, r') \<longrightarrow> lo \<le> x \<and> x < hi)"

lemma length_generate_random_vec_u8 [simp]: "length (fst (generate_random_vec_u8 random n r)) = n"
  by (induction n arbitrary: r) (auto simp: split_beta)

lemma speed_sends_amount:
  assumes "speed_sends random others u len sleep n r w = Some (sent, slept, r', w')"
  shows "sent = n * unat len \<and> slept = n * unat sleep"
  using assms
proof (induction random others u len sleep n r w arbitrary: sent slept r' w' rule: speed_sends.induct)
  case (2 random others u len sleep n r w)
  obtain msg r1 where msg: "generate_random_vec_u8 random (unat len) r = (msg, r1)" by fastforce
  then have "length msg = unat len" by (metis fst_conv length_generate_random_vec_u8)
  moreover obtain a w1 sent' slept' where "send u msg 0 w = (Inr a, w1)"
    and "speed_sends random others u len sleep n r1 (others w1) = Some (sent', slept', r', w')"
    and "sent = length msg + sent'" "slept = unat sleep + slept'"
    using "2.prems" msg by (auto simp: bind_eq_Some_conv split: sum.splits prod.splits)
  ultimately show ?case using "2.IH" [OF msg [symmetric] refl] by fastforce
qed simp

lemma speed_round_amount:
  assumes "speed_round gen_range random others speed u r w = Some (sent, slept, r', w')"
    and "gen_range 50 speed r = Some (len, r1)" and "50 \<le> len" and "len < speed"
  shows "sent = unat speed div unat len * unat len" and "slept = unat speed div unat len * max 1 (1000 div (unat speed div unat len))"
proof -
  have "unat len \<noteq> 0" "unat len < unat speed" using assms(3,4) by (auto simp: word_le_nat_alt word_less_nat_alt)
  then have q: "1 \<le> unat speed div unat len" by (simp add: Suc_leI div_greater_zero_iff)
  then have t: "max 1 (speed div len) = speed div len" by (simp add: word_le_nat_alt unat_div max_def)
  have "unat (max 1 (1000 div (speed div len))) = max 1 (1000 div (unat speed div unat len))"
    by (simp add: max_def word_le_nat_alt unat_div)
  then show "sent = unat speed div unat len * unat len"
    and "slept = unat speed div unat len * max 1 (1000 div (unat speed div unat len))"
    using assms(1,2) speed_sends_amount by (force simp: speed_round_def t unat_div)+
qed

lemma pause_bound: "0 < (t :: nat) \<Longrightarrow> 500 < t * max 1 (1000 div t)"
proof (cases "t \<le> 1000")
  case True
  assume "0 < t"
  then have "1 \<le> 1000 div t" using True by (simp add: Suc_leI div_greater_zero_iff)
  then have "t \<le> t * (1000 div t)" by simp
  moreover have "t * (1000 div t) + 1000 mod t = 1000" "1000 mod t < t" using \<open>0 < t\<close> by simp_all
  ultimately have "500 < t * (1000 div t)" by linarith
  with \<open>1 \<le> 1000 div t\<close> show ?thesis by (simp add: max_def)
qed simp

text \<open>
  The speed test sends fewer than twice as many bytes per second as it was told to: \<open>n\<close> rounds send at most
  \<open>n\<close> times the rate and pause for more than \<open>n\<close> times half a second.
\<close>

lemma speed_rounds_bound:
  assumes "range_ok gen_range" and "speed_rounds gen_range random others speed u n r w = Some (sent, slept, r', w')"
  shows "sent \<le> n * unat speed \<and> 501 * n \<le> slept"
  using assms(2)
proof (induction n arbitrary: r w sent slept)
  case (Suc n)
  obtain s1 p1 r1 w1 s2 p2 where one: "speed_round gen_range random others speed u r w = Some (s1, p1, r1, w1)"
    and rest: "speed_rounds gen_range random others speed u n r1 w1 = Some (s2, p2, r', w')"
    and sum: "sent = s1 + s2" "slept = p1 + p2"
    using Suc.prems by (auto simp: bind_eq_Some_conv)
  obtain len r2 where g: "gen_range 50 speed r = Some (len, r2)"
    using one by (auto simp: speed_round_def bind_eq_Some_conv)
  with assms(1) have len: "50 \<le> len" "len < speed" unfolding range_ok_def by blast+
  then have "0 < unat speed div unat len"
    by (auto simp: word_le_nat_alt word_less_nat_alt div_greater_zero_iff)
  from pause_bound [OF this] have "s1 \<le> unat speed" "501 \<le> p1"
    using speed_round_amount [OF one g len] by simp_all
  with Suc.IH [OF rest] show ?case by (simp add: sum)
qed simp

text \<open>The bound is reached: a rate of 25050 bytes per second may be sent in 501 milliseconds.\<close>

lemma speed_exceeds_rate:
  assumes "gen_range 50 25050 r = Some (50, r1)"
    and "speed_round gen_range random others 25050 u r w = Some (sent, slept, r', w')"
  shows "sent = 25050 \<and> slept = 501"
  using speed_round_amount [OF assms(2,1)] by simp

end
