(* ===== verification/Safe_World.thy ===== *)
theory Safe_World
  imports Service Socket_Facts
begin

text \<open>
  The invariant under which no handler of the event loop panics, and the rules by which the
  primitive operations of the core keep it. A handler is proved by progress and preservation at once:
  \<open>ok r Q\<close> says that the computation \<open>r\<close> has a result and that the result satisfies \<open>Q\<close>. The invariant \<open>fine\<close>
  does not mention the connection map: it holds on all runs, also on those that miscount.
\<close>

section \<open>Computations that return\<close>

definition ok :: "'a option \<Rightarrow> ('a \<Rightarrow> bool) \<Rightarrow> bool" where
  "ok r Q \<longleftrightarrow> (\<exists>x. r = Some x \<and> Q x)"

lemma ok_simps [simp]:
  "ok (Some x) Q \<longleftrightarrow> Q x"
  "\<not> ok None Q"
  "ok (Option.bind r f) Q \<longleftrightarrow> ok r (\<lambda>x. ok (f x) Q)"
  "ok (map_option g r) Q \<longleftrightarrow> ok r (\<lambda>x. Q (g x))"
  by (auto simp: ok_def bind_eq_Some_conv)

lemma ok_mono: "ok r Q \<Longrightarrow> (\<And>x. Q x \<Longrightarrow> Q' x) \<Longrightarrow> ok r Q'"
  by (auto simp: ok_def)

section \<open>What the kernel grants\<close>

text \<open>
  A stream that the poll never refuses, a socket on one whose write queue is in order, a listener
  that accepts only such streams, and an unconnected socket that becomes such a listener.
\<close>

definition granted :: "tcp_stream \<Rightarrow> bool" where
  "granted st \<longleftrightarrow> ts_poll st = []"

definition sock_ok :: "socket \<Rightarrow> bool" where
  "sock_ok s \<longleftrightarrow> (\<forall>i. s = Some i \<longrightarrow> granted (si_stream i) \<and> wq_inv (si_write_queue i))"

definition tl_ok :: "tcp_listener \<Rightarrow> bool" where
  "tl_ok l \<longleftrightarrow> (\<forall>st. Inr st \<in> set (tl_accepts l) \<longrightarrow> granted st)"

definition tb_ok :: "tcp_builder \<Rightarrow> bool" where
  "tb_ok b \<longleftrightarrow> (\<forall>l. tb_listen b = Inr l \<longrightarrow> tl_ok l)"

fun msg_ok :: "'u core_msg \<Rightarrow> bool" where
  "msg_ok (MsgConnect our_ci their_ci nh) \<longleftrightarrow> (\<forall>b. priv_hole_punch_socket our_ci = Some b \<longrightarrow> tb_ok b)"
| "msg_ok _ \<longleftrightarrow> True"

lemma sock_ok_simps [simp]:
  "sock_ok None"
  "sock_ok (Some i) \<longleftrightarrow> granted (si_stream i) \<and> wq_inv (si_write_queue i)"
  "sock_ok socket_default"
  "sock_ok (socket_wrap st) \<longleftrightarrow> granted st"
  "socket_wrap st \<noteq> None"
  "\<exists>i. socket_wrap st = Some i"
  by (simp_all add: sock_ok_def socket_default_def socket_wrap_def)

lemma granted_calls:
  "tcp_read st = (x, st') \<Longrightarrow> granted st' = granted st"
  "tcp_write bs st = (y, st') \<Longrightarrow> granted st' = granted st"
  "granted st \<Longrightarrow> tcp_register tok kind st = (z, st') \<Longrightarrow> z = None \<and> granted st'"
  "granted st \<Longrightarrow> tcp_deregister st = (z, st') \<Longrightarrow> granted st'"
  by (auto simp: granted_def tcp_read_def tcp_write_def tcp_register_def tcp_deregister_def
      split: list.splits sum.splits if_splits prod.splits)

lemma sock_ok_register:
  assumes "sock_ok s" and "socket_register tok kind s = (z, s')"
  shows "sock_ok s'" and "s \<noteq> None \<Longrightarrow> z = None \<and> s' \<noteq> None"
  using assms granted_calls(3) by (auto simp: socket_register_def split: option.splits prod.splits)

lemma sock_ok_deregister [simp]: "sock_ok s \<Longrightarrow> sock_ok (snd (socket_deregister s))"
  by (auto simp: socket_deregister_def dest: granted_calls split: option.split prod.split)

lemma read_from_buffer_stream:
  "read_from_buffer des s = (r, s') \<Longrightarrow>
     si_stream s' = si_stream s \<and> si_write_queue s' = si_write_queue s"
  by (auto simp: read_from_buffer_def Let_def split: if_splits option.splits)

lemma sock_ok_read_loop: "read_loop des b s = (r, s') \<Longrightarrow> sock_ok (Some s) \<Longrightarrow> sock_ok (Some s')"
proof (induction des b s arbitrary: r s' rule: read_loop.induct)
  case (1 des b s)
  obtain x st where t: "tcp_read (si_stream s) = (x, st)" by fastforce
  have st: "granted st" using 1(3) granted_calls(1) [OF t] by simp
  show ?case
  proof (cases "\<exists>bs. x = Inr bs \<and> bs \<noteq> []")
    case True
    then obtain bs where x: "x = Inr bs" "bs \<noteq> []" by blast
    have "read_loop des True (s\<lparr>si_stream := st, si_read_buffer := si_read_buffer s @ bs\<rparr>) = (r, s')"
      using 1(2) t x by (subst (asm) read_loop.simps) simp
    with 1(1) [OF t [symmetric] x(1) refl x(2)] 1(3) st show ?thesis by simp
  next
    case False
    then have "si_stream s' = st \<and> si_write_queue s' = si_write_queue s"
      using 1(2) t
      by (subst (asm) read_loop.simps)
        (auto simp: Let_def split: sum.splits if_splits prod.splits option.splits
          dest!: read_from_buffer_stream)
    with 1(3) st show ?thesis by simp
  qed
qed

lemma sock_ok_read: "socket_read des s = (r, s') \<Longrightarrow> sock_ok s \<Longrightarrow> sock_ok s'"
  by (cases s)
    (auto simp: socket_read_def sock_read_def map_prod_def
      split: prod.splits sum.splits option.splits dest!: read_from_buffer_stream
      dest: sock_ok_read_loop)

lemma sock_read_some: "socket_read des s = (Inr x, s') \<Longrightarrow> s' \<noteq> None"
  by (auto simp: socket_read_def map_prod_def split: option.splits prod.splits)

lemma granted_flush:
  "flush_and_reregister tok s = (r, s') \<Longrightarrow> granted (si_stream s) \<Longrightarrow>
     granted (si_stream s') \<and> si_write_queue s' = si_write_queue s"
proof -
  assume f: "flush_and_reregister tok s = (r, s')" and g: "granted (si_stream s)"
  obtain x s1 where c: "flush_current s = (x, s1)" by fastforce
  have s1: "granted (si_stream s1)" "si_write_queue s1 = si_write_queue s"
    using c g
    by (auto simp: flush_current_def split: option.splits prod.splits sum.splits if_splits
        dest: granted_calls(2))
  show ?thesis
    using f c s1
    by (auto simp: flush_and_reregister_def Let_def split: sum.splits prod.splits option.splits if_splits
        dest: granted_calls(3))
qed

lemma sock_ok_write:
  assumes "sock_ok s"
  shows "ok (socket_write ser now tok msg s)
    (\<lambda>(r, s'). sock_ok s' \<and> (\<forall>b. r = Inr b \<longrightarrow> s' \<noteq> None))"
proof (cases s)
  case (Some i)
  have i: "granted (si_stream i)" "wq_inv (si_write_queue i)" using assms Some by simp_all
  have load: "granted (si_stream (load_current q i))" for q
    using i by (cases "(q, i)" rule: load_current.cases) auto
  show ?thesis
  proof (cases "enqueue_msg ser now msg (drop_expired now (si_write_queue i))")
    case (Inl e)
    with Some i show ?thesis
      by (simp add: socket_write_def sock_write_eq wq_inv_drop_expired)
  next
    case (Inr q)
    have q: "wq_inv (si_write_queue (load_current q i))"
      using i Inr by (blast intro: wq_inv_load_current wq_inv_enqueue)
    obtain r j where "flush_and_reregister tok (load_current q i) = (r, j)" by fastforce
    with granted_flush [OF this load] q Some i Inr show ?thesis
      by (simp add: socket_write_def sock_write_eq)
  qed
qed (simp add: socket_write_def)

section \<open>The invariant\<close>

text \<open>Every timer but that of the bootstrap's search for peers.\<close>

definition ct_ok :: "core_timer \<Rightarrow> bool" where
  "ct_ok ct \<longleftrightarrow> (state_id ct = BOOTSTRAP_TOKEN \<longrightarrow> timer_id ct = BOOTSTRAP_TIMER_ID)"

text \<open>What a state holds, apart from the tokens of its children.\<close>

fun state_ok :: "'u state \<Rightarrow> bool" where
  "state_ok (StActive s) \<longleftrightarrow> sock_ok (ac_socket s) \<and> ct_ok (hb_recv_timer (ac_heartbeat s)) \<and>
     ct_ok (hb_send_timer (ac_heartbeat s))"
| "state_ok (StCandidate s) \<longleftrightarrow> sock_ok (cc_socket s)"
| "state_ok (StConnectEx s) \<longleftrightarrow> sock_ok (ce_socket s)"
| "state_ok (StConnect s) \<longleftrightarrow> (\<forall>l. cn_listener s = Some l \<longrightarrow> tl_ok l)"
| "state_ok (StReach s) \<longleftrightarrow> True"
| "state_ok (StListenEx s) \<longleftrightarrow> sock_ok (le_socket s)"
| "state_ok (StListener s) \<longleftrightarrow> tl_ok (cl_listener s)"
| "state_ok (StTryPeer s) \<longleftrightarrow> sock_ok (tp_socket s)"
| "state_ok (StBootstrap s) \<longleftrightarrow> bs_timer s = CoreTimer BOOTSTRAP_TOKEN BOOTSTRAP_TIMER_ID"
| "state_ok (StGetExtAddr s) \<longleftrightarrow> sock_ok (ge_socket s)"
| "state_ok (StMapped s) \<longleftrightarrow> (\<exists>b. mp_socket s = Some b \<and> tb_ok b) \<and> mp_finish s \<noteq> None"
| "state_ok (StServiceDisc s) \<longleftrightarrow> True"
| "state_ok (StRefresher s) \<longleftrightarrow> ct_ok (rf_timer s)"

text \<open>The token of a state: a reserved one, or one that the core has given out.\<close>

definition home :: "'u world \<Rightarrow> 'u state \<Rightarrow> bool" where
  "home w s \<longleftrightarrow>
     (case kind_of s of
        KBootstrap \<Rightarrow> state_token s = BOOTSTRAP_TOKEN
      | KServiceDisc \<Rightarrow> state_token s = SERVICE_DISCOVERY_TOKEN
      | KListener \<Rightarrow> state_token s = LISTENER_TOKEN
      | KRefresher \<Rightarrow> state_token s = CONFIG_REFRESHER_TOKEN
      | _ \<Rightarrow> given w (state_token s))"

text \<open>The children of a state, and the kinds of state that their tokens may hold.\<close>

fun children_of :: "'u state \<Rightarrow> token list" where
  "children_of (StConnect s) = cn_children s"
| "children_of (StListenEx s) = le_children s"
| "children_of (StBootstrap s) = bs_children s"
| "children_of (StMapped s) = mp_stun_children s"
| "children_of _ = []"

abbreviation attempt_kinds :: "state_kind set" where
  "attempt_kinds \<equiv> {KActive, KCandidate, KConnectEx}"

abbreviation leaf_kinds :: "state_kind set" where
  "leaf_kinds \<equiv> {KActive, KCandidate, KConnectEx, KReach, KTryPeer, KGetExtAddr}"

definition child_kinds :: "'u state \<Rightarrow> state_kind set" where
  "child_kinds s = (if kind_of s = KConnect then attempt_kinds else leaf_kinds)"

definition kid :: "state_kind set \<Rightarrow> 'u world \<Rightarrow> token \<Rightarrow> bool" where
  "kid K w t \<longleftrightarrow> given w t \<and> (\<forall>s. w_states w t = Some s \<longrightarrow> kind_of s \<in> K)"

definition well :: "'u world \<Rightarrow> 'u state \<Rightarrow> bool" where
  "well w s \<longleftrightarrow> state_ok s \<and> home w s \<and> (\<forall>t \<in> set (children_of s). kid (child_kinds s) w t)"

text \<open>The armed timers of the search for peers, and the one that the bootstrap waits for.\<close>

definition sd_timers :: "'u world \<Rightarrow> timeout set" where
  "sd_timers w = {x. \<exists>ct dl. w_timers w x = Some (ct, dl) \<and> \<not> ct_ok ct}"

definition meta_timers :: "sd_meta option \<Rightarrow> timeout set" where
  "meta_timers m = (case m of None \<Rightarrow> {} | Some m \<Rightarrow> {sm_timeout m})"

definition sd_waits :: "'u world \<Rightarrow> timeout set" where
  "sd_waits w =
     (case w_states w BOOTSTRAP_TOKEN of Some (StBootstrap b) \<Rightarrow> meta_timers (bs_sd_meta b) | _ \<Rightarrow> {})"

definition outside :: "'u world \<Rightarrow> bool" where
  "outside w \<longleftrightarrow> (\<forall>st. Inr st \<in> set (w_connects w) \<longrightarrow> granted st) \<and>
     (\<forall>b. Inr b \<in> set (w_builders w) \<longrightarrow> tb_ok b) \<and> (\<forall>m \<in> set (w_msgs w). msg_ok m)"

definition fine :: "'u world \<Rightarrow> bool" where
  "fine w \<longleftrightarrow> FIRST_TOKEN \<le> w_token_counter w \<and>
     (\<forall>t s. w_states w t = Some s \<longrightarrow> well w s \<and> state_token s = t) \<and>
     sd_timers w \<subseteq> sd_waits w \<and> outside w"

section \<open>Moves\<close>

text \<open>
  A move from one world to another keeps the invariant, and a token that has been given out keeps the
  kind of its state, loses the state, or goes to a candidate or an active connection. The moves of
  everything but the bootstrap also leave the bootstrap's token and its timer alone.
\<close>

definition kinds_from :: "'u world \<Rightarrow> 'u world \<Rightarrow> bool" where
  "kinds_from w w' \<longleftrightarrow> w_token_counter w \<le> w_token_counter w' \<and>
     (\<forall>t s'. given w t \<longrightarrow> w_states w' t = Some s' \<longrightarrow>
        kind_of s' \<in> {KActive, KCandidate} \<or> (\<exists>s. w_states w t = Some s \<and> kind_of s = kind_of s'))"

definition moves :: "'u world \<Rightarrow> 'u world \<Rightarrow> bool" where
  "moves w w' \<longleftrightarrow> fine w' \<and> kinds_from w w'"

definition goes :: "'u world \<Rightarrow> 'u world \<Rightarrow> bool" where
  "goes w w' \<longleftrightarrow> moves w w' \<and> sd_timers w' \<subseteq> sd_timers w \<and>
     w_states w' BOOTSTRAP_TOKEN = w_states w BOOTSTRAP_TOKEN"

lemma kinds_from_refl [simp]: "kinds_from w w"
  by (simp add: kinds_from_def)

lemma kinds_from_trans: "kinds_from w w' \<Longrightarrow> kinds_from w' w'' \<Longrightarrow> kinds_from w w''"
  unfolding kinds_from_def
proof (intro conjI allI impI, elim conjE, erule (1) order.trans)
  fix t s'
  assume 1: "w_token_counter w \<le> w_token_counter w' \<and> (\<forall>t s'. given w t \<longrightarrow> w_states w' t = Some s' \<longrightarrow>
      kind_of s' \<in> {KActive, KCandidate} \<or> (\<exists>s. w_states w t = Some s \<and> kind_of s = kind_of s'))"
    and 2: "w_token_counter w' \<le> w_token_counter w'' \<and> (\<forall>t s'. given w' t \<longrightarrow> w_states w'' t = Some s' \<longrightarrow>
      kind_of s' \<in> {KActive, KCandidate} \<or> (\<exists>s. w_states w' t = Some s \<and> kind_of s = kind_of s'))"
    and t: "given w t" "w_states w'' t = Some s'"
  then have "given w' t" by simp
  with 2 t(2) consider "kind_of s' \<in> {KActive, KCandidate}"
    | s1 where "w_states w' t = Some s1" "kind_of s1 = kind_of s'" by blast
  then show "kind_of s' \<in> {KActive, KCandidate} \<or> (\<exists>s. w_states w t = Some s \<and> kind_of s = kind_of s')"
    using 1 t(1) by cases (simp, metis)
qed

lemma kid_mono: "kid K w t \<Longrightarrow> kinds_from w w' \<Longrightarrow> {KActive, KCandidate} \<subseteq> K \<Longrightarrow> kid K w' t"
  unfolding kid_def kinds_from_def by (force dest: subsetD)

lemma home_mono: "home w s \<Longrightarrow> kinds_from w w' \<Longrightarrow> home w' s"
  by (auto simp: home_def kinds_from_def split: state_kind.splits)

lemma calm_child_kinds: "{KActive, KCandidate} \<subseteq> child_kinds s"
  by (simp add: child_kinds_def)

lemma well_mono: "well w s \<Longrightarrow> kinds_from w w' \<Longrightarrow> well w' s"
  unfolding well_def by (blast intro: home_mono kid_mono [OF _ _ calm_child_kinds])

lemma moves_refl [simp]: "moves w w = fine w" and goes_refl [simp]: "goes w w = fine w"
  by (simp_all add: moves_def goes_def)

lemma moves_trans: "moves w w' \<Longrightarrow> moves w' w'' \<Longrightarrow> moves w w''"
  by (auto simp: moves_def intro: kinds_from_trans)

lemma goes_trans: "goes w w' \<Longrightarrow> goes w' w'' \<Longrightarrow> goes w w''"
  by (auto simp: goes_def intro: moves_trans)

lemma movesD: "moves w w' \<Longrightarrow> fine w'" "moves w w' \<Longrightarrow> kinds_from w w'"
  by (simp_all add: moves_def)

lemma goesD: "goes w w' \<Longrightarrow> moves w w'" "goes w w' \<Longrightarrow> fine w'" "goes w w' \<Longrightarrow> kinds_from w w'"
  by (simp_all add: goes_def moves_def)

lemma fine_well: "fine w \<Longrightarrow> w_states w t = Some s \<Longrightarrow> well w s"
  and fine_token: "fine w \<Longrightarrow> w_states w t = Some s \<Longrightarrow> state_token s = t"
  by (simp_all add: fine_def)

lemma reserved_tokens [simp]:
  "BOOTSTRAP_TOKEN < FIRST_TOKEN" "SERVICE_DISCOVERY_TOKEN < FIRST_TOKEN" "LISTENER_TOKEN < FIRST_TOKEN"
  "CONFIG_REFRESHER_TOKEN < FIRST_TOKEN" "BOOTSTRAP_TOKEN \<noteq> SERVICE_DISCOVERY_TOKEN"
  "BOOTSTRAP_TOKEN \<noteq> LISTENER_TOKEN" "BOOTSTRAP_TOKEN \<noteq> CONFIG_REFRESHER_TOKEN"
  "SERVICE_DISCOVERY_TOKEN \<noteq> LISTENER_TOKEN" "SERVICE_DISCOVERY_TOKEN \<noteq> CONFIG_REFRESHER_TOKEN"
  "SERVICE_DISCOVERY_TOKEN \<noteq> BOOTSTRAP_TOKEN" "LISTENER_TOKEN \<noteq> BOOTSTRAP_TOKEN"
  "CONFIG_REFRESHER_TOKEN \<noteq> BOOTSTRAP_TOKEN"
  by (simp_all add: BOOTSTRAP_TOKEN_def SERVICE_DISCOVERY_TOKEN_def LISTENER_TOKEN_def
      CONFIG_REFRESHER_TOKEN_def FIRST_TOKEN_def)

text \<open>Operations that leave the states alone.\<close>

lemma goes_quiet:
  assumes "fine w" and "w_states w' = w_states w" and "w_token_counter w \<le> w_token_counter w'"
    and "sd_timers w' \<subseteq> sd_timers w" and "set (w_connects w') \<subseteq> set (w_connects w)"
    and "set (w_builders w') \<subseteq> set (w_builders w)" and "\<forall>m \<in> set (w_msgs w'). msg_ok m"
  shows "goes w w'"
proof -
  have k: "kinds_from w w'" using assms(2,3) by (auto simp: kinds_from_def)
  have "sd_waits w' = sd_waits w" using assms(2) by (simp add: sd_waits_def)
  moreover have "well w' s \<and> state_token s = t"
    if "w_states w' t = Some s" for t s
    using that assms(1,2) well_mono [OF _ k] by (simp add: fine_def)
  moreover have "outside w'"
    using assms(1,5,6,7) by (auto simp: fine_def outside_def)
  ultimately have "fine w'" using assms(1,3,4) by (auto simp: fine_def)
  with k assms show ?thesis by (simp add: goes_def moves_def)
qed

text \<open>Operations on one state.\<close>

lemma goes_upd:
  assumes "fine w" and "t \<noteq> BOOTSTRAP_TOKEN"
    and "\<And>s. x = Some s \<Longrightarrow> well w s"
    and "\<And>s. x = Some s \<Longrightarrow> state_token s = t"
    and "\<And>s. x = Some s \<Longrightarrow> given w t \<Longrightarrow> kind_of s \<in> {KActive, KCandidate} \<or>
      (\<exists>s'. w_states w t = Some s' \<and> kind_of s' = kind_of s)"
  shows "goes w (w\<lparr>w_states := (w_states w)(t := x)\<rparr>)"
proof -
  let ?w = "w\<lparr>w_states := (w_states w)(t := x)\<rparr>"
  have k: "kinds_from w ?w" using assms(5) by (auto simp: kinds_from_def)
  have "sd_waits ?w = sd_waits w" "sd_timers ?w = sd_timers w"
    using assms(2) by (simp_all add: sd_waits_def sd_timers_def)
  moreover have "well ?w s \<and> state_token s = t'"
    if "w_states ?w t' = Some s" for t' s
    using that assms(1,3,4) well_mono [OF _ k] by (auto simp: fine_def split: if_splits)
  ultimately have "fine ?w" using assms(1) by (simp add: fine_def outside_def)
  with k assms(2) show ?thesis by (simp add: goes_def moves_def sd_timers_def)
qed

lemma home_token:
  assumes "home w s"
  shows "kind_of s \<noteq> KBootstrap \<Longrightarrow> state_token s \<noteq> BOOTSTRAP_TOKEN"
    and "state_token s = SERVICE_DISCOVERY_TOKEN \<Longrightarrow> kind_of s = KServiceDisc"
    and "state_token s = BOOTSTRAP_TOKEN \<Longrightarrow> kind_of s = KBootstrap"
  using assms reserved_tokens
  by (auto simp: home_def not_le [symmetric] simp del: reserved_tokens split: state_kind.splits)

lemma goes_put:
  assumes "goes w0 w" and "well w s" and "kind_of s \<noteq> KBootstrap"
  shows "goes w0 (put_state s w)"
proof (rule goes_trans [OF assms(1)])
  have h: "home w s" "fine w" using assms goesD by (auto simp: well_def)
  show "goes w (put_state s w)"
    using goes_upd [OF h(2) home_token(1) [OF h(1) assms(3)], of "Some s"] assms(2) h(2)
    by (auto simp: put_state_def insert_state_def get_state_def split: option.split)
qed

lemma goes_insert:
  assumes "goes w0 w" and "well w s" and "kind_of s \<in> {KActive, KCandidate, KListener, KServiceDisc, KRefresher}"
    and "state_token s = t"
  shows "goes w0 (insert_state t s w)"
proof (rule goes_trans [OF assms(1)])
  have h: "home w s" "fine w" using assms goesD by (auto simp: well_def)
  have "kind_of s \<in> {KActive, KCandidate}" if "given w (state_token s)"
    using that assms(3) h(1) reserved_tokens by (auto simp: home_def not_le [symmetric] simp del: reserved_tokens)
  moreover have "state_token s \<noteq> BOOTSTRAP_TOKEN"
    using home_token(1) [OF h(1)] assms(3) by auto
  ultimately have "goes w (w\<lparr>w_states := (w_states w)(state_token s := Some s)\<rparr>)"
    by (intro goes_upd [OF h(2)]) (use assms(2) in \<open>simp_all del: given_def\<close>)
  with assms(4) show "goes w (insert_state t s w)" by (simp add: insert_state_def)
qed

lemma goes_remove: "goes w0 w \<Longrightarrow> t \<noteq> BOOTSTRAP_TOKEN \<Longrightarrow> goes w0 (remove_state t w)"
  using goes_upd [of w t None] goesD(2) [of w0 w] by (auto simp: remove_state_def intro: goes_trans)

text \<open>A new token: no state has it among its children.\<close>

definition unlisted :: "token \<Rightarrow> 'u world \<Rightarrow> bool" where
  "unlisted tok w \<longleftrightarrow> (\<forall>t s. w_states w t = Some s \<longrightarrow> tok \<notin> set (children_of s))"

lemma fine_unlisted: "fine w \<Longrightarrow> w_token_counter w \<le> tok \<Longrightarrow> unlisted tok w"
  by (fastforce simp: fine_def unlisted_def well_def kid_def)

lemma goes_insert_new:
  assumes "goes w w1" and "w_token_counter w \<le> tok" and "unlisted tok w1" and "well w1 s"
    and "state_token s = tok" and "tok \<notin> set (children_of s)" and "fine w"
  shows "goes w (insert_state tok s w1)"
proof -
  let ?w = "insert_state tok s w1"
  have f: "fine w1" "kinds_from w w1" using assms(1) goesD by blast+
  have tok: "BOOTSTRAP_TOKEN \<noteq> tok"
    using assms(2,7) by (auto simp: fine_def FIRST_TOKEN_def BOOTSTRAP_TOKEN_def)
  have k: "kinds_from w ?w" using f(2) assms(2) by (auto simp: kinds_from_def)
  have well: "well ?w s'" if "well w1 s'" "tok \<notin> set (children_of s')" for s'
    using that by (auto simp: well_def home_def kid_def split: state_kind.splits)
  have "well ?w s' \<and> state_token s' = t"
    if "w_states ?w t = Some s'" for t s'
    using that well [OF assms(4,6)] f(1) well [of s'] assms(3,5)
    by (auto simp: fine_def unlisted_def split: if_splits)
  moreover have "sd_waits ?w = sd_waits w1" "sd_timers ?w = sd_timers w1" "outside ?w = outside w1"
    using tok by (simp_all add: sd_waits_def sd_timers_def outside_def insert_state_def)
  ultimately have "fine ?w" using f(1) by (simp add: fine_def)
  with k assms(1) tok show ?thesis
    by (simp add: goes_def moves_def) (simp add: sd_timers_def insert_state_def)
qed

section \<open>The primitive operations\<close>

lemma sd_timers_cancel: "sd_timers (cancel_timeout x w) = sd_timers w - {x}"
  by (auto simp: sd_timers_def cancel_timeout_def)

lemma goes_ops [simp]:
  assumes "goes w0 w"
  shows "goes w0 (send_event ev w)" and "goes w0 (upd_cm f w)" and "goes w0 (cancel_timeout x w)"
    and "goes w0 (snd (get_new_token w))" and "goes w0 (drop_receiver ch w)" and "goes w0 (send_reply rp w)"
    and "goes w0 (w\<lparr>w_config := c\<rparr>)" and "goes w0 (w\<lparr>w_rand := rd\<rparr>)" and "goes w0 (w\<lparr>w_igd := ig\<rparr>)"
    and "goes w0 (w\<lparr>w_our_listeners := ls\<rparr>)" and "goes w0 (w\<lparr>w_now := n\<rparr>)"
proof -
  have f: "fine w" and m: "\<forall>m \<in> set (w_msgs w). msg_ok m"
    using goesD(2) [OF assms] by (auto simp: fine_def outside_def)
  note q = goes_trans [OF assms goes_quiet [OF f]]
  show "goes w0 (send_event ev w)" "goes w0 (upd_cm f w)" "goes w0 (snd (get_new_token w))"
    "goes w0 (drop_receiver ch w)" "goes w0 (send_reply rp w)" "goes w0 (w\<lparr>w_config := c\<rparr>)"
    "goes w0 (w\<lparr>w_rand := rd\<rparr>)" "goes w0 (w\<lparr>w_igd := ig\<rparr>)" "goes w0 (w\<lparr>w_our_listeners := ls\<rparr>)"
    "goes w0 (w\<lparr>w_now := n\<rparr>)"
    by (rule q; use m in \<open>simp add: core_defs drop_receiver_def send_reply_def sd_timers_def\<close>)+
  show "goes w0 (cancel_timeout x w)"
    by (rule q; use m sd_timers_cancel in \<open>auto simp: cancel_timeout_def\<close>)
qed

lemma goes_calls:
  assumes "goes w0 w"
  shows "set_timeout ms ct w = (r1, w') \<Longrightarrow> ct_ok ct \<Longrightarrow> goes w0 w'"
    and "tcp_connect w = (r2, w') \<Longrightarrow> goes w0 w' \<and> (\<forall>st. r2 = Inr st \<longrightarrow> granted st)"
    and "socket_connect w = (r3, w') \<Longrightarrow> goes w0 w' \<and> (\<forall>so. r3 = Inr so \<longrightarrow> sock_ok so \<and> so \<noteq> None)"
    and "read_config_file w = (r4, w') \<Longrightarrow> goes w0 w'"
    and "cache_new w = (r5, w') \<Longrightarrow> goes w0 w'"
    and "tcp_builder_new w = (r6, w') \<Longrightarrow> goes w0 w' \<and> (\<forall>b. r6 = Inr b \<longrightarrow> tb_ok b)"
    and "new_channel w = (r7, w') \<Longrightarrow> goes w0 w'"
    and "udp_bind w = (r8, w') \<Longrightarrow> goes w0 w'"
    and "obs_send ch msg w = (r9, w') \<Longrightarrow> goes w0 w'"
proof -
  have f: "fine w" and m: "\<forall>m \<in> set (w_msgs w). msg_ok m" and
    o: "\<forall>st. Inr st \<in> set (w_connects w) \<longrightarrow> granted st" "\<forall>b. Inr b \<in> set (w_builders w) \<longrightarrow> tb_ok b"
    using goesD(2) [OF assms] by (auto simp: fine_def outside_def)
  note q = goes_trans [OF assms goes_quiet [OF f]]
  have pop: "x = d \<or> x \<in> set xs" "set ys \<subseteq> set xs" if "pop_answer d xs = (x, ys)" for d x :: 'b and xs ys
    using that by (cases xs; auto)+
  show "goes w0 w'" if "set_timeout ms ct w = (r1, w')" "ct_ok ct"
    by (rule q; use that m in \<open>auto simp: set_timeout_def sd_timers_def ct_ok_def split: prod.splits bool.splits if_splits\<close>)
  show c: "goes w0 w' \<and> (\<forall>st. r2 = Inr st \<longrightarrow> granted st)" if "tcp_connect w = (r2, w')" for r2
    by (intro conjI q; use that m o(1) pop in
        \<open>fastforce simp: tcp_connect_def sd_timers_def split: prod.splits\<close>)
  show "goes w0 w' \<and> (\<forall>so. r3 = Inr so \<longrightarrow> sock_ok so \<and> so \<noteq> None)" if "socket_connect w = (r3, w')"
    using that c by (auto simp: socket_connect_def split: prod.splits sum.splits)
  show "goes w0 w' \<and> (\<forall>b. r6 = Inr b \<longrightarrow> tb_ok b)" if "tcp_builder_new w = (r6, w')"
    by (intro conjI q; use that m o(2) pop in
        \<open>fastforce simp: tcp_builder_new_def sd_timers_def split: prod.splits\<close>)
  show "goes w0 w'" if "read_config_file w = (r4, w')"
    by (rule q; use that m in \<open>auto simp: read_config_file_def sd_timers_def split: prod.splits\<close>)
  show "goes w0 w'" if "cache_new w = (r5, w')"
    by (rule q; use that m in \<open>auto simp: cache_new_def sd_timers_def split: prod.splits\<close>)
  show "goes w0 w'" if "new_channel w = (r7, w')"
    by (rule q; use that m in \<open>auto simp: new_channel_def sd_timers_def\<close>)
  show "goes w0 w'" if "udp_bind w = (r8, w')"
    by (rule q; use that m in \<open>auto simp: udp_bind_def sd_timers_def split: prod.splits\<close>)
  show "goes w0 w'" if "obs_send ch msg w = (r9, w')"
    by (rule q; use that m in \<open>auto simp: obs_send_def sd_timers_def split: option.splits\<close>)
qed

end
