(* ===== verification/Safe_States.thy ===== *)
theory Safe_States
  imports Safe_World
begin

text \<open>
  Progress and preservation for the states of the event loop: every operation of a state has a
  result when the world is \<open>fine\<close>, and what it leaves behind is \<open>fine\<close> again. The lemmas follow the order of
  the components.
\<close>

section \<open>Results of handlers\<close>

definition sound :: "('s \<Rightarrow> 'u state) \<Rightarrow> 'u world \<Rightarrow> 's \<times> 'u world \<Rightarrow> bool" where
  "sound C w0 r \<longleftrightarrow> goes w0 (snd r) \<and> well (snd r) (C (fst r))"

lemma sound_pair: "sound C w0 (self, w) \<longleftrightarrow> goes w0 w \<and> well w (C self)"
  by (simp add: sound_def)

lemma sound_trans: "goes w0 w \<Longrightarrow> sound C w r \<Longrightarrow> sound C w0 r"
  by (auto simp: sound_def intro: goes_trans)

text \<open>The sequencing of two steps of a handler.\<close>

lemma ok_then:
  assumes "ok r P" and "\<And>self w. P (self, w) \<Longrightarrow> ok (f self w) Q"
  shows "ok (Option.bind r (\<lambda>(self, w). f self w)) Q"
  using assms by (auto simp: ok_def)

lemma ok_opt: "(b \<Longrightarrow> ok r P) \<Longrightarrow> P x \<Longrightarrow> ok (if b then r else Some x) P"
  by simp

lemma ok_if: "(b \<Longrightarrow> ok r Q) \<Longrightarrow> (\<not> b \<Longrightarrow> ok r' Q) \<Longrightarrow> ok (if b then r else r') Q"
  by simp

lemma ok_run_state:
  assumes "ok r (sound C w0)" and "\<And>self. kind_of (C self) \<noteq> KBootstrap"
  shows "ok (run_state C r) (goes w0)"
proof -
  from assms(1) obtain self w where "r = Some (self, w)" "goes w0 w" "well w (C self)"
    by (auto simp: ok_def sound_def)
  with goes_put [OF _ _ assms(2)] show ?thesis by (simp add: run_state_def)
qed

lemma well_simps [simp]:
  "well w (StActive a) \<longleftrightarrow> state_ok (StActive a) \<and> given w (ac_token a)"
  "well w (StCandidate c) \<longleftrightarrow> state_ok (StCandidate c) \<and> given w (cc_token c)"
  "well w (StConnectEx x) \<longleftrightarrow> state_ok (StConnectEx x) \<and> given w (ce_token x)"
  "well w (StConnect n) \<longleftrightarrow> state_ok (StConnect n) \<and> given w (cn_token n) \<and>
     (\<forall>t \<in> set (cn_children n). kid attempt_kinds w t)"
  "well w (StReach r) \<longleftrightarrow> given w (cr_token r)"
  "well w (StListenEx e) \<longleftrightarrow> state_ok (StListenEx e) \<and> given w (le_token e) \<and>
     (\<forall>t \<in> set (le_children e). kid leaf_kinds w t)"
  "well w (StListener l) \<longleftrightarrow> state_ok (StListener l) \<and> cl_token l = LISTENER_TOKEN"
  "well w (StTryPeer p) \<longleftrightarrow> state_ok (StTryPeer p) \<and> given w (tp_token p)"
  "well w (StBootstrap b) \<longleftrightarrow> state_ok (StBootstrap b) \<and> bs_token b = BOOTSTRAP_TOKEN \<and>
     (\<forall>t \<in> set (bs_children b). kid leaf_kinds w t)"
  "well w (StGetExtAddr g) \<longleftrightarrow> state_ok (StGetExtAddr g) \<and> given w (ge_token g)"
  "well w (StMapped m) \<longleftrightarrow> state_ok (StMapped m) \<and> given w (mp_token m) \<and>
     (\<forall>t \<in> set (mp_stun_children m). kid leaf_kinds w t)"
  "well w (StServiceDisc d) \<longleftrightarrow> sd_token d = SERVICE_DISCOVERY_TOKEN"
  "well w (StRefresher f) \<longleftrightarrow> ct_ok (rf_timer f) \<and> rf_token f = CONFIG_REFRESHER_TOKEN"
  by (simp_all add: well_def home_def child_kinds_def)

lemma given_tokens [simp]:
  "FIRST_TOKEN \<le> t \<Longrightarrow> (t = BOOTSTRAP_TOKEN) = False"
  "FIRST_TOKEN \<le> t \<Longrightarrow> ct_ok (CoreTimer t n)"
  "ct_ok (CoreTimer CONFIG_REFRESHER_TOKEN n)"
  by (auto simp: ct_ok_def CoreTimer_def FIRST_TOKEN_def BOOTSTRAP_TOKEN_def CONFIG_REFRESHER_TOKEN_def)

lemma kid_ops [simp]:
  "kid K (send_event ev w) t = kid K w t"
  "kid K (upd_cm f w) t = kid K w t"
  "kid K (cancel_timeout x w) t = kid K w t"
  "kid K w t \<Longrightarrow> kid K (remove_state t' w) t"
  by (auto simp: kid_def)

lemma goes_given: "goes w0 w \<Longrightarrow> given w0 t \<Longrightarrow> given w t"
  using goesD(3) [of w0 w] by (auto simp: kinds_from_def)

lemma goes_kid: "goes w0 w \<Longrightarrow> kid K w0 t \<Longrightarrow> {KActive, KCandidate} \<subseteq> K \<Longrightarrow> kid K w t"
  using goesD(3) by (blast intro: kid_mono)

lemma goes_well: "goes w0 w \<Longrightarrow> well w0 s \<Longrightarrow> well w s"
  using goesD(3) well_mono by blast

section \<open>Active connections\<close>

lemma sound_active:
  "sound StActive w0 (self, w) \<Longrightarrow> sock_ok so \<Longrightarrow> sound StActive w0 (self\<lparr>ac_socket := so\<rparr>, w)"
  "sound StActive w0 (self, w) \<Longrightarrow> sound StActive w0 (self, send_event ev w)"
  "sound StActive w0 (self, w) \<Longrightarrow> sock_ok (ac_socket self)"
  by (simp_all add: sound_pair)

lemma ac_terminate_sound:
  "sound StActive w0 (self, w) \<Longrightarrow> sound StActive w0 (ac_terminate self w)"
  by (simp add: sound_pair ac_terminate_def hb_terminate_def Let_def goes_remove)

lemma set_timeout_goes:
  assumes "goes w0 w" and "set_timeout ms ct w = (r, w')" and "ct_ok ct"
  shows "goes w0 w'" and "w_token_counter w' = w_token_counter w" and "w_states w' = w_states w"
  using goes_calls(1) [OF assms] set_timeout_frame(1,3) [of ms ct w] assms(2) by simp_all

lemma hb_reset_sound:
  assumes "sound StActive w0 (self, w)"
    and "hb_reset_receive (ac_heartbeat self) w = (r, hb, w') \<or> hb_reset_send (ac_heartbeat self) w = (r, hb, w')"
  shows "sound StActive w0 (self\<lparr>ac_heartbeat := hb\<rparr>, w')"
proof -
  have "goes w0 w1 \<and> w_token_counter w1 = w_token_counter w"
    if "set_timeout ms ct (cancel_timeout x w) = (r1, w1)" "ct_ok ct" for ms ct x r1 w1
    using set_timeout_goes [OF _ that, of w0] assms(1) by (simp add: sound_pair)
  then show ?thesis
    using assms
    by (fastforce simp: sound_pair hb_reset_receive_def hb_reset_send_def split: prod.splits sum.splits)
qed

lemma ac_reset_sound:
  assumes "sound StActive w0 (self, w)"
  shows "sound StActive w0 (ac_reset_receive_heartbeat self w)"
    and "sound StActive w0 (ac_reset_send_heartbeat self w)"
  using hb_reset_sound [OF assms]
  by (auto simp: ac_reset_receive_heartbeat_def ac_reset_send_heartbeat_def Let_def
      split: prod.split sum.split intro!: ac_terminate_sound)

lemma ac_read_sound: "sound StActive w0 (self, w) \<Longrightarrow> sound StActive w0 (ac_read E self w)"
proof (induction E self w rule: ac_read.induct)
  case (1 E self w)
  obtain r so where r: "socket_read (e_des E) (ac_socket self) = (r, so)" by fastforce
  let ?self = "self\<lparr>ac_socket := so\<rparr>"
  have so: "sound StActive w0 (?self, w)"
    using 1(2) sock_ok_read [OF r] by (blast intro: sound_active)
  show ?case
  proof (cases "\<exists>m. r = Inr (Some m)")
    case True
    then obtain m where m: "r = Inr (Some m)" by blast
    obtain self' w' where rec: "ac_receive m ?self w = (self', w')" by fastforce
    have "sound StActive w0 (self', w')"
      using ac_reset_sound(1) [OF so] ac_reset_sound(1) [OF sound_active(2) [OF so]] unfolding rec [symmetric]
      by (simp add: ac_receive_def split: message.split)
    from 1(1) [OF r [symmetric] m refl rec [symmetric] refl this] show ?thesis
      using r m rec by (subst ac_read.simps) simp
  next
    case False
    with r so show ?thesis
      by (subst ac_read.simps) (auto split: sum.split option.split intro: ac_terminate_sound)
  qed
qed

lemma ac_write_sound:
  assumes "sound StActive w0 (self, w)"
  shows "ok (ac_write E msg self w) (sound StActive w0)"
proof -
  obtain r so where "socket_write (e_ser E) (w_now w) (ac_token self) msg (ac_socket self) = Some (r, so)"
    "sock_ok so"
    using sock_ok_write [OF sound_active(3) [OF assms]] by (fastforce simp: ok_def)
  with sound_active(1) [OF assms] show ?thesis
    by (auto simp: ac_write_def Let_def split: sum.split intro: ac_terminate_sound)
qed

lemma ac_start_goes:
  assumes "goes w0 w" and "given w tok" and "sock_ok so"
  shows "goes w0 (ac_start E tok so our their role ev w)"
proof -
  have ct: "ct_ok (CoreTimer tok n)" for n using assms(2) by simp
  obtain r w1 where h: "hb_new tok w = (r, w1)" by fastforce
  have h1: "goes w0 w1 \<and> w_token_counter w1 = w_token_counter w \<and>
      (\<forall>hb. r = Inr hb \<longrightarrow> ct_ok (hb_recv_timer hb) \<and> ct_ok (hb_send_timer hb))"
    using h set_timeout_goes [OF assms(1) _ ct] set_timeout_goes [OF set_timeout_goes(1) [OF assms(1) _ ct] _ ct] ct
    by (fastforce simp: hb_new_def Let_def split: prod.splits sum.splits)
  show ?thesis
  proof (cases r)
    case (Inr hb)
    let ?self = "\<lparr>ac_token = tok, ac_socket = so, ac_our_id = our, ac_their_id = their,
                       ac_their_role = role, ac_heartbeat = hb\<rparr>"
    let ?w = "send_event ev (upd_cm (cm_activate their tok) (insert_state tok (StActive ?self) w1))"
    have "goes w0 (insert_state tok (StActive ?self) w1)"
      by (rule goes_insert) (use h1 Inr assms in auto)
    then have "sound StActive w0 (?self, ?w)"
      using h1 Inr assms by (simp add: sound_pair)
    from ac_read_sound [OF this, of E] h Inr show ?thesis
      by (auto simp: ac_start_def Let_def sound_def split: prod.split intro: goes_put)
  qed (use h h1 in \<open>simp add: ac_start_def\<close>)
qed

lemma ac_handlers_sound:
  assumes "sound StActive w0 (self, w)"
  shows "ok (ac_ready E kind self w) (sound StActive w0)"
    and "ok (ac_state_write E bytes p self w) (sound StActive w0)"
    and "ok (ac_timeout E tid self w) (sound StActive w0)"
proof -
  show "ok (ac_ready E kind self w) (sound StActive w0)"
    unfolding ac_ready_def
    by (intro ok_if ok_then [OF ok_opt [OF ac_write_sound [OF assms] assms]])
      (simp_all add: assms ac_terminate_sound ac_read_sound)
  show "ok (ac_state_write E bytes p self w) (sound StActive w0)"
    unfolding ac_state_write_def
    by (rule ok_then [OF ac_write_sound [OF assms]]) (simp add: ac_reset_sound)
  obtain a hb w' where t: "hb_timeout tid (ac_heartbeat self) w = (a, hb, w')" by (metis prod_cases3)
  obtain r w1 where s: "set_timeout HEARTBEAT_PERIOD_MS (hb_send_timer (ac_heartbeat self)) w = (r, w1)"
    by fastforce
  have "goes w0 w1" "w_token_counter w1 = w_token_counter w"
    using set_timeout_goes [OF _ s, of w0] assms by (simp_all add: sound_pair)
  then have "sound StActive w0 (self\<lparr>ac_heartbeat := hb\<rparr>, w')"
    using t s assms by (auto simp: hb_timeout_def sound_pair split: if_splits sum.splits)
  with t show "ok (ac_timeout E tid self w) (sound StActive w0)"
    by (simp add: ac_timeout_def Let_def ac_write_sound ac_terminate_sound split: heartbeat_action.split)
qed

section \<open>Candidates\<close>

text \<open>The call of a closure at the end of a handler.\<close>

lemma ok_fin:
  assumes "sound C w0 (self, w)" and "ok r (goes w)"
  shows "ok (Option.bind r (\<lambda>w. Some (self, w))) (sound C w0)"
  using assms by (auto simp: ok_def sound_pair intro: goes_trans goes_well)

lemma sound_cand:
  "sound StCandidate w0 (self, w) \<Longrightarrow> sock_ok so \<Longrightarrow> sound StCandidate w0 (self\<lparr>cc_socket := so\<rparr>, w)"
  "sound StCandidate w0 (self, w) \<Longrightarrow> sound StCandidate w0 (self\<lparr>cc_msg := m\<rparr>, w)"
  "sound StCandidate w0 (self, w) \<Longrightarrow> sock_ok (cc_socket self)"
  "sound StCandidate w0 (self, w) \<Longrightarrow> sound StCandidate w0 (self, remove_state (cc_token self) w)"
  by (simp_all add: sound_pair goes_remove)

lemma cand_start_ok:
  assumes "goes w0 w" and "sock_ok so" and "so \<noteq> None" and "given w tok"
  shows "ok (cand_start tok so our their finish w)
    (\<lambda>w'. goes w0 w' \<and> w_token_counter w' = w_token_counter w \<and> kid attempt_kinds w' tok \<and>
       (\<forall>t. t \<noteq> tok \<longrightarrow> w_states w' t = w_states w t))"
proof -
  obtain r so' where "socket_register tok ready_ehw so = (r, so')" by fastforce
  with sock_ok_register [OF assms(2) this] assms show ?thesis
    by (auto simp: cand_start_def kid_def intro!: goes_insert)
qed

lemma cand_terminate_sound:
  "sound StCandidate w0 (self, w) \<Longrightarrow> sound StCandidate w0 (cand_terminate self w)"
  by (simp add: sound_pair cand_terminate_def Let_def goes_remove)

locale safe_cand_finish =
  fixes fin :: "'u::linorder cand_fin"
  assumes fin_ok: "\<lbrakk>fine w; well w (StCandidate self); \<And>so. r = Some so \<Longrightarrow> sock_ok so\<rbrakk>
      \<Longrightarrow> ok (fin self r w) (goes w)"
begin

lemma fin_sound:
  assumes "sound StCandidate w0 (self, w)" and "\<And>so. r = Some so \<Longrightarrow> sock_ok so"
  shows "ok (Option.bind (fin self r w) (\<lambda>w. Some (self, w))) (sound StCandidate w0)"
  by (rule ok_fin [OF assms(1) fin_ok]) (use assms in \<open>auto simp: sound_pair dest: goesD(2)\<close>)

lemma done_sound:
  assumes "sound StCandidate w0 (self, w)"
  shows "ok (cand_done fin self w) (sound StCandidate w0)"
  unfolding cand_done_def Let_def
  by (rule fin_sound) (use assms in \<open>simp_all add: sound_pair goes_remove\<close>)

lemma handle_error_sound:
  assumes "sound StCandidate w0 (self, w)"
  shows "ok (cand_handle_error fin self w) (sound StCandidate w0)"
  using fin_sound [of w0 "fst (cand_terminate self w)" "snd (cand_terminate self w)" None]
    cand_terminate_sound [OF assms]
  by (simp add: cand_handle_error_def case_prod_beta del: ok_simps(3))

lemma read_sound:
  assumes "sound StCandidate w0 (self, w)"
  shows "ok (cand_read E fin self w) (sound StCandidate w0)"
proof -
  obtain r so where r: "socket_read (e_des E) (cc_socket self) = (r, so)" by fastforce
  have "sound StCandidate w0 (self\<lparr>cc_socket := so\<rparr>, w)"
    using sound_cand(1) [OF assms] sock_ok_read [OF r] sound_cand(3) [OF assms] by simp
  with r show ?thesis
    by (simp add: cand_read_def Let_def done_sound handle_error_sound
        split: sum.split option.split message.split)
qed

lemma write_sound:
  assumes "sound StCandidate w0 (self, w)"
  shows "ok (cand_write E fin msg self w) (sound StCandidate w0)"
proof -
  note s = sound_cand(3) [OF assms]
  obtain r so where r: "socket_write (e_ser E) (w_now w) (cc_token self) msg (cc_socket self) = Some (r, so)"
    "sock_ok so"
    using sock_ok_write [OF s] by (fastforce simp: ok_def)
  obtain q so' where q: "socket_register (cc_token self) ready_erh (cc_socket self) = (q, so')" by fastforce
  have q': "sock_ok so'" using sock_ok_register(1) [OF s q] .
  show ?thesis
    unfolding cand_write_def
    using r q q'
    by (intro ok_if) (simp_all add: assms Let_def sound_cand done_sound handle_error_sound read_sound
        split: sum.split option.split bool.split)
qed

lemma ready_sound:
  assumes "sound StCandidate w0 (self, w)"
  shows "ok (cand_ready E fin kind self w) (sound StCandidate w0)"
  unfolding cand_ready_def
  by (intro ok_if ok_then [OF ok_opt [OF read_sound [OF assms] assms]] ok_opt)
    (simp_all add: assms handle_error_sound write_sound sound_cand)

end

section \<open>Attempts\<close>

lemma sound_cex:
  "sound StConnectEx w0 (self, w) \<Longrightarrow> sock_ok so \<Longrightarrow> sound StConnectEx w0 (self\<lparr>ce_socket := so\<rparr>, w)"
  "sound StConnectEx w0 (self, w) \<Longrightarrow> sound StConnectEx w0 (self\<lparr>ce_msg := m\<rparr>, w)"
  "sound StConnectEx w0 (self, w) \<Longrightarrow> sock_ok (ce_socket self)"
  by (simp_all add: sound_pair)

text \<open>The world after a state has started under a new token \<open>t\<close>, seen from the one before.\<close>

definition starts :: "state_kind set \<Rightarrow> 'u world \<Rightarrow> token \<Rightarrow> 'u world \<Rightarrow> bool" where
  "starts K w t w' \<longleftrightarrow> goes w w' \<and> kid K w' t \<and> t = w_token_counter w \<and>
     (\<forall>t'. unlisted t' w \<longrightarrow> unlisted t' w')"

lemma startsD:
  "starts K w t w' \<Longrightarrow> goes w w'" "starts K w t w' \<Longrightarrow> kid K w' t" "starts K w t w' \<Longrightarrow> t = w_token_counter w"
  unfolding starts_def by blast+

lemma starts_insert:
  assumes "goes w w1" and "w_states w1 = w_states w" and "fine w" and "well w1 s"
    and "state_token s = w_token_counter w" and "w_token_counter w < w_token_counter w1"
    and "children_of s = []" and "kind_of s \<in> K"
  shows "starts K w (w_token_counter w) (insert_state (w_token_counter w) s w1)"
proof -
  have "unlisted t w1 = unlisted t w" for t using assms(2) by (simp add: unlisted_def)
  moreover have "goes w (insert_state (w_token_counter w) s w1)"
    using goes_insert_new [OF assms(1) order.refl _ assms(4,5) _ assms(3)] fine_unlisted [OF assms(3)]
      assms(7) calculation by simp
  ultimately show ?thesis
    using assms by (auto simp: starts_def kid_def unlisted_def fine_def)
qed

lemma cex_start_ok:
  assumes "fine w" and "sock_ok so" and "so \<noteq> None"
  shows "\<exists>t w'. cex_start so our their nh parent w = (Inr t, w') \<and> starts attempt_kinds w t w'"
proof -
  let ?t = "w_token_counter w"
  obtain r so' where r: "socket_register ?t ready_ehw so = (r, so')" by fastforce
  note r' = sock_ok_register [OF assms(2) r]
  have "starts attempt_kinds w ?t (insert_state ?t (StConnectEx x) (upd_cm f (snd (get_new_token w))))"
    if "sock_ok (ce_socket x)" "ce_token x = ?t" for x f
    by (rule starts_insert) (use assms(1) that in \<open>simp_all add: fine_def\<close>)
  with r r' assms(3) show ?thesis
    by (simp add: cex_start_def Let_def case_prod_beta)
qed

lemma cex_terminate_sound:
  "sound StConnectEx w0 (self, w) \<Longrightarrow> sound StConnectEx w0 (cex_terminate self w)"
  by (simp add: sound_pair cex_terminate_def Let_def goes_remove)

locale safe_cex_finish =
  fixes fin :: "'u cex_fin"
  assumes fin_ok: "\<lbrakk>fine w; well w (StConnectEx self); \<And>so. r = Some so \<Longrightarrow> sock_ok so \<and> so \<noteq> None\<rbrakk>
      \<Longrightarrow> ok (fin self r w) (goes w)"
begin

lemma fin_sound:
  assumes "sound StConnectEx w0 (self, w)" and "\<And>so. r = Some so \<Longrightarrow> sock_ok so \<and> so \<noteq> None"
  shows "ok (Option.bind (fin self r w) (\<lambda>w. Some (self, w))) (sound StConnectEx w0)"
  by (rule ok_fin [OF assms(1) fin_ok]) (use assms in \<open>auto simp: sound_pair dest: goesD(2)\<close>)

lemma handle_error_sound:
  assumes "sound StConnectEx w0 (self, w)"
  shows "ok (cex_handle_error fin self w) (sound StConnectEx w0)"
  using fin_sound [of w0 "fst (cex_terminate self w)" "snd (cex_terminate self w)" None]
    cex_terminate_sound [OF assms]
  by (simp add: cex_handle_error_def case_prod_beta del: ok_simps(3))

lemma write_sound:
  assumes "sound StConnectEx w0 (self, w)"
  shows "ok (cex_write E fin msg self w) (sound StConnectEx w0)"
proof -
  obtain r so where "socket_write (e_ser E) (w_now w) (ce_token self) msg (ce_socket self) = Some (r, so)"
    "sock_ok so"
    using sock_ok_write [OF sound_cex(3) [OF assms]] by (fastforce simp: ok_def)
  with assms show ?thesis
    by (simp add: cex_write_def Let_def handle_error_sound sound_cex split: sum.split)
qed

lemma receive_response_sound:
  assumes "sound StConnectEx w0 (self, w)"
  shows "ok (cex_receive_response E fin self w) (sound StConnectEx w0)"
proof -
  obtain r so where r: "socket_read (e_des E) (ce_socket self) = (r, so)" by fastforce
  have so: "sock_ok so" using sock_ok_read [OF r sound_cex(3) [OF assms]] .
  have s: "sound StConnectEx w0 (self\<lparr>ce_socket := so\<rparr>, w)" using sound_cex(1) [OF assms so] .
  have "ok (Option.bind (fin (self\<lparr>ce_socket := socket_default\<rparr>) (Some so) (remove_state (ce_token self) w))
      (\<lambda>w. Some (self\<lparr>ce_socket := socket_default\<rparr>, w))) (sound StConnectEx w0)"
    if "r = Inr (Some m)" for m
    by (rule fin_sound) (use assms so sock_read_some [OF r [unfolded that]] in \<open>auto simp: sound_pair goes_remove\<close>)
  with r s show ?thesis
    by (simp add: cex_receive_response_def Let_def handle_error_sound del: ok_simps(3)
        split: sum.split option.split message.split)
qed

lemma ready_sound:
  assumes "sound StConnectEx w0 (self, w)"
  shows "ok (cex_ready E fin kind self w) (sound StConnectEx w0)"
  unfolding cex_ready_def
  by (intro ok_if ok_then [OF ok_opt [OF write_sound [OF sound_cex(2) [OF assms]] assms]] ok_opt)
    (simp_all add: assms handle_error_sound receive_response_sound)

end

end
