(* ===== verification/Safe_Parents.thy ===== *)
theory Safe_Parents
  imports Safe_States
begin

text \<open>
  Progress and preservation for the states with children and for their children: the connect, the
  incoming exchange with its reachability checks, the mapped socket, and the listener. The closures of the
  children are the interpretations of the locales of the children.
\<close>

section \<open>Connects\<close>

lemma terminate_attempt_safe:
  assumes "fine w" and "w_states w t = Some s" and "kind_of s \<in> attempt_kinds"
  shows "ok (terminate_attempt s w) (goes w)"
  using fine_well [OF assms(1,2)] assms(1,3)
    ac_terminate_sound [of w _ w] cand_terminate_sound [of w _ w] cex_terminate_sound [of w _ w]
  by (cases s) (auto simp: sound_def)

lemma terminate_attempts_safe:
  assumes "fine w" and "\<forall>t \<in> set ts. kid attempt_kinds w t"
  shows "ok (terminate_attempts ts w) (goes w)"
  using assms
proof (induction ts arbitrary: w)
  case (Cons t ts)
  show ?case
  proof (cases "w_states w t")
    case (Some s)
    with Cons.prems have "kind_of s \<in> attempt_kinds" by (simp add: kid_def)
    from terminate_attempt_safe [OF Cons.prems(1) Some this] obtain w1
      where w1: "terminate_attempt s w = Some w1" "goes w w1" by (auto simp: ok_def)
    have "ok (terminate_attempts ts w1) (goes w1)"
      using Cons.IH [OF goesD(2) [OF w1(2)]] Cons.prems(2) goes_kid [OF w1(2)] by simp
    with w1 Some show ?thesis by (auto simp: get_state_def ok_def intro: goes_trans)
  qed (use Cons in \<open>simp add: get_state_def\<close>)
qed simp

lemma sound_connect:
  "sound StConnect w0 (self, w) \<Longrightarrow> set ts \<subseteq> set (cn_children self) \<Longrightarrow>
     sound StConnect w0 (self\<lparr>cn_children := ts\<rparr>, w)"
  "sound StConnect w0 (self, w) \<Longrightarrow> tl_ok l \<Longrightarrow> sound StConnect w0 (self\<lparr>cn_listener := Some l\<rparr>, w)"
  by (auto simp: sound_pair)

lemma sound_connect_child:
  assumes "sound StConnect w0 (self, w)" and "goes w w'" and "kid attempt_kinds w' t"
  shows "sound StConnect w0 (self\<lparr>cn_children := hs_insert t (cn_children self)\<rparr>, w')"
  using assms(1,3) goes_trans [OF _ assms(2)] goes_given [OF assms(2)] goes_kid [OF assms(2), of attempt_kinds]
  by (auto simp: sound_pair)

lemma connect_terminate_sound:
  assumes "sound StConnect w0 (self, w)"
  shows "ok (connect_terminate self w) (\<lambda>r. sound StConnect w0 r \<and> cn_token (fst r) = cn_token self)"
proof -
  have s: "goes w0 w" "fine w" "\<forall>t \<in> set (cn_children self). kid attempt_kinds w t" "given w (cn_token self)"
    using assms by (auto simp: sound_pair dest: goesD(2))
  from terminate_attempts_safe [OF s(2,3)] obtain w1
    where w1: "terminate_attempts (cn_children self) w = Some w1" "goes w w1" by (auto simp: ok_def)
  have "goes w0 w1" "given w1 (cn_token self)"
    using goes_trans [OF s(1) w1(2)] goes_given [OF w1(2) s(4)] by simp_all
  with w1 show ?thesis
    by (simp add: connect_terminate_def Let_def sound_pair goes_remove)
qed

lemma connect_maybe_terminate_sound:
  "sound StConnect w0 (self, w) \<Longrightarrow> ok (connect_maybe_terminate self w) (sound StConnect w0)"
  unfolding connect_maybe_terminate_def by (intro ok_opt ok_mono [OF connect_terminate_sound]) auto

text \<open>An attempt on a socket that the kernel grants is started and the connect stays.\<close>

lemma connect_exchange_msg_safe:
  assumes "sound StConnect w0 (self, w)" and "sock_ok so" and "so \<noteq> None"
  shows "\<exists>t w'. connect_exchange_msg so self w = Some (self\<lparr>cn_children := hs_insert t (cn_children self)\<rparr>, w') \<and>
    starts attempt_kinds w t w' \<and> sound StConnect w0 (self\<lparr>cn_children := hs_insert t (cn_children self)\<rparr>, w')"
proof -
  have "fine w" using assms(1) by (auto simp: sound_pair dest: goesD(2))
  from cex_start_ok [OF this assms(2,3)] obtain t w'
    where t: "cex_start so (cn_our_id self) (cn_their_id self) (cn_our_nh self) (cn_token self) w = (Inr t, w')"
      "starts attempt_kinds w t w'" by blast
  with sound_connect_child [OF assms(1)] show ?thesis
    by (auto simp: connect_exchange_msg_def connect_maybe_terminate_def starts_def)
qed

lemma connect_handle_exchange_msg_sound:
  assumes "sound StConnect w0 (self, w)" and "given w child" and "\<And>so. res = Some so \<Longrightarrow> sock_ok so \<and> so \<noteq> None"
  shows "ok (connect_handle_exchange_msg child res self w) (sound StConnect w0)"
proof -
  let ?self = "self\<lparr>cn_children := hs_remove child (cn_children self)\<rparr>"
  have s: "sound StConnect w0 (?self, w)" by (rule sound_connect(1) [OF assms(1)]) auto
  have f: "fine w" using assms(1) by (auto simp: sound_pair dest: goesD(2))
  show ?thesis
  proof (cases res)
    case None
    with connect_maybe_terminate_sound [OF s] show ?thesis by (simp add: connect_handle_exchange_msg_def)
  next
    case (Some so)
    from cand_start_ok [of w w so child "cn_our_id self" "cn_their_id self" "FinConnect (cn_token self)"]
      f assms(2) assms(3) [OF Some] obtain w'
      where w': "cand_start child so (cn_our_id self) (cn_their_id self) (FinConnect (cn_token self)) w = Some w'"
        "goes w w'" "kid attempt_kinds w' child" unfolding ok_def by auto
    from connect_maybe_terminate_sound [OF sound_connect_child [OF s w'(2,3)]] w'(1) Some show ?thesis
      by (simp add: connect_handle_exchange_msg_def)
  qed
qed

lemma connect_handle_candidate_sound:
  assumes "sound StConnect w0 (self, w)" and "given w child" and "\<And>so. res = Some so \<Longrightarrow> sock_ok so"
  shows "ok (connect_handle_candidate E child res self w) (sound StConnect w0)"
proof -
  let ?self = "self\<lparr>cn_children := hs_remove child (cn_children self)\<rparr>"
  have s: "sound StConnect w0 (?self, w)" by (rule sound_connect(1) [OF assms(1)]) auto
  then have s': "sound StConnect w (?self, w)" by (auto simp: sound_pair dest: goesD(2))
  show ?thesis
  proof (cases res)
    case None
    with connect_maybe_terminate_sound [OF s] show ?thesis by (simp add: connect_handle_candidate_def)
  next
    case (Some so)
    from connect_terminate_sound [OF s'] obtain self1 w1
      where w1: "connect_terminate ?self w = Some (self1, w1)" "goes w w1" "well w1 (StConnect self1)"
      by (auto simp: ok_def sound_pair)
    have "goes w1 (ac_start E child so our their Node ev w1)" for our their ev
      by (rule ac_start_goes) (use w1(2) goesD(2) goes_given [OF w1(2) assms(2)] assms(3) Some in auto)
    then have "sound StConnect w0 (self1, ac_start E child so our their Node ev w1)" for our their ev
      using w1(2,3) s goes_trans goes_well unfolding sound_pair by blast
    with w1(1) Some show ?thesis by (simp add: connect_handle_candidate_def)
  qed
qed

text \<open>What a connect does for a child that calls it back.\<close>

lemma ok_parent:
  assumes "ok r (sound C w)" and "\<And>self. kind_of (C self) \<noteq> KBootstrap"
  shows "ok (Option.bind r (\<lambda>(self, w). Some (put_state (C self) w))) (goes w)"
  using ok_run_state [OF assms] by (simp add: run_state_def)

lemma sound_self: "fine w \<Longrightarrow> w_states w t = Some (C self) \<Longrightarrow> sound C w (self, w)"
  using fine_well by (fastforce simp: sound_pair)

interpretation attempt_safe: safe_cex_finish connect_ex_fin
proof
  fix w :: "'a world" and self :: "'a connect_ex" and r
  assume a: "fine w" "well w (StConnectEx self)" "\<And>so. r = Some so \<Longrightarrow> sock_ok so \<and> so \<noteq> None"
  have "ok (Option.bind (connect_handle_exchange_msg (ce_token self) r p w)
      (\<lambda>(p, w). Some (put_state (StConnect p) w))) (goes w)"
    if "w_states w (ce_parent self) = Some (StConnect p)" for p
    by (rule ok_parent [OF connect_handle_exchange_msg_sound [OF sound_self [where C = StConnect, OF a(1) that]]])
      (use a in auto)
  then show "ok (connect_ex_fin self r w) (goes w)"
    using a(1) by (simp add: connect_ex_fin_def get_state_def del: ok_simps(3) split: option.split state.split)
qed

interpretation candidate_safe: safe_cand_finish "cand_fin E"
proof
  fix w :: "'a world" and self :: "'a candidate" and r
  assume a: "fine w" "well w (StCandidate self)" "\<And>so. r = Some so \<Longrightarrow> sock_ok so"
  have "ok (Option.bind (connect_handle_candidate E (cc_token self) r p w)
      (\<lambda>(p, w). Some (put_state (StConnect p) w))) (goes w)"
    if "w_states w t = Some (StConnect p)" for p t
    by (rule ok_parent [OF connect_handle_candidate_sound [OF sound_self [where C = StConnect, OF a(1) that]]])
      (use a in auto)
  moreover have "ok (listener_cand_fin E self r w) (goes w)"
    using a by (auto simp: listener_cand_fin_def split: option.split intro!: ac_start_goes)
  ultimately show "ok (cand_fin E self r w) (goes w)"
    using a(1)
    by (simp add: cand_fin_def get_state_def del: ok_simps(3) split: cand_finish.split option.split state.split)
qed

lemma tl_ok_accept:
  "tl_accept l = (r, l') \<Longrightarrow> tl_ok l \<Longrightarrow> tl_ok l' \<and> (\<forall>st. r = Inr st \<longrightarrow> granted st)"
  by (cases "tl_accepts l") (auto simp: tl_accept_def tl_ok_def)

lemma connect_accept_sound:
  assumes "sound StConnect w0 (self, w)" and "cn_listener self \<noteq> None"
  shows "ok (connect_accept self w) (sound StConnect w0)"
  using assms
proof (induction self w rule: connect_accept.induct)
  case (1 self w)
  from 1(3) obtain l where l: "cn_listener self = Some l" by blast
  obtain r l' where a: "tl_accept l = (r, l')" by fastforce
  have t: "tl_ok l'" "\<And>st. r = Inr st \<Longrightarrow> granted st"
    using tl_ok_accept [OF a] 1(2) l by (auto simp: sound_pair)
  have s: "sound StConnect w0 (self\<lparr>cn_listener := Some l'\<rparr>, w)" using sound_connect(2) [OF 1(2) t(1)] .
  show ?case
  proof (cases r)
    case (Inl e)
    with l a s show ?thesis by (subst connect_accept.simps) simp
  next
    case (Inr st)
    have "sock_ok (socket_wrap st)" using t(2) [OF Inr] by simp
    from connect_exchange_msg_safe [OF s this] obtain self1 w1
      where e: "connect_exchange_msg (socket_wrap st) (self\<lparr>cn_listener := Some l'\<rparr>) w = Some (self1, w1)"
        "sound StConnect w0 (self1, w1)" "cn_listener self1 = Some l'" by fastforce
    from 1(1) [OF l a [symmetric] Inr _ refl e(2)] e l a Inr show ?thesis
      by (subst connect_accept.simps) simp
  qed
qed

subsection \<open>Starting a connect\<close>

lemma new_reusably_bound_goes:
  assumes "goes w0 w" and "new_reusably_bound_tcp_socket a w = (r, w')"
  shows "goes w0 w' \<and> (\<forall>b. r = Inr b \<longrightarrow> tb_ok b)"
proof -
  have call: "tb_ok b'" if "tb_call b = Inr b'" "tb_ok b" for b b'
    using that by (auto simp: tb_call_def tb_ok_def split: prod.splits option.splits)
  show ?thesis
    using assms goes_calls(6) [OF assms(1)]
    by (fastforce simp: new_reusably_bound_tcp_socket_def split: ip_addr.splits prod.splits sum.splits intro: call)
qed

lemma unconnected_sockets_goes:
  "goes w0 w \<Longrightarrow> unconnected_sockets a n w = (r, w') \<Longrightarrow> goes w0 w'"
proof (induction n arbitrary: w r w')
  case (Suc n)
  then show ?case
    by (auto split: prod.splits sum.splits option.splits dest: new_reusably_bound_goes)
qed simp

lemma get_sockets_goes:
  "goes w0 w \<Longrightarrow> tb_ok b \<Longrightarrow> get_sockets b n w = (r, w') \<Longrightarrow>
     goes w0 w' \<and> (\<forall>l ss. r = Inr (l, ss) \<longrightarrow> tl_ok l)"
  by (auto simp: get_sockets_def tb_ok_def split: sum.splits prod.splits option.splits
      dest: unconnected_sockets_goes)

lemma connect_all_goes:
  "goes w0 w \<Longrightarrow> connect_all as w = (ss, w') \<Longrightarrow> goes w0 w' \<and> (\<forall>so \<in> set ss. sock_ok so \<and> so \<noteq> None)"
proof (induction as arbitrary: w ss w')
  case (Cons a as)
  obtain r w1 where c: "socket_connect w = (r, w1)" by fastforce
  obtain ss1 w2 where r: "connect_all as w1 = (ss1, w2)" by fastforce
  note g = goes_calls(3) [OF Cons.prems(1) c]
  from Cons.IH [OF _ r] g Cons.prems(2) c r show ?case
    by (auto split: sum.splits)
qed simp

lemma connect_hole_punch_goes:
  assumes "goes w0 w" and "\<And>b. hps = Some b \<Longrightarrow> tb_ok b" and "connect_hole_punch hps their tok w = (r, w')"
  shows "goes w0 w' \<and> (\<forall>l ss. r = Inr (l, ss) \<longrightarrow> (\<forall>x. l = Some x \<longrightarrow> tl_ok x) \<and>
    (\<forall>so \<in> set ss. sock_ok so \<and> so \<noteq> None))"
proof (cases hps)
  case (Some b)
  obtain g w1 where g: "get_sockets b (length their) w = (g, w1)" by fastforce
  note g1 = get_sockets_goes [OF assms(1) assms(2) [OF Some] g]
  show ?thesis
  proof (cases g)
    case (Inr p)
    obtain l ns where p: "p = (l, ns)" by fastforce
    obtain e l' where l': "tl_register tok ready_erh l = (e, l')" by fastforce
    then have "tl_accepts l' = tl_accepts l"
      by (auto simp: tl_register_def split: prod.splits option.splits)
    then have "tl_ok l'" using g1 Inr p by (simp add: tl_ok_def)
    moreover obtain ss w2 where c: "connect_all (zip ns their) w1 = (ss, w2)" by fastforce
    ultimately show ?thesis
      using connect_all_goes [OF conjunct1 [OF g1] c] g1 assms(3) Some g Inr p l' c
      by (auto simp: connect_hole_punch_def split: option.splits)
  qed (use g1 assms(3) Some g in \<open>auto simp: connect_hole_punch_def\<close>)
qed (use assms in \<open>auto simp: connect_hole_punch_def\<close>)

lemma connect_exchange_all_safe:
  assumes "sound StConnect w0 (self, w)" and "\<forall>so \<in> set ss. sock_ok so \<and> so \<noteq> None"
    and "cn_token self = tok" and "tok < w_token_counter w" and "tok \<notin> set (cn_children self)" and "unlisted tok w"
  shows "ok (connect_exchange_all ss self w) (\<lambda>(self', w'). sound StConnect w0 (self', w') \<and>
    cn_token self' = tok \<and> tok \<notin> set (cn_children self') \<and> unlisted tok w')"
  using assms
proof (induction ss arbitrary: self w)
  case (Cons so ss)
  from connect_exchange_msg_safe [OF Cons.prems(1), of so] Cons.prems(2) obtain t w'
    where t: "connect_exchange_msg so self w = Some (self\<lparr>cn_children := hs_insert t (cn_children self)\<rparr>, w')"
      "starts attempt_kinds w t w'"
      "sound StConnect w0 (self\<lparr>cn_children := hs_insert t (cn_children self)\<rparr>, w')" by auto
  have "unlisted tok w'" "tok \<noteq> t" "tok < w_token_counter w'"
    using t(2) Cons.prems(4,6) goesD(3) [of w w'] by (auto simp: starts_def kinds_from_def)
  with Cons.IH [OF t(3)] Cons.prems t(1) show ?case by simp
qed simp

lemma connect_start_ok:
  assumes "fine w" and "\<And>b. priv_hole_punch_socket our_ci = Some b \<Longrightarrow> tb_ok b"
  shows "ok (connect_start our_ci their_ci nh w) (\<lambda>r. goes w (snd r))"
proof -
  let ?t = "w_token_counter w"
  have T: "FIRST_TOKEN \<le> ?t" using assms(1) by (simp add: fine_def)
  obtain w1 where w1: "get_new_token w = (?t, w1)" by (simp add: get_new_token_def)
  have g1: "goes w w1" using goes_ops(4) [of w w] assms(1) w1 by simp
  obtain r w2 where w2: "set_timeout (TIMEOUT_SEC * 1000) (CoreTimer ?t 0) w1 = (r, w2)" by fastforce
  have g2: "goes w w2" "w_token_counter w2 = Suc ?t" "w_states w2 = w_states w"
    using set_timeout_goes [OF g1 w2] T get_new_token_eqD [OF w1] by simp_all
  obtain ss w3 where w3: "connect_all (pub_for_direct their_ci) w2 = (ss, w3)" by fastforce
  note g3 = connect_all_goes [OF g2(1) w3]
  obtain h w4 where w4: "connect_hole_punch (priv_hole_punch_socket our_ci) (pub_for_hole_punch their_ci) ?t w3
      = (h, w4)" by fastforce
  note g4 = connect_hole_punch_goes [OF conjunct1 [OF g3] assms(2) w4]
  have q: "w_states w4 = w_states w" "w_token_counter w4 = Suc ?t"
    using connect_all_quiet [OF w3] connect_hole_punch_quiet [OF w4] g2 by (simp_all add: quiet_def)
  show ?thesis
  proof (cases "(\<exists>l ps. h = Inr (l, ps)) \<and> (\<exists>tm. r = Inr tm) \<and>
      \<not> (pub_for_direct their_ci = [] \<and> pub_for_hole_punch their_ci = [])")
    case True
    then obtain l ps tm where h: "h = Inr (l, ps)" "r = Inr tm" by blast
    let ?self = "\<lparr>cn_token = ?t, cn_timeout = tm, cn_our_nh = nh, cn_our_id = priv_id our_ci,
        cn_their_id = pub_id their_ci, cn_listener = l, cn_children = []\<rparr>"
    have "sound StConnect w (?self, w4)" using g4 h q T by (auto simp: sound_pair)
    moreover have "unlisted ?t w4" using fine_unlisted [OF assms(1), of ?t] q by (simp add: unlisted_def)
    ultimately have "ok (connect_exchange_all (ss @ ps) ?self w4) (\<lambda>(self', w'). sound StConnect w (self', w') \<and>
        cn_token self' = ?t \<and> ?t \<notin> set (cn_children self') \<and> unlisted ?t w')"
      using g3 g4 h q by (intro connect_exchange_all_safe) auto
    then obtain self5 w5 where x: "connect_exchange_all (ss @ ps) ?self w4 = Some (self5, w5)"
      "goes w w5" "well w5 (StConnect self5)" "cn_token self5 = ?t" "?t \<notin> set (cn_children self5)" "unlisted ?t w5"
      by (auto simp: ok_def sound_pair)
    have "goes w (insert_state ?t (StConnect self5) w5)"
      by (rule goes_insert_new [OF x(2) order.refl x(6,3)]) (use x assms(1) in simp_all)
    with True w1 w2 w3 w4 h x(1) show ?thesis by (auto simp: connect_start_def Let_def)
  next
    case False
    with w1 w2 w3 w4 g1 g2 g4 assms(1) show ?thesis
      by (auto simp: connect_start_def Let_def split: sum.split)
  qed
qed

section \<open>Children without children\<close>

lemma leaf_terminate_goes:
  assumes "goes w0 w"
  shows "given w (cr_token r) \<Longrightarrow> goes w0 (snd (reach_terminate r w))"
    and "given w (tp_token p) \<Longrightarrow> goes w0 (snd (try_peer_terminate p w))"
    and "given w (ge_token g) \<Longrightarrow> goes w0 (snd (get_ext_terminate g w))"
  using assms by (simp_all add: reach_terminate_def try_peer_terminate_def get_ext_terminate_def Let_def goes_remove)

lemma terminate_kid_safe:
  assumes "fine w" and "w_states w t = Some s" and "kind_of s \<in> leaf_kinds"
  shows "ok (terminate_kid s w) (goes w)"
  using fine_well [OF assms(1,2)] assms(1,3) leaf_terminate_goes [of w w]
    ac_terminate_sound [of w _ w] cand_terminate_sound [of w _ w] cex_terminate_sound [of w _ w]
  by (cases s) (auto simp: sound_def)

lemma terminate_kids_safe:
  assumes "fine w" and "\<forall>t \<in> set ts. kid leaf_kinds w t"
  shows "ok (terminate_kids ts w) (goes w)"
  using assms
proof (induction ts arbitrary: w)
  case (Cons t ts)
  show ?case
  proof (cases "w_states w t")
    case (Some s)
    with Cons.prems have "kind_of s \<in> leaf_kinds" by (simp add: kid_def)
    from terminate_kid_safe [OF Cons.prems(1) Some this] obtain w1
      where w1: "terminate_kid s w = Some w1" "goes w w1" by (auto simp: ok_def)
    have "ok (terminate_kids ts w1) (goes w1)"
      using Cons.IH [OF goesD(2) [OF w1(2)]] Cons.prems(2) goes_kid [OF w1(2)] by simp
    with w1 Some show ?thesis by (auto simp: get_state_def ok_def intro: goes_trans)
  qed (use Cons in \<open>simp add: get_state_def\<close>)
qed simp

lemma reach_start_ok:
  assumes "fine w" and "reach_start a u p w = (r, w')"
  shows "goes w w' \<and> (\<forall>t. r = Inr t \<longrightarrow> starts leaf_kinds w t w')"
proof -
  let ?t = "w_token_counter w"
  have T: "FIRST_TOKEN \<le> ?t" using assms(1) by (simp add: fine_def)
  obtain c w1 where c: "socket_connect w = (c, w1)" by fastforce
  have g1: "goes w w1" "w_states w1 = w_states w" "w_token_counter w1 = ?t"
    using goes_calls(3) [of w w, OF _ c] assms(1) socket_connect_quiet [OF c] by (auto simp: quiet_def)
  obtain w2 where w2: "get_new_token w1 = (?t, w2)" using g1(3) by (simp add: get_new_token_def)
  have g2: "goes w w2" using goes_ops(4) [OF g1(1)] w2 by simp
  obtain x w3 where w3: "set_timeout (CHECK_REACHABILITY_TIMEOUT_SEC * 1000) (CoreTimer ?t 0) w2 = (x, w3)" by fastforce
  have g3: "goes w w3" "w_states w3 = w_states w" "w_token_counter w3 = Suc ?t"
    using set_timeout_goes [OF g2 w3] T get_new_token_eqD [OF w2] g1(2) by simp_all
  have "starts leaf_kinds w ?t (insert_state ?t (StReach y) w3)" if "cr_token y = ?t" for y
    by (rule starts_insert) (use g3 assms(1) that T in simp_all)
  note ins = this
  show ?thesis
  proof (cases "\<exists>so so' tm. c = Inr so \<and> socket_register ?t ready_ehw so = (None, so') \<and> x = Inr tm")
    case True
    then obtain so so' tm where "c = Inr so" "socket_register ?t ready_ehw so = (None, so')" "x = Inr tm" by blast
    with assms(2) c w2 w3 ins show ?thesis
      by (auto simp: reach_start_def Let_def) (simp add: starts_def)
  next
    case False
    with assms(2) c w2 w3 g1(1) g2 g3(1) show ?thesis
      by (auto simp: reach_start_def Let_def split: sum.splits prod.splits option.splits)
  qed
qed

locale safe_reach_finish =
  fixes fin :: "'u reach_fin"
  assumes fin_ok: "\<lbrakk>fine w; well w (StReach self)\<rbrakk> \<Longrightarrow> ok (fin self r w) (goes w)"
begin

lemma terminate_fin_sound:
  assumes "sound StReach w0 (self, w)"
  shows "ok (reach_handle_success fin self w) (sound StReach w0)"
    and "ok (reach_handle_error fin self w) (sound StReach w0)"
proof -
  have g: "goes w0 (snd (reach_terminate self w))"
    using assms leaf_terminate_goes(1) [of w0 w self] by (simp add: sound_pair)
  then have s: "sound StReach w0 (fst (reach_terminate self w), snd (reach_terminate self w))"
    using assms unfolding sound_pair by simp
  have "ok (fin (fst (reach_terminate self w)) r (snd (reach_terminate self w))) (goes (snd (reach_terminate self w)))" for r
    by (rule fin_ok [OF goesD(2) [OF g]]) (use assms in \<open>simp add: sound_pair\<close>)
  from ok_fin [OF s this]
  show "ok (reach_handle_success fin self w) (sound StReach w0)"
    "ok (reach_handle_error fin self w) (sound StReach w0)"
    by (simp_all add: reach_handle_success_def reach_handle_error_def case_prod_beta del: ok_simps(3))
qed

lemma ready_sound:
  "sound StReach w0 (self, w) \<Longrightarrow> ok (reach_ready fin kind self w) (sound StReach w0)"
  by (simp add: reach_ready_def terminate_fin_sound)

lemma timeout_sound:
  "sound StReach w0 (self, w) \<Longrightarrow> ok (reach_timeout fin self w) (sound StReach w0)"
  by (simp add: reach_timeout_def terminate_fin_sound)

end

section \<open>Incoming exchanges\<close>

lemma sound_lex:
  "sound StListenEx w0 (self, w) \<Longrightarrow> sock_ok so \<Longrightarrow> sound StListenEx w0 (self\<lparr>le_socket := so\<rparr>, w)"
  "sound StListenEx w0 (self, w) \<Longrightarrow> sound StListenEx w0 (self\<lparr>le_next_state := n\<rparr>, w)"
  "sound StListenEx w0 (self, w) \<Longrightarrow> sock_ok (le_socket self)"
  "sound StListenEx w0 (self, w) \<Longrightarrow> set ts \<subseteq> set (le_children self) \<Longrightarrow>
     sound StListenEx w0 (self\<lparr>le_children := ts\<rparr>, w)"
  "sound StListenEx w0 (self, w) \<Longrightarrow> sound StListenEx w0 (self, upd_cm f w)"
  by (auto simp: sound_pair)

lemma sound_step: "sound C w0 (self, w) \<Longrightarrow> goes w w' \<Longrightarrow> sound C w0 (self, w')"
  by (auto simp: sound_pair intro: goes_trans goes_well)

lemma sound_fine: "sound C w0 (self, w) \<Longrightarrow> fine w"
  by (auto simp: sound_pair dest: goesD(2))

lemma sound_put: "sound C w0 (self, w) \<Longrightarrow> kind_of (C self) \<noteq> KBootstrap \<Longrightarrow> sound C w0 (self, put_state (C self) w)"
  using goes_put [of w w "C self"] sound_fine [of C w0 self w] by (auto simp: sound_pair intro: goes_trans goes_well)

lemma lex_terminate_childern_sound:
  assumes "sound StListenEx w0 (self, w)"
  shows "ok (lex_terminate_childern self w) (\<lambda>r. sound StListenEx w0 r \<and> le_children (fst r) = [])"
proof -
  have "\<forall>t \<in> set (le_children self). kid leaf_kinds w t" using assms by (simp add: sound_pair)
  from terminate_kids_safe [OF sound_fine [OF assms] this] obtain w1
    where w1: "terminate_kids (le_children self) w = Some w1" "goes w w1" by (auto simp: ok_def)
  from sound_step [OF assms w1(2)] w1(1) show ?thesis
    by (simp add: lex_terminate_childern_def sound_pair)
qed

lemma lex_terminate_sound:
  assumes "sound StListenEx w0 (self, w)"
  shows "ok (lex_terminate self w) (sound StListenEx w0)"
proof -
  from lex_terminate_childern_sound [OF assms] obtain self1 w1
    where k: "lex_terminate_childern self w = Some (self1, w1)" "sound StListenEx w0 (self1, w1)"
      "le_children self1 = []"
    by (auto simp: ok_def)
  then show ?thesis
    by (simp add: lex_terminate_def Let_def sound_pair goes_remove split: next_state.split)
qed

lemma lex_done_sound:
  assumes "sound StListenEx w0 (self, w)" and "le_socket self \<noteq> None"
  shows "ok (lex_done E self w) (sound StListenEx w0)"
proof -
  let ?w = "cancel_timeout (le_timeout self) (remove_state (le_token self) w)"
  have s: "sound StListenEx w0 (self, ?w)" using assms(1) by (simp add: sound_pair goes_remove)
  note d = sound_lex(1) [OF s, of socket_default]
  have g: "goes ?w ?w" "given ?w (le_token self)" "sock_ok (le_socket self)"
    using sound_fine [OF s] s by (simp_all add: sound_pair)
  have "sound StListenEx w0 (self\<lparr>le_socket := socket_default\<rparr>,
      ac_start E (le_token self) (le_socket self) (le_our_uid self) u k ev ?w)" for u k ev
    by (rule sound_step [OF d]) (simp, rule ac_start_goes [OF g])
  moreover have "ok (cand_start (le_token self) (le_socket self) (le_our_uid self) u FinListener ?w)
      (\<lambda>w'. sound StListenEx w0 (self\<lparr>le_socket := socket_default\<rparr>, w'))" for u
    using cand_start_ok [OF g(1,3) assms(2) g(2)] by (rule ok_mono) (use sound_step [OF d] in auto)
  ultimately show ?thesis
    using lex_terminate_sound [OF s] by (simp add: lex_done_def Let_def split: next_state.split)
qed

lemma lex_write_sound:
  assumes "sound StListenEx w0 (self, w)"
  shows "ok (lex_write E msg self w) (sound StListenEx w0)"
proof -
  obtain r so where r: "socket_write (e_ser E) (w_now w) (le_token self) msg (le_socket self) = Some (r, so)"
    "sock_ok so" "\<forall>b. r = Inr b \<longrightarrow> so \<noteq> None"
    using sock_ok_write [OF sound_lex(3) [OF assms], of "e_ser E" "w_now w" "le_token self" msg]
    unfolding ok_def by (metis (mono_tags, lifting) case_prodE)
  have s: "sound StListenEx w0 (self\<lparr>le_socket := so\<rparr>, w)" using sound_lex(1) [OF assms r(2)] .
  then have "ok (lex_done E (self\<lparr>le_socket := so\<rparr>) w) (sound StListenEx w0)" if "r = Inr True"
    by (rule lex_done_sound) (use r(3) that in auto)
  with r(1) s lex_terminate_sound [OF s] lex_terminate_sound [OF assms] show ?thesis
    by (simp add: lex_write_def Let_def split: sum.split bool.split)
qed

lemma lex_check_all_sound:
  "sound StListenEx w0 (self, w) \<Longrightarrow> sound StListenEx w0 (lex_check_all as u self w)"
proof (induction as u self w rule: lex_check_all.induct)
  case (2 a as u self w)
  obtain r w1 where r: "reach_start a u (le_token self) w = (r, w1)" by fastforce
  note k = reach_start_ok [OF sound_fine [OF 2(3)] r]
  have s: "sound StListenEx w0 (self, w1)" using sound_step [OF 2(3)] k by blast
  show ?case
  proof (cases r)
    case (Inr t)
    then have "sound StListenEx w0 (self\<lparr>le_children := hs_insert t (le_children self)\<rparr>, w1)"
      using s k by (auto simp: sound_pair starts_def)
    with 2(2) [OF r [symmetric] Inr] r Inr show ?thesis by simp
  qed (use 2(1) [OF r [symmetric]] r s in simp)
qed simp

lemma lex_send_bootstrap_grant_sound:
  assumes "sound StListenEx w0 (self, w)"
  shows "ok (lex_send_bootstrap_grant E u k self w) (sound StListenEx w0)"
  unfolding lex_send_bootstrap_grant_def lex_enter_handshaking_mode_def Let_def
  by (rule lex_write_sound, rule sound_put, rule sound_lex(2), rule sound_lex(5), rule assms) simp

lemma lex_handle_check_reachability_sound:
  assumes "sound StListenEx w0 (self, w)"
  shows "ok (lex_handle_check_reachability E child res self w) (sound StListenEx w0)"
proof -
  define self1 where "self1 = self\<lparr>le_children := hs_remove child (le_children self)\<rparr>"
  have s: "sound StListenEx w0 (self1, w)" unfolding self1_def by (rule sound_lex(4) [OF assms]) auto
  have "ok (Option.bind (lex_terminate_childern self1 w) (\<lambda>(self, w). lex_send_bootstrap_grant E u Node self w))
      (sound StListenEx w0)" for u
    by (rule ok_then [OF lex_terminate_childern_sound [OF s]]) (simp add: lex_send_bootstrap_grant_sound)
  with s lex_write_sound [OF s] show ?thesis
    unfolding lex_handle_check_reachability_def lex_deny_def self1_def [symmetric] Let_def
    by (simp del: ok_simps(3) split: sum.split)
qed

interpretation reach_safe: safe_reach_finish "lex_reach_fin E"
proof
  fix w :: "'a world" and self :: "'a reach_check" and r
  assume a: "fine w" "well w (StReach self)"
  have "ok (Option.bind (lex_handle_check_reachability E (cr_token self) r p w)
      (\<lambda>(p, w). Some (put_state (StListenEx p) w))) (goes w)"
    if "w_states w (cr_parent self) = Some (StListenEx p)" for p
    by (rule ok_parent [OF lex_handle_check_reachability_sound [OF sound_self [where C = StListenEx, OF a(1) that]]])
      simp
  then show "ok (lex_reach_fin E self r w) (goes w)"
    using a(1) by (simp add: lex_reach_fin_def get_state_def del: ok_simps(3) split: option.split state.split)
qed

lemma lex_try_update_goes: "goes w0 w \<Longrightarrow> goes w0 (lex_try_update_crust_config w)"
  by (auto simp: lex_try_update_crust_config_def split: prod.split sum.split dest: goes_calls(4))

lemma sound_lex_update:
  "sound StListenEx w0 (self, w) \<Longrightarrow> sound StListenEx w0 (self, lex_try_update_crust_config w)"
  using lex_try_update_goes [of w w] sound_step sound_fine by (metis goes_refl)

lemma lex_handle_bootstrap_req_sound:
  assumes "sound StListenEx w0 (self, w)"
  shows "ok (lex_handle_bootstrap_req E u nh ext self w) (sound StListenEx w0)"
proof -
  define w1 where "w1 = lex_try_update_crust_config w"
  have s: "sound StListenEx w0 (self, w1)" unfolding w1_def by (rule sound_lex_update [OF assms])
  have "ok (case lex_check_all as u self w1 of (self, w) \<Rightarrow>
      if le_children self = [] then lex_write E msg self w else Some (self, w)) (sound StListenEx w0)" for as msg
    using lex_check_all_sound [OF s, of as u] by (cases "lex_check_all as u self w1") (simp add: lex_write_sound)
  with lex_write_sound [OF assms] lex_write_sound [OF s] lex_send_bootstrap_grant_sound [OF s] show ?thesis
    unfolding lex_handle_bootstrap_req_def lex_deny_def w1_def [symmetric] Let_def
    by (simp split: external_reachability.split)
qed

lemma lex_handle_connect_sound:
  assumes "sound StListenEx w0 (self, w)"
  shows "ok (lex_handle_connect E u nh self w) (sound StListenEx w0)"
proof -
  note s = sound_lex_update [OF assms]
  have "sound StListenEx w0 (self\<lparr>le_next_state := n\<rparr>, put_state (StListenEx (self\<lparr>le_next_state := n\<rparr>))
      (upd_cm f (lex_try_update_crust_config w)))" for n f
    by (rule sound_put, rule sound_lex(2), rule sound_lex(5), rule s) simp
  from lex_write_sound [OF this] lex_terminate_sound [OF assms] lex_terminate_sound [OF s] show ?thesis
    unfolding lex_handle_connect_def lex_enter_handshaking_mode_def Let_def by (intro ok_if) simp_all
qed

lemma lex_handle_echo_addr_req_sound:
  assumes "sound StListenEx w0 (self, w)"
  shows "ok (lex_handle_echo_addr_req E self w) (sound StListenEx w0)"
proof -
  have "sound StListenEx w0 (self\<lparr>le_next_state := n\<rparr>, put_state (StListenEx (self\<lparr>le_next_state := n\<rparr>)) w)" for n
    by (rule sound_put, rule sound_lex(2), rule assms) simp
  from lex_write_sound [OF this] lex_terminate_sound [OF this] show ?thesis
    by (simp add: lex_handle_echo_addr_req_def Let_def split: sum.split)
qed

lemma lex_read_sound:
  assumes "sound StListenEx w0 (self, w)"
  shows "ok (lex_read E self w) (sound StListenEx w0)"
proof -
  obtain r so where r: "socket_read (e_des E) (le_socket self) = (r, so)" by fastforce
  define self1 where "self1 = self\<lparr>le_socket := so\<rparr>"
  have s: "sound StListenEx w0 (self1, w)"
    unfolding self1_def by (rule sound_lex(1) [OF assms sock_ok_read [OF r sound_lex(3) [OF assms]]])
  show ?thesis
    unfolding lex_read_def r prod.case self1_def [symmetric] Let_def
    by (simp add: s lex_terminate_sound lex_handle_bootstrap_req_sound lex_handle_connect_sound
        lex_handle_echo_addr_req_sound split: sum.split option.split message.split)
qed

lemma lex_handlers_sound:
  assumes "sound StListenEx w0 (self, w)"
  shows "ok (lex_ready E kind self w) (sound StListenEx w0)" and "ok (lex_timeout self w) (sound StListenEx w0)"
proof -
  show "ok (lex_ready E kind self w) (sound StListenEx w0)"
    unfolding lex_ready_def
    by (intro ok_if ok_then [OF ok_opt [OF lex_read_sound [OF assms] assms]] ok_opt)
      (simp_all add: assms lex_terminate_sound lex_write_sound)
  show "ok (lex_timeout self w) (sound StListenEx w0)"
    by (simp add: lex_timeout_def lex_terminate_sound assms)
qed

lemma lex_start_goes:
  assumes "fine w" and "sock_ok so" and "lex_start tsec so ab our nh w = (r, w')"
  shows "goes w w'"
proof -
  let ?t = "w_token_counter w"
  have T: "FIRST_TOKEN \<le> ?t" using assms(1) by (simp add: fine_def)
  obtain w1 where w1: "get_new_token w = (?t, w1)" by (simp add: get_new_token_def)
  have g1: "goes w w1" using goes_ops(4) [of w w] assms(1) w1 by simp
  obtain q so' where q: "socket_register ?t ready_erh so = (q, so')" by fastforce
  obtain x w2 where w2: "set_timeout (case_option EXCHANGE_MSG_TIMEOUT_SEC id tsec * 1000) (CoreTimer ?t 0) w1 = (x, w2)"
    by fastforce
  have g2: "goes w w2" "w_states w2 = w_states w" "w_token_counter w2 = Suc ?t"
    using set_timeout_goes [OF g1 w2] T get_new_token_eqD [OF w1] by simp_all
  have "goes w (insert_state ?t (StListenEx y) w2)" if "le_token y = ?t" "le_socket y = so'" "le_children y = []" for y
    by (rule goes_insert_new [OF g2(1) order.refl])
      (use g2 T that assms(1) fine_unlisted [OF assms(1), of ?t] sock_ok_register(1) [OF assms(2) q] in
        \<open>simp_all add: unlisted_def\<close>)
  with assms(3) w1 q w2 g1 g2(1) show ?thesis
    by (auto simp: lex_start_def Let_def split: sum.splits option.splits)
qed

end
