(* ===== verification/Safe_Services.thy ===== *)
theory Safe_Services
  imports Safe_Parents
begin

text \<open>
  Progress and preservation for the mapped socket and its queries, the listener, service discovery,
  the configuration refresher, and the bootstrap with its requests.
\<close>

section \<open>Queries for the external address\<close>

lemma get_ext_start_ok:
  assumes "fine w" and "get_ext_start a s p w = (r, w')"
  shows "goes w w' \<and> (\<forall>t. r = Inr t \<longrightarrow> starts leaf_kinds w t w')"
proof -
  let ?t = "w_token_counter w"
  have T: "FIRST_TOKEN \<le> ?t" using assms(1) by (simp add: fine_def)
  obtain b w1 where b: "new_reusably_bound_tcp_socket a w = (b, w1)" by fastforce
  have g1: "goes w w1" using new_reusably_bound_goes [of w w, OF _ b] assms(1) by simp
  obtain c w2 where c: "tcp_connect w1 = (c, w2)" by fastforce
  note g2 = goes_calls(2) [OF g1 c]
  have q: "w_states w2 = w_states w" "w_token_counter w2 = ?t"
    using new_reusably_bound_quiet [OF b] tcp_connect_quiet [OF c] by (simp_all add: quiet_def)
  let ?w = "snd (get_new_token w2)"
  have g3: "goes w ?w" using goes_ops(4) g2 by blast
  have ins: "starts leaf_kinds w ?t (insert_state ?t (StGetExtAddr y) ?w)"
    if "ge_token y = ?t" "sock_ok (ge_socket y)" for y
    by (rule starts_insert) (use g3 q assms(1) that T in simp_all)
  have reg: "sock_ok (snd (socket_register ?t ready_ehw (socket_wrap st)))" if "c = Inr st" for st
    by (rule sock_ok_register(1)) (use g2 that in \<open>simp_all add: prod_eq_iff\<close>)
  show ?thesis
    using assms(2) b c g1 g2 g3 q ins startsD(1) [OF ins] reg
    by (auto simp: get_ext_start_def Let_def case_prod_beta split: sum.splits option.splits if_splits)
qed

lemma get_ext_start_unlisted:
  assumes "get_ext_start a s p w = (r, w')" and "unlisted tok w"
  shows "unlisted tok w'"
  unfolding unlisted_def
proof (intro allI impI)
  fix t x assume "w_states w' t = Some x"
  with get_ext_start_states [OF assms(1), of t] assms(2) show "tok \<notin> set (children_of x)"
    by (auto simp: unlisted_def)
qed

locale safe_get_ext_finish =
  fixes fin :: "'u get_ext_fin"
  assumes fin_ok: "\<lbrakk>fine w; well w (StGetExtAddr self)\<rbrakk> \<Longrightarrow> ok (fin self r w) (goes w)"
begin

lemma terminate_fin_sound:
  assumes "sound StGetExtAddr w0 (self, w)"
  shows "ok (Option.bind (fin (fst (get_ext_terminate self w)) r (snd (get_ext_terminate self w)))
    (\<lambda>w'. Some (fst (get_ext_terminate self w), w'))) (sound StGetExtAddr w0)"
proof -
  have s: "sound StGetExtAddr w0 (fst (get_ext_terminate self w), snd (get_ext_terminate self w))"
    using assms by (simp add: sound_pair get_ext_terminate_def Let_def goes_remove)
  then show ?thesis
    by (intro ok_fin [OF s] fin_ok) (auto simp only: sound_pair dest: goesD(2))
qed

lemma handle_error_sound:
  "sound StGetExtAddr w0 (self, w) \<Longrightarrow> ok (get_ext_handle_error fin self w) (sound StGetExtAddr w0)"
  unfolding get_ext_handle_error_def case_prod_beta Let_def by (rule terminate_fin_sound)

lemma write_sound:
  assumes "sound StGetExtAddr w0 (self, w)"
  shows "ok (get_ext_write E fin msg self w) (sound StGetExtAddr w0)"
proof -
  have "sock_ok (ge_socket self)" using assms by (simp add: sound_pair)
  then obtain r so where r: "socket_write (e_ser E) (w_now w) (ge_token self) msg (ge_socket self) = Some (r, so)"
    "sock_ok so"
    using sock_ok_write by (fastforce simp: ok_def)
  have "sound StGetExtAddr w0 (self\<lparr>ge_socket := so\<rparr>, w)" using assms r by (simp add: sound_pair)
  with r show ?thesis
    by (simp add: get_ext_write_def Let_def handle_error_sound split: sum.split)
qed

lemma receive_response_sound:
  assumes "sound StGetExtAddr w0 (self, w)"
  shows "ok (get_ext_receive_response E fin self w) (sound StGetExtAddr w0)"
proof -
  have so: "sock_ok (ge_socket self)" using assms by (simp add: sound_pair)
  obtain r so where r: "socket_read (e_des E) (ge_socket self) = (r, so)" by fastforce
  define self1 where "self1 = self\<lparr>ge_socket := so\<rparr>"
  have s: "sound StGetExtAddr w0 (self1, w)"
    using assms sock_ok_read [OF r so] by (simp add: sound_pair self1_def)
  show ?thesis
    unfolding get_ext_receive_response_def r prod.case self1_def [symmetric] Let_def
    by (simp add: s handle_error_sound terminate_fin_sound [OF s] case_prod_beta del: ok_simps(3)
        split: sum.split option.split message.split)
qed

lemma ready_sound:
  assumes "sound StGetExtAddr w0 (self, w)"
  shows "ok (get_ext_ready E fin kind self w) (sound StGetExtAddr w0)"
proof -
  have "sound StGetExtAddr w0 (self\<lparr>ge_request := None\<rparr>, w)" using assms by (simp add: sound_pair)
  from write_sound [OF this] show ?thesis
    unfolding get_ext_ready_def
    by (intro ok_if ok_then [OF ok_opt [where P = "sound StGetExtAddr w0"]] ok_opt)
      (simp_all add: assms handle_error_sound receive_response_sound)
qed

end

section \<open>Mapped sockets\<close>

text \<open>A mapped socket that has finished has left the loop and holds nothing any more.\<close>

definition leaves :: "('s \<Rightarrow> 'u state) \<Rightarrow> 'u world \<Rightarrow> 's \<times> 'u world \<Rightarrow> bool" where
  "leaves C w0 r \<longleftrightarrow> sound C w0 r \<or>
     goes w0 (snd r) \<and> w_states (snd r) (state_token (C (fst r))) = None"

lemma ok_run_leaves:
  assumes "ok r (leaves C w0)" and "\<And>self. kind_of (C self) \<noteq> KBootstrap"
  shows "ok (run_state C r) (goes w0)"
proof -
  from assms(1) obtain self w where r: "r = Some (self, w)" "leaves C w0 (self, w)" by (auto simp: ok_def)
  have "goes w0 (put_state (C self) w)"
    using r(2) goes_put [OF _ _ assms(2), of w0 w self]
    by (auto simp: leaves_def sound_def put_state_def get_state_def)
  with r(1) show ?thesis by (simp add: run_state_def)
qed

locale safe_mapped_finish = mapped_finish_law fin
  for fin :: "'u mapped_fin" +
  assumes fin_ok: "\<lbrakk>fine w; tb_ok so\<rbrakk> \<Longrightarrow> goes w (fin finish so addrs w)"
begin

lemma mapped_terminate_ok:
  assumes "sound StMapped w0 (self, w)"
  shows "ok (mapped_terminate fin self w) (\<lambda>r. goes w0 (snd r) \<and> leaves StMapped w0 r)"
proof -
  have s: "given w (mp_token self)" "\<forall>t \<in> set (mp_stun_children self). kid leaf_kinds w t"
    using assms by (auto simp: sound_pair)
  from assms obtain so f where f: "mp_socket self = Some so" "mp_finish self = Some f" "tb_ok so"
    by (auto simp: sound_pair)
  from terminate_kids_safe [OF sound_fine [OF assms] s(2)] obtain w1
    where w1: "terminate_kids (mp_stun_children self) w = Some w1" "goes w w1" by (auto simp: ok_def)
  let ?w = "cancel_timeout (mp_timeout self) (remove_state (mp_token self) w1)"
  have g: "given ?w (mp_token self)" using goes_given [OF w1(2) s(1)] by simp
  have w: "goes w0 ?w"
    using goes_trans [OF _ w1(2), of w0] assms s(1) by (simp add: sound_pair goes_remove)
  have "goes w0 (fin f so a ?w)" for a
    by (rule goes_trans [OF w fin_ok [OF goesD(2) [OF w] f(3)]])
  with f w1(1) fin_given [OF g] show ?thesis
    by (simp add: mapped_terminate_def Let_def leaves_def)
qed

lemma mapped_maybe_terminate_ok:
  "sound StMapped w0 (self, w) \<Longrightarrow> ok (mapped_maybe_terminate fin self w) (leaves StMapped w0)"
  unfolding mapped_maybe_terminate_def
  by (intro ok_opt ok_mono [OF mapped_terminate_ok]) (auto simp: leaves_def)

lemma mapped_handlers_ok:
  assumes "sound StMapped w0 (self, w)"
  shows "ok (mapped_handle_stun_resp fin child res self w) (leaves StMapped w0)"
    and "ok (mapped_handle_igd_resp fin a self w) (leaves StMapped w0)"
    and "ok (mapped_timeout fin self w) (leaves StMapped w0)"
proof -
  show "ok (mapped_handle_stun_resp fin child res self w) (leaves StMapped w0)"
    unfolding mapped_handle_stun_resp_def Let_def
    by (rule mapped_maybe_terminate_ok) (use assms in \<open>auto simp: sound_pair split: sum.split\<close>)
  show "ok (mapped_handle_igd_resp fin a self w) (leaves StMapped w0)"
    unfolding mapped_handle_igd_resp_def Let_def
    by (rule mapped_maybe_terminate_ok) (use assms in \<open>auto simp: sound_pair\<close>)
  show "ok (mapped_timeout fin self w) (leaves StMapped w0)"
    unfolding mapped_timeout_def by (rule ok_mono [OF mapped_terminate_ok [OF assms]]) simp
qed

lemma ask_stuns_ok:
  assumes "sound StMapped w0 (self, w)" and "mp_token self = tok" and "tok < w_token_counter w"
    and "tok \<notin> set (mp_stun_children self)" and "unlisted tok w" and "ask_stuns ss a self w = (self', w')"
  shows "sound StMapped w0 (self', w') \<and> mp_token self' = tok \<and> tok \<notin> set (mp_stun_children self') \<and> unlisted tok w'"
  using assms
proof (induction ss a self w rule: ask_stuns.induct)
  case (2 stun stuns addr self w)
  obtain r w1 where g: "get_ext_start addr stun (mp_token self) w = (r, w1)" by fastforce
  note k = get_ext_start_ok [OF sound_fine [OF 2(3)] g]
  have s: "sound StMapped w0 (self, w1)" using sound_step [OF 2(3)] k by blast
  have lt: "tok < w_token_counter w1" using k 2(5) goesD(3) [of w w1] by (auto simp: kinds_from_def)
  have u: "unlisted tok w1" by (rule get_ext_start_unlisted [OF g 2(7)])
  show ?case
  proof (cases r)
    case (Inl e)
    have "ask_stuns stuns addr self w1 = (self', w')" using 2(8) g Inl by simp
    from 2(1) [OF g [symmetric] Inl s 2(4) lt 2(6) u this] show ?thesis .
  next
    case (Inr t)
    then have t: "starts leaf_kinds w t w1" using k by blast
    let ?self = "self\<lparr>mp_stun_children := hs_insert t (mp_stun_children self)\<rparr>"
    have "sound StMapped w0 (?self, w1)" using s startsD(2) [OF t] by (simp add: sound_pair)
    moreover have "tok \<notin> set (mp_stun_children ?self)" using startsD(3) [OF t] 2(5,6) by auto
    moreover have "ask_stuns stuns addr ?self w1 = (self', w')" using 2(8) g Inr by simp
    ultimately show ?thesis using 2(2) [OF g [symmetric] Inr _ _ lt _ u] 2(4) by simp
  qed
qed simp

lemma mapped_start_ok:
  assumes "fine w"
  shows "ok (mapped_start fin port finish w) (\<lambda>r. goes w (snd r))"
proof -
  let ?t = "w_token_counter w" and ?any = "\<lparr>sa_ip = V4 (Ipv4Addr 0 0 0 0), sa_port = port\<rparr>"
  have T: "FIRST_TOKEN \<le> ?t" using assms by (simp add: fine_def)
  obtain w1 where w1: "get_new_token w = (?t, w1)" by (simp add: get_new_token_def)
  have g1: "goes w w1" using goes_ops(4) [of w w] assms w1 by simp
  obtain b w2 where b: "new_reusably_bound_tcp_socket ?any w1 = (b, w2)" by fastforce
  note g2 = new_reusably_bound_goes [OF g1 b]
  have q: "w_states w2 = w_states w" "w_token_counter w2 = Suc ?t"
    using new_reusably_bound_quiet [OF b] get_new_token_eqD [OF w1] by (simp_all add: quiet_def)
  show ?thesis
  proof (cases "\<exists>so addr. b = Inr so \<and> tb_local so = Inr addr")
    case True
    then obtain so addr where so: "b = Inr so" "tb_local so = Inr addr" by blast
    define w3 where "w3 = w2\<lparr>w_igd := w_igd w2 @ igd_requests ?t (sa_port addr) (w_mc w)\<rparr>"
    have g3: "goes w w3" using g2 by (simp add: w3_def)
    obtain x w4 where w4: "set_timeout (MAPPED_TIMEOUT_SEC * 1000) (CoreTimer ?t 0) w3 = (x, w4)" by fastforce
    have g4: "goes w w4" "w_token_counter w4 = Suc ?t" "w_states w4 = w_states w"
      using set_timeout_goes [OF g3 w4] T q by (simp_all add: w3_def)
    show ?thesis
    proof (cases x)
      case (Inl e)
      with w1 b so w4 g4(1) show ?thesis by (simp add: mapped_start_def Let_def w3_def)
    next
      case (Inr tm)
      define self where "self = \<lparr>mp_token = ?t, mp_socket = Some so,
        mp_igd_children = of_nat (length (igd_requests ?t (sa_port addr) (w_mc w))), mp_stun_children = [],
        mp_mapped_addrs = map (\<lambda>(ip, _). \<lparr>sa_ip = V4 ip, sa_port = sa_port addr\<rparr>) (our_ifv4s (w_mc w)),
        mp_timeout = tm, mp_finish = Some finish\<rparr>"
      obtain self5 w5 where a: "ask_stuns (peer_stuns (w_mc w)) addr self w4 = (self5, w5)" by fastforce
      have "sound StMapped w (self, w4)" using g4 T g2 so(1) by (simp add: sound_pair self_def)
      moreover have "unlisted ?t w4" using fine_unlisted [OF assms, of ?t] g4(3) by (simp add: unlisted_def)
      ultimately have r: "sound StMapped w (self5, w5)" "mp_token self5 = ?t"
        "?t \<notin> set (mp_stun_children self5)" "unlisted ?t w5"
        using ask_stuns_ok [OF _ _ _ _ _ a, of w ?t] g4(2) by (simp_all add: self_def)
      have "goes w (insert_state ?t (StMapped self5) w5)"
        by (rule goes_insert_new [OF _ order.refl r(4)]) (use r assms in \<open>simp_all add: sound_pair\<close>)
      moreover have "ok (mapped_terminate fin self5 w5) (\<lambda>r. goes w (snd r))"
        by (rule ok_mono [OF mapped_terminate_ok [OF r(1)]]) simp
      ultimately show ?thesis
        using w1 b so w4 Inr a by (simp add: mapped_start_def Let_def w3_def self_def case_prod_beta)
    qed
  qed (use w1 b g2 in \<open>auto simp: mapped_start_def Let_def split: sum.split\<close>)
qed

end

lemma safe_stun_fin:
  assumes "safe_mapped_finish fin"
  shows "safe_get_ext_finish (mapped_stun_fin fin)"
proof
  fix w :: "'a world" and self :: "'a get_ext_addr" and r
  assume a: "fine w" "well w (StGetExtAddr self)"
  have "ok (Option.bind (mapped_handle_stun_resp fin (ge_token self) r p w)
      (\<lambda>(p, w). Some (put_state (StMapped p) w))) (goes w)"
    if "w_states w (ge_parent self) = Some (StMapped p)" for p
    using ok_run_leaves [OF safe_mapped_finish.mapped_handlers_ok(1) [OF assms sound_self [where C = StMapped, OF a(1) that]]]
    by (simp add: run_state_def del: ok_simps(3))
  then show "ok (mapped_stun_fin fin self r w) (goes w)"
    using a(1) by (simp add: mapped_stun_fin_def get_state_def del: ok_simps(3) split: option.split state.split)
qed

section \<open>The listener\<close>

interpretation mapping_safe: safe_mapped_finish mapped_fin
proof
  fix w :: "'a world" and so and finish :: "'a mapped_finish" and addrs
  assume a: "fine w" "tb_ok so"
  have l: "goes w (snd (listener_handle_mapped_socket ts so as our nh w))" for ts as our nh
  proof (cases "tb_listen so")
    case (Inr l)
    obtain e l' where e: "tl_register LISTENER_TOKEN ready_erh l = (e, l')" by fastforce
    have "tl_accepts l' = tl_accepts l" using e by (auto simp: tl_register_def split: prod.splits option.splits)
    then have "tl_ok l'" using a(2) Inr by (simp add: tb_ok_def tl_ok_def)
    then have "goes w (insert_state LISTENER_TOKEN (StListener x) (w\<lparr>w_our_listeners := as\<rparr>))"
      if "cl_listener x = l'" "cl_token x = LISTENER_TOKEN" for x
      by (intro goes_insert) (use a that in simp_all)
    with a(1) Inr e show ?thesis
      by (simp add: listener_handle_mapped_socket_def Let_def split: sum.split option.split)
  qed (use a in \<open>simp add: listener_handle_mapped_socket_def\<close>)
  show "goes w (mapped_fin finish so addrs w)"
    using l a(1)
    by (simp add: mapped_fin_def listener_finish_def conn_info_finish_def case_prod_beta
        split: mapped_finish.split sum.split)
qed

interpretation query_safe: safe_get_ext_finish "mapped_stun_fin mapped_fin"
  by (rule safe_stun_fin) (rule mapping_safe.safe_mapped_finish_axioms)

lemma listener_accept_sound:
  "sound StListener w0 (self, w) \<Longrightarrow> sound StListener w0 (listener_accept self w)"
proof (induction self w rule: listener_accept.induct)
  case (1 self w)
  obtain r l where a: "tl_accept (cl_listener self) = (r, l)" by fastforce
  have t: "tl_ok l \<and> (\<forall>st. r = Inr st \<longrightarrow> granted st)"
    using tl_ok_accept [OF a] 1(2) by (simp add: sound_pair)
  have s: "sound StListener w0 (self\<lparr>cl_listener := l\<rparr>, w)" using 1(2) t by (simp add: sound_pair)
  show ?case
  proof (cases r)
    case (Inr st)
    obtain x w1 where x: "lex_start (cl_timeout_sec self) (socket_wrap st) (cl_accept_bootstrap self) (cl_our_uid self)
        (cl_name_hash self) w = (x, w1)" by fastforce
    have "goes w w1" using lex_start_goes [OF sound_fine [OF 1(2)] _ x] t Inr by simp
    from 1(1) [OF a [symmetric] Inr x [symmetric] sound_step [OF s this]] a Inr x show ?thesis
      by (subst listener_accept.simps) simp
  qed (use a s in \<open>subst listener_accept.simps, simp\<close>)
qed

lemma listener_ready_sound:
  assumes "sound StListener w0 (self, w)"
  shows "sound StListener w0 (listener_ready kind self w)"
proof -
  have "tl_ok (tl_deregister l)" if "tl_ok l" for l
    using that by (auto simp: tl_deregister_def tl_ok_def split: prod.split option.split)
  with assms listener_accept_sound [OF assms] show ?thesis
    by (simp add: listener_ready_def listener_terminate_def sound_pair goes_remove)
qed

lemma listener_start_ok: "fine w \<Longrightarrow> ok (listener_start ts port force our nh w) (goes w)"
  using mapping_safe.mapped_start_ok [of w port "MfListener ts port force our nh"]
  by (auto simp: listener_start_def ok_def split: sum.split)

section \<open>Service discovery\<close>

lemma get_socket_goes: "goes w0 w \<Longrightarrow> get_socket port w = (r, w') \<Longrightarrow> goes w0 w'"
proof (induction port w arbitrary: r w' rule: get_socket.induct)
  case (1 port w)
  obtain x w1 where x: "udp_bind w = (x, w1)" by fastforce
  have g: "goes w0 w1" by (rule goes_calls(8) [OF 1(2) x])
  show ?case
  proof (cases "\<exists>e. x = Inl e \<and> port \<noteq> 65535")
    case True
    then obtain e where e: "x = Inl e" "port \<noteq> 65535" by blast
    with 1(3) x have "get_socket (port + 1) w1 = (r, w')" by (subst (asm) get_socket.simps) simp
    with 1(1) [OF x [symmetric] e(1,2) g] show ?thesis by blast
  next
    case False
    with 1(3) x g show ?thesis by (subst (asm) get_socket.simps) (auto split: sum.splits if_splits)
  qed
qed

lemma sd_start_goes:
  assumes "fine w"
  shows "goes w (snd (sd_start E SERVICE_DISCOVERY_TOKEN port w))"
proof -
  obtain r w1 where g: "get_socket port w = (r, w1)" by fastforce
  have g1: "goes w w1" using get_socket_goes [OF _ g, of w] assms by simp
  have "goes w (insert_state SERVICE_DISCOVERY_TOKEN (StServiceDisc x) (w1\<lparr>w_rand := y\<rparr>))"
    if "sd_token x = SERVICE_DISCOVERY_TOKEN" for x y
    by (rule goes_insert) (use g1 that in simp_all)
  with g1 g show ?thesis
    by (simp add: sd_start_def Let_def case_prod_beta split: sum.split option.split)
qed

lemma notify_observers_goes: "goes w0 w \<Longrightarrow> goes w0 (snd (notify_observers chs msg w))"
proof (induction chs arbitrary: w)
  case (Cons ch chs)
  obtain b w1 where b: "obs_send ch msg w = (b, w1)" by fastforce
  from Cons.IH [OF goes_calls(9) [OF Cons.prems b]] b show ?case by (simp add: case_prod_beta)
qed simp

lemma sd_write_sound:
  assumes "sound StServiceDisc w0 (self, w)"
  shows "sound StServiceDisc w0 (sd_write E self w)"
proof -
  obtain r self1 where r: "sd_write_impl E self w = (r, self1)" by fastforce
  have "sd_token self1 = sd_token self"
    using r by (auto simp: sd_write_impl_def Let_def split: option.splits list.splits prod.splits sum.splits if_splits)
  with assms r show ?thesis
    by (auto simp: sd_write_def sd_terminate_def sound_pair goes_remove split: sum.split)
qed

lemma sd_read_sound:
  assumes "sound StServiceDisc w0 (self, w)"
  shows "sound StServiceDisc w0 (sd_read E self w)"
proof -
  have upd: "sound StServiceDisc w0 (f self, w)" if "sd_token (f self) = sd_token self" for f
    using assms that by (simp add: sound_pair)
  have t: "sound StServiceDisc w0 (sd_terminate (self\<lparr>sd_socket := s\<rparr>) w)" for s
    using assms by (simp add: sd_terminate_def sound_pair goes_remove)
  have n: "sound StServiceDisc w0 (case notify_observers chs msg w of (obs, w') \<Rightarrow> (self\<lparr>sd_socket := s, sd_observers := obs\<rparr>, w'))"
    for chs msg s
    using assms notify_observers_goes [of w0 w chs msg] by (simp add: sound_pair case_prod_beta)
  have wr: "sound StServiceDisc w0 (sd_write E (self\<lparr>sd_socket := s, sd_reply_to := as\<rparr>) w)" for s as
    by (rule sd_write_sound) (use assms in \<open>simp add: sound_pair\<close>)
  have st: "sound StServiceDisc w0 (self\<lparr>sd_socket := s\<rparr>, w)" for s
    using assms by (simp add: sound_pair)
  show ?thesis
    unfolding sd_read_def case_prod_beta [of _ "us_recv_from _"] Let_def
    using n by (simp add: t wr st split: sum.split option.split prod.split discovery_msg.split)
qed

lemma sd_ready_sound:
  assumes "sound StServiceDisc w0 (self, w)"
  shows "sound StServiceDisc w0 (sd_ready E kind self w)"
proof -
  have "sound StServiceDisc w0 (sd_terminate self w)"
    using assms by (simp add: sd_terminate_def sound_pair goes_remove)
  moreover obtain self1 w1 where r: "(if is_readable kind then sd_read E self w else (self, w)) = (self1, w1)" by fastforce
  moreover have "sound StServiceDisc w0 (self1, w1)"
    using r assms sd_read_sound [OF assms, of E] by (auto split: if_splits)
  ultimately show ?thesis by (simp add: sd_ready_def Let_def sd_write_sound)
qed

section \<open>The refresher\<close>

lemma refresher_start_goes: "fine w \<Longrightarrow> goes w (snd (refresher_start CONFIG_REFRESHER_TOKEN w))"
proof -
  assume f: "fine w"
  obtain r w1 where t: "set_timeout (REFRESH_INTERVAL_SEC * 1000) (CoreTimer CONFIG_REFRESHER_TOKEN 0) w = (r, w1)" by fastforce
  have g: "goes w w1" using set_timeout_goes(1) [OF _ t, of w] f by simp
  have "goes w (insert_state CONFIG_REFRESHER_TOKEN (StRefresher x) w1)"
    if "rf_token x = CONFIG_REFRESHER_TOKEN" "ct_ok (rf_timer x)" for x
    by (rule goes_insert [OF g]) (use that in simp_all)
  with g t show ?thesis by (simp add: refresher_start_def Let_def split: sum.split)
qed

lemma terminate_peers_goes:
  "goes w0 w \<Longrightarrow> \<forall>ac \<in> set acs. well w (StActive ac) \<Longrightarrow> goes w0 (terminate_peers acs w)"
proof (induction acs arbitrary: w)
  case (Cons ac acs)
  let ?w = "snd (ac_terminate ac w)"
  have g: "goes w ?w"
    using ac_terminate_sound [of w ac w] goesD(2) [OF Cons.prems(1)] Cons.prems(2) by (simp add: sound_def sound_pair)
  have "goes w0 (terminate_peers acs ?w)"
    by (rule Cons.IH [OF goes_trans [OF Cons.prems(1) g]]) (use goes_well [OF g] Cons.prems(2) in \<open>simp del: well_simps\<close>)
  then show ?case by simp
qed simp

lemma peers_to_terminate_well:
  "fine w \<Longrightarrow> ac \<in> set (peers_to_terminate E ns cs w) \<Longrightarrow> well w (StActive ac)"
proof -
  assume f: "fine w" and "ac \<in> set (peers_to_terminate E ns cs w)"
  then obtain u where "active_state w u = Some ac"
    by (auto simp: peers_to_terminate_def set_map_filter)
  then obtain t where t: "(case w_states w t of Some (StActive ac) \<Rightarrow> Some ac | _ \<Rightarrow> None) = Some ac"
    by (auto simp: active_state_def get_state_def bind_eq_Some_conv)
  then obtain s where s: "w_states w t = Some s" by (cases "w_states w t") simp_all
  with t have "s = StActive ac" by (cases s) simp_all
  with fine_well [OF f s] show "well w (StActive ac)" by blast
qed

lemma refresher_timeout_sound:
  assumes "sound StRefresher w0 (self, w)"
  shows "sound StRefresher w0 (refresher_timeout E self w)"
proof -
  obtain r w1 where t: "set_timeout (REFRESH_INTERVAL_SEC * 1000) (rf_timer self) w = (r, w1)" by fastforce
  have g1: "goes w0 w1" using set_timeout_goes(1) [OF _ t, of w0] assms by (simp add: sound_pair)
  obtain c w2 where c: "read_config_file w1 = (c, w2)" by fastforce
  have g2: "goes w0 w2" by (rule goes_calls(4) [OF g1 c])
  have "goes w0 (terminate_peers (peers_to_terminate E ns cs (w2\<lparr>w_config := x\<rparr>)) (w2\<lparr>w_config := x\<rparr>))" for ns cs x
    by (rule terminate_peers_goes) (use g2 peers_to_terminate_well [OF goesD(2) [OF goes_ops(7) [OF g2]]] in auto)
  with assms t c g1 g2 show ?thesis
    by (auto simp: refresher_timeout_def refresher_terminate_def Let_def sound_pair goes_remove
        split: sum.split prod.split)
qed

end
