(* ===== verification/Safe_Bootstrap.thy ===== *)
theory Safe_Bootstrap
  imports Safe_Services
begin

text \<open>
  Progress and preservation for the bootstrap and its requests. The bootstrap is the one state with two
  timers, of which the second may fire only while its search for peers is on; the invariant ties that
  timer to the field \<open>sd_meta\<close>.
\<close>

section \<open>Moves of the bootstrap\<close>

definition bound :: "'u world \<Rightarrow> 'u bootstrap \<times> 'u world \<Rightarrow> bool" where
  "bound w0 r \<longleftrightarrow> moves w0 (snd r) \<and> well (snd r) (StBootstrap (fst r)) \<and>
     sd_timers (snd r) \<subseteq> meta_timers (bs_sd_meta (fst r))"

lemma bound_pair:
  "bound w0 (self, w) \<longleftrightarrow> moves w0 w \<and> well w (StBootstrap self) \<and> sd_timers w \<subseteq> meta_timers (bs_sd_meta self)"
  by (simp add: bound_def)

lemma bound_fine: "bound w0 (self, w) \<Longrightarrow> fine w"
  using movesD by (auto simp: bound_pair)

lemma bound_step: "bound w0 (self, w) \<Longrightarrow> goes w w' \<Longrightarrow> bound w0 (self, w')"
  unfolding bound_pair using goes_well moves_trans goesD(1) by (metis goes_def order.trans)

lemma bound_self:
  assumes "fine w" and "w_states w t = Some (StBootstrap self)"
  shows "bound w (self, w)"
proof -
  have "well w (StBootstrap self)" by (rule fine_well [OF assms])
  moreover have "t = BOOTSTRAP_TOKEN" using fine_token [OF assms] calculation by simp
  ultimately show ?thesis
    using assms by (simp add: bound_pair fine_def sd_waits_def)
qed

text \<open>Changing the state under the bootstrap's token.\<close>

lemma moves_boot:
  assumes "fine w" and "w_states w' = w_states w" and "w_token_counter w' = w_token_counter w"
    and "w_connects w' = w_connects w" and "w_builders w' = w_builders w" and "w_msgs w' = w_msgs w"
    and "\<And>b. x = Some b \<Longrightarrow> well w (StBootstrap b)"
    and "sd_timers w' \<subseteq> (case x of None \<Rightarrow> {} | Some b \<Rightarrow> meta_timers (bs_sd_meta b))"
  shows "moves w (w'\<lparr>w_states := (w_states w')(BOOTSTRAP_TOKEN := map_option StBootstrap x)\<rparr>)"
proof -
  let ?w = "w'\<lparr>w_states := (w_states w')(BOOTSTRAP_TOKEN := map_option StBootstrap x)\<rparr>"
  have k: "kinds_from w ?w"
    using assms(2,3) reserved_tokens(1) by (auto simp: kinds_from_def not_le [symmetric] simp del: reserved_tokens)
  have "well ?w s \<and> state_token s = t" if "w_states ?w t = Some s" for t s
    using that assms(2,7) well_mono [OF _ k] fine_well [OF assms(1), of t s] fine_token [OF assms(1), of t s]
    by (auto simp: well_def home_def split: if_splits)
  moreover have "sd_timers ?w \<subseteq> sd_waits ?w"
    using assms(8) by (auto simp: sd_timers_def sd_waits_def split: option.splits)
  ultimately have "fine ?w"
    using assms(1,3-6) by (simp add: fine_def outside_def)
  with k show ?thesis by (simp add: moves_def)
qed

lemma moves_put_boot:
  assumes "bound w0 (self, w)"
  shows "moves w0 (put_state (StBootstrap self) w)"
proof -
  have s: "moves w0 w" "well w (StBootstrap self)" "bs_token self = BOOTSTRAP_TOKEN"
    using assms by (simp_all add: bound_pair)
  have "moves w (insert_state BOOTSTRAP_TOKEN (StBootstrap self) w)"
    using moves_boot [OF bound_fine [OF assms], of w "Some self"] s(2) assms
    by (simp add: bound_pair insert_state_def)
  with s(1,3) moves_trans show ?thesis
    by (auto simp: put_state_def split: option.split)
qed

section \<open>Operations\<close>

lemma bs_terminate_safe:
  assumes "bound w0 (self, w)"
  shows "ok (bs_terminate self w) (bound w0)"
proof -
  have s: "moves w0 w" "bs_token self = BOOTSTRAP_TOKEN" "\<forall>t \<in> set (bs_children self). kid leaf_kinds w t"
    "bs_timer self = CoreTimer BOOTSTRAP_TOKEN BOOTSTRAP_TIMER_ID"
    using assms by (simp_all add: bound_pair)
  from terminate_kids_safe [OF bound_fine [OF assms] s(3)] obtain w1
    where w1: "terminate_kids (bs_children self) w = Some w1" "goes w w1" by (auto simp: ok_def)
  define w2 where "w2 = (case bs_sd_meta self of None \<Rightarrow> w1
    | Some m \<Rightarrow> drop_receiver (sm_rx m) (cancel_timeout (sm_timeout m) w1))"
  have w2: "goes w w2" using w1(2) by (simp add: w2_def split: option.split)
  have "sd_timers w1 \<subseteq> meta_timers (bs_sd_meta self)"
    using bound_step [OF assms w1(2)] by (simp add: bound_pair)
  moreover have "sd_timers (drop_receiver ch v) = sd_timers v" for ch and v :: "'a world"
    by (simp add: drop_receiver_def sd_timers_def)
  ultimately have e: "sd_timers w2 = {}"
    by (auto simp: w2_def meta_timers_def sd_timers_cancel split: option.splits)
  have "moves w2 (remove_state BOOTSTRAP_TOKEN w2)"
    using moves_boot [OF goesD(2) [OF w2], of w2 None] e by (simp add: remove_state_def)
  then have m: "moves w0 (remove_state BOOTSTRAP_TOKEN w2)"
    using moves_trans [OF s(1) moves_trans [OF goesD(1) [OF w2]]] by blast
  have f: "goes (remove_state BOOTSTRAP_TOKEN w2) (cancel_timeout (bs_timeout self) (remove_state BOOTSTRAP_TOKEN w2))"
    by (rule goes_ops(3)) (simp add: movesD(1) [OF m])
  have e': "sd_timers (cancel_timeout (bs_timeout self) (remove_state BOOTSTRAP_TOKEN w2)) = {}"
    using e unfolding sd_timers_cancel by (simp add: sd_timers_def remove_state_def)
  have "moves w0 (cancel_timeout (bs_timeout self) (remove_state BOOTSTRAP_TOKEN w2))"
    by (rule moves_trans [OF m goesD(1) [OF f]])
  with w1(1) s(2,4) e' show ?thesis
    by (simp add: bs_terminate_def Let_def bound_pair w2_def)
qed

lemma bound_event: "bound w0 (self, w) \<Longrightarrow> bound w0 (self, send_event ev w)"
  using bound_step [OF _ goes_ops(1)] bound_fine by fastforce

lemma bs_terminate_then:
  assumes "bound w0 (self, w)"
  shows "ok (Option.bind (bs_terminate self w) (\<lambda>(self, w). Some (self, send_event ev w))) (bound w0)"
  by (rule ok_then [OF bs_terminate_safe [OF assms]]) (simp add: bound_event)

lemma bs_maybe_terminate_ok: "bound w0 (self, w) \<Longrightarrow> ok (bs_maybe_terminate self w) (bound w0)"
  unfolding bs_maybe_terminate_def by (intro ok_opt bs_terminate_then)

lemma try_peer_start_ok:
  assumes "fine w" and "try_peer_start peer our nh ext p w = (r, w')"
  shows "goes w w' \<and> (\<forall>t. r = Inr t \<longrightarrow> starts leaf_kinds w t w')"
proof -
  let ?t = "w_token_counter w"
  have T: "FIRST_TOKEN \<le> ?t" using assms(1) by (simp add: fine_def)
  obtain c w1 where c: "socket_connect w = (c, w1)" by fastforce
  note g1 = goes_calls(3) [of w w, OF _ c]
  have q: "w_states w1 = w_states w" "w_token_counter w1 = ?t"
    using socket_connect_quiet [OF c] by (simp_all add: quiet_def)
  let ?w = "snd (get_new_token w1)"
  have g2: "goes w ?w" using goes_ops(4) g1 assms(1) by simp
  have ins: "starts leaf_kinds w ?t (insert_state ?t (StTryPeer y) ?w)"
    if "tp_token y = ?t" "sock_ok (tp_socket y)" for y
    by (rule starts_insert) (use g2 q assms(1) that T in simp_all)
  have reg: "sock_ok (snd (socket_register ?t ready_ehw so))" if "c = Inr so" for so
    by (rule sock_ok_register(1)) (use g1 assms(1) that in \<open>auto simp: prod_eq_iff\<close>)
  show ?thesis
    using assms c g1 g2 q ins startsD(1) [OF ins] reg
    by (auto simp: try_peer_start_def Let_def case_prod_beta split: sum.splits option.splits if_splits)
qed

lemma try_peers_ok: "bound w0 (self, w) \<Longrightarrow> bound w0 (try_peers ps self w)"
proof (induction ps self w rule: try_peers.induct)
  case (2 peer peers self w)
  obtain r w1 where r: "try_peer_start peer (bs_our_uid self) (bs_name_hash self) (bs_ext_reachability self)
      (bs_token self) w = (r, w1)" by fastforce
  note k = try_peer_start_ok [OF bound_fine [OF 2(3)] r]
  have s: "bound w0 (self, w1)" using bound_step [OF 2(3)] k by blast
  show ?case
  proof (cases r)
    case (Inr t)
    then have "bound w0 (self\<lparr>bs_children := hs_insert t (bs_children self)\<rparr>, w1)"
      using s startsD(2) k by (auto simp: bound_pair)
    with 2(2) [OF r [symmetric] Inr] r Inr show ?thesis by simp
  qed (use 2(1) [OF r [symmetric]] r s in simp)
qed simp

lemma bound_fields:
  "bound w0 (self, w) \<Longrightarrow> bound w0 (self\<lparr>bs_peers := ps\<rparr>, w)"
  "bound w0 (self, w) \<Longrightarrow> set ts \<subseteq> set (bs_children self) \<Longrightarrow> bound w0 (self\<lparr>bs_children := ts\<rparr>, w)"
  by (auto simp: bound_pair)

lemma begin_bootstrap_ok:
  assumes "bound w0 (self, w)"
  shows "ok (begin_bootstrap E self w) (bound w0)"
proof -
  have b: "bound w0 (self\<lparr>bs_peers := []\<rparr>, w)" by (rule bound_fields(1) [OF assms])
  have "ok (case try_peers ps (self\<lparr>bs_peers := []\<rparr>) w of (self, w) \<Rightarrow> bs_maybe_terminate self w) (bound w0)" for ps
    using try_peers_ok [OF b, of ps] by (cases "try_peers ps (self\<lparr>bs_peers := []\<rparr>) w") (simp add: bs_maybe_terminate_ok)
  with bs_terminate_safe [OF bound_event [OF b]] show ?thesis
    by (simp add: begin_bootstrap_def Let_def)
qed

lemma bs_handle_result_ok:
  assumes "bound w0 (self, w)" and "given w child" and "\<And>so a u. res = Inr (so, a, u) \<Longrightarrow> sock_ok so"
  shows "ok (bs_handle_result E child res self w) (bound w0)"
proof -
  define self1 where "self1 = self\<lparr>bs_children := hs_remove child (bs_children self)\<rparr>"
  have b: "bound w0 (self1, w)" unfolding self1_def by (rule bound_fields(2) [OF assms(1)]) auto
  show ?thesis
  proof (cases res)
    case (Inl e)
    then show ?thesis
      using bs_terminate_then [OF b] bs_maybe_terminate_ok [OF b]
      unfolding bs_handle_result_def self1_def [symmetric] Let_def cache_remove_peer_acceptor_def
      by (cases e) (simp del: ok_simps(3))
  next
    case (Inr x)
    obtain so a u where x: "x = (so, a, u)" by (cases x)
    have b': "bound w (self1, w)" using b bound_fine [OF b] by (simp add: bound_pair)
    from bs_terminate_safe [OF b'] obtain self2 w2 where t: "bs_terminate self1 w = Some (self2, w2)" "bound w (self2, w2)"
      by (auto simp: ok_def)
    have m: "moves w0 w" "moves w w2" using b t(2) by (simp_all add: bound_pair)
    have "given w2 child" using assms(2) movesD(2) [OF m(2)] by (auto simp: kinds_from_def)
    then have "goes w2 (ac_start E child so our u Node ev w2)" for our ev
      by (intro ac_start_goes) (use bound_fine [OF t(2)] assms(3) Inr x in auto)
    moreover have "bound w0 (self2, w2)" using t(2) moves_trans [OF m] by (simp add: bound_pair)
    ultimately have "bound w0 (self2, ac_start E child so our u Node ev w2)" for our ev
      using bound_step by blast
    with t(1) Inr x show ?thesis
      unfolding bs_handle_result_def self1_def [symmetric] Let_def by simp
  qed
qed

lemma bootstrap_timeout_ok:
  assumes "bound w0 (self, w)"
    and "tid \<noteq> BOOTSTRAP_TIMER_ID \<Longrightarrow> bs_sd_meta self \<noteq> None \<and> sd_timers w = {}"
  shows "ok (bootstrap_timeout E tid self w) (bound w0)"
proof -
  have t: "timer_id (bs_timer self) = BOOTSTRAP_TIMER_ID"
    using assms(1) by (simp add: bound_pair CoreTimer_def)
  show ?thesis
  proof (cases "tid = BOOTSTRAP_TIMER_ID")
    case True
    with t bs_terminate_safe [OF bound_event [OF assms(1)]] show ?thesis by (simp add: bootstrap_timeout_def)
  next
    case False
    with assms(2) obtain m where m: "bs_sd_meta self = Some m" "sd_timers w = {}" by blast
    have "bound w0 (self\<lparr>bs_sd_meta := None, bs_peers := ps\<rparr>, w)" for ps
      using assms(1) m(2) by (simp add: bound_pair)
    from bound_step [OF this goes_ops(5)] bound_fine [OF assms(1)]
    have "bound w0 (self\<lparr>bs_sd_meta := None, bs_peers := ps\<rparr>, drop_receiver ch w)" for ps ch by simp
    from begin_bootstrap_ok [OF this] False t m(1) show ?thesis
      by (simp add: bootstrap_timeout_def Let_def)
  qed
qed

section \<open>Starting\<close>

text \<open>
  The world after the search for peers: as after a move, apart from the timer of the search, which
  is armed before the bootstrap is in the loop.
\<close>

definition seeks :: "'u world \<Rightarrow> (crust_error + sd_meta) \<times> 'u world \<Rightarrow> bool" where
  "seeks w r \<longleftrightarrow> (\<exists>w1. goes w w1 \<and> w_states (snd r) = w_states w1 \<and>
     w_token_counter (snd r) = w_token_counter w1 \<and> w_connects (snd r) = w_connects w1 \<and>
     w_builders (snd r) = w_builders w1 \<and> w_msgs (snd r) = w_msgs w1 \<and>
     sd_timers (snd r) \<subseteq> sd_timers w1 \<union> (case fst r of Inl e \<Rightarrow> {} | Inr m \<Rightarrow> {sm_timeout m}))"

lemma seeks_goes: "seeks w (Inl e, w') \<Longrightarrow> goes w w'"
proof -
  assume "seeks w (Inl e, w')"
  then obtain w1 where w1: "goes w w1" "w_states w' = w_states w1" "w_token_counter w' = w_token_counter w1"
    "w_connects w' = w_connects w1" "w_builders w' = w_builders w1" "w_msgs w' = w_msgs w1"
    "sd_timers w' \<subseteq> sd_timers w1" by (auto simp: seeks_def)
  have "\<forall>m \<in> set (w_msgs w1). msg_ok m" using goesD(2) [OF w1(1)] by (simp add: fine_def outside_def)
  then show "goes w w'"
    by (intro goes_trans [OF w1(1) goes_quiet [OF goesD(2) [OF w1(1)]]]) (use w1 in auto)
qed

lemma bs_seek_peers_ok:
  assumes "fine w"
  shows "ok (bs_seek_peers tok w) (seeks w)"
proof (cases "w_states w SERVICE_DISCOVERY_TOKEN")
  case None
  with assms show ?thesis by (auto simp: bs_seek_peers_def get_state_def seeks_def intro!: exI [of _ w])
next
  case (Some s)
  have "kind_of s = KServiceDisc"
    using home_token(2) [of w s] fine_well [OF assms Some] fine_token [OF assms Some] by (simp add: well_def)
  then obtain sd where sd: "s = StServiceDisc sd" by (cases s) simp_all
  obtain ch w1 where c: "new_channel w = (ch, w1)" by fastforce
  have g1: "goes w w1" using goes_calls(7) [of w w, OF _ c] assms by simp
  obtain r sd1 where r: "sd_seek_peers (sd_register_observer ch sd) = (r, sd1)" by fastforce
  have "sd_token sd1 = SERVICE_DISCOVERY_TOKEN"
    using r fine_well [OF assms Some] sd
    by (auto simp: sd_seek_peers_def sd_register_observer_def split: prod.splits sum.splits)
  then have g2: "goes w (put_state (StServiceDisc sd1) w1)" by (intro goes_put [OF g1]) simp_all
  let ?w = "put_state (StServiceDisc sd1) w1"
  obtain x w3 where x: "set_timeout (SERVICE_DISCOVERY_TIMEOUT_SEC * 1000) (CoreTimer tok SERVICE_DISCOVERY_TIMER_ID) ?w
      = (x, w3)" by fastforce
  have "seeks w (Inl e, drop_receiver ch w3)" if "x = Inl e'" for e e'
    using x that g2 unfolding seeks_def
    by (intro exI [of _ ?w]) (auto simp: set_timeout_def drop_receiver_def sd_timers_def split: prod.splits bool.splits)
  moreover have "seeks w (Inr \<lparr>sm_rx = ch, sm_timeout = tm\<rparr>, w3)" if "x = Inr tm" for tm
    using x that g2 unfolding seeks_def
    by (intro exI [of _ ?w]) (auto simp: set_timeout_def sd_timers_def split: prod.splits bool.splits if_splits)
  moreover have "seeks w (Inl e, drop_receiver ch ?w)" for e
    using goes_ops(5) [OF g2, of ch] unfolding seeks_def by (intro exI [of _ "drop_receiver ch ?w"]) auto
  ultimately show ?thesis
    using Some sd c r x by (simp add: bs_seek_peers_def get_state_def Let_def split: sum.split)
qed

lemma bs_start_ok:
  assumes "fine w" and "w_states w BOOTSTRAP_TOKEN = None"
  shows "ok (bs_start E nh ext our bl BOOTSTRAP_TOKEN w) (\<lambda>r. moves w (snd r))"
proof -
  obtain c w1 where c: "cache_new w = (c, w1)" by fastforce
  have g1: "goes w w1" using goes_calls(5) [of w w, OF _ c] assms(1) by simp
  obtain x w2 where x: "set_timeout (BOOTSTRAP_TIMEOUT_SEC * 1000) (CoreTimer BOOTSTRAP_TOKEN BOOTSTRAP_TIMER_ID) w1
      = (x, w2)" by fastforce
  have g2: "goes w w2" using set_timeout_goes(1) [OF g1 x] by (simp add: ct_ok_def CoreTimer_def)
  obtain sd w3 where s: "bs_seek_peers BOOTSTRAP_TOKEN w2 = Some (sd, w3)" "seeks w2 (sd, w3)"
    using bs_seek_peers_ok [OF goesD(2) [OF g2], of BOOTSTRAP_TOKEN] by (auto simp: ok_def)
  from s(2) obtain w4 where w4: "goes w2 w4" "w_states w3 = w_states w4" "w_token_counter w3 = w_token_counter w4"
    "w_connects w3 = w_connects w4" "w_builders w3 = w_builders w4" "w_msgs w3 = w_msgs w4"
    "sd_timers w3 \<subseteq> sd_timers w4 \<union> (case sd of Inl e \<Rightarrow> {} | Inr m \<Rightarrow> {sm_timeout m})"
    by (auto simp: seeks_def)
  have g4: "goes w w4" by (rule goes_trans [OF g2 w4(1)])
  have "sd_timers w = {}" using assms by (simp add: fine_def sd_waits_def)
  then have e: "sd_timers w4 = {}" using g4 by (auto simp: goes_def)
  have ins: "bound w (b, insert_state BOOTSTRAP_TOKEN (StBootstrap b) w3)"
    if "bs_token b = BOOTSTRAP_TOKEN" "bs_children b = []" "bs_timer b = CoreTimer BOOTSTRAP_TOKEN BOOTSTRAP_TIMER_ID"
      "sd_timers w3 \<subseteq> meta_timers (bs_sd_meta b)" for b
    using moves_trans [OF goesD(1) [OF g4] moves_boot [OF goesD(2) [OF g4] w4(2-6), of "Some b"]] that
    by (simp add: bound_pair insert_state_def sd_timers_def)
  have m: "sd_timers w3 \<subseteq> meta_timers sm"
    if "sd = Inr m \<and> sm = Some m \<or> sd = Inl e' \<and> sm = None" for sm m e'
    using that w4(7) e by (auto simp: meta_timers_def)
  have put: "ok (Option.bind (begin_bootstrap E b v) (\<lambda>(self, w). Some (Inr () :: crust_error + unit, put_state (StBootstrap self) w)))
      (\<lambda>r. moves w (snd r))" if "bound w (b, v)" for b v
    by (rule ok_then [OF begin_bootstrap_ok [OF that]]) (simp add: moves_put_boot)
  show ?thesis
  proof (cases sd)
    case (Inl e)
    have "goes w w3" using goes_trans [OF g2 seeks_goes] s(2) Inl by simp
    with c x s(1) g1 g2 Inl put [OF ins] m [of undefined None e] goesD(1) show ?thesis
      by (auto simp: bs_start_def Let_def simp del: ok_simps(3) split: sum.split crust_error.split)
  next
    case (Inr sm)
    with c x s(1) g1 g2 ins m [of sm "Some sm"] goesD(1) show ?thesis
      by (auto simp: bs_start_def Let_def bound_pair split: sum.split)
  qed
qed

section \<open>Requests\<close>

definition msound :: "('s \<Rightarrow> 'u state) \<Rightarrow> 'u world \<Rightarrow> 's \<times> 'u world \<Rightarrow> bool" where
  "msound C w0 r \<longleftrightarrow> moves w0 (snd r) \<and> well (snd r) (C (fst r))"

lemma msound_pair: "msound C w0 (self, w) \<longleftrightarrow> moves w0 w \<and> well w (C self)"
  by (simp add: msound_def)

lemma ok_run_msound:
  assumes "ok r (msound C w0)" and "\<And>self. kind_of (C self) \<noteq> KBootstrap"
  shows "ok (run_state C r) (moves w0)"
proof -
  from assms(1) obtain self w where r: "r = Some (self, w)" "moves w0 w" "well w (C self)"
    by (auto simp: ok_def msound_def)
  have "goes w (put_state (C self) w)"
    by (rule goes_put [OF _ r(3) assms(2)]) (simp add: movesD(1) [OF r(2)])
  with r moves_trans [OF r(2) goesD(1)] show ?thesis by (simp add: run_state_def)
qed

locale safe_try_peer_finish =
  fixes fin :: "'u try_peer_fin"
  assumes fin_ok: "\<lbrakk>fine w; well w (StTryPeer self); \<And>so a u. r = Inr (so, a, u) \<Longrightarrow> sock_ok so\<rbrakk>
      \<Longrightarrow> ok (fin self r w) (moves w)"
begin

lemma fin_sound:
  assumes "msound StTryPeer w0 (self, w)" and "\<And>so a u. r = Inr (so, a, u) \<Longrightarrow> sock_ok so"
  shows "ok (Option.bind (fin self r w) (\<lambda>w. Some (self, w))) (msound StTryPeer w0)"
proof -
  have m: "moves w0 w" "well w (StTryPeer self)" using assms(1) by (simp_all add: msound_pair)
  have "ok (fin self r w) (moves w)" by (rule fin_ok [OF movesD(1) [OF m(1)] m(2) assms(2)])
  then obtain w' where w': "fin self r w = Some w'" "moves w w'" by (auto simp: ok_def)
  with moves_trans [OF m(1)] well_mono [OF m(2) movesD(2)] show ?thesis
    by (simp add: msound_pair del: well_simps)
qed

lemma terminate_sound:
  assumes "msound StTryPeer w0 (self, w)"
  shows "msound StTryPeer w0 (try_peer_terminate self w)" and "msound StTryPeer w0 (self, remove_state (tp_token self) w)"
proof -
  have m: "moves w0 w" "well w (StTryPeer self)" using assms by (simp_all add: msound_pair)
  have "goes w (remove_state (tp_token self) w)"
    by (rule goes_remove) (use movesD(1) [OF m(1)] m(2) in simp_all)
  from m moves_trans [OF m(1) goesD(1) [OF this]]
  show "msound StTryPeer w0 (try_peer_terminate self w)" "msound StTryPeer w0 (self, remove_state (tp_token self) w)"
    by (auto simp: msound_pair try_peer_terminate_def Let_def)
qed

lemma handle_error_sound:
  assumes "msound StTryPeer w0 (self, w)"
  shows "ok (try_peer_handle_error fin reason self w) (msound StTryPeer w0)"
  using fin_sound [of w0 "fst (try_peer_terminate self w)" "snd (try_peer_terminate self w)" "Inl (tp_peer self, reason)"]
    terminate_sound(1) [OF assms]
  by (simp add: try_peer_handle_error_def case_prod_beta del: ok_simps(3))

lemma write_sound:
  assumes "msound StTryPeer w0 (self, w)"
  shows "ok (try_peer_write E fin msg self w) (msound StTryPeer w0)"
proof -
  have "sock_ok (tp_socket self)" using assms by (simp add: msound_pair)
  then obtain r so where r: "socket_write (e_ser E) (w_now w) (tp_token self) msg (tp_socket self) = Some (r, so)"
    "sock_ok so"
    using sock_ok_write by (fastforce simp: ok_def)
  have "msound StTryPeer w0 (self\<lparr>tp_socket := so\<rparr>, w)" using assms r by (simp add: msound_pair)
  with r show ?thesis
    by (simp add: try_peer_write_def Let_def handle_error_sound split: sum.split)
qed

lemma read_sound:
  assumes "msound StTryPeer w0 (self, w)"
  shows "ok (try_peer_read E fin self w) (msound StTryPeer w0)"
proof -
  obtain r so where r: "socket_read (e_des E) (tp_socket self) = (r, so)" by fastforce
  have so: "sock_ok so" using sock_ok_read [OF r] assms by (simp add: msound_pair)
  have s: "msound StTryPeer w0 (self\<lparr>tp_socket := x\<rparr>, w)" if "sock_ok x" for x
    using assms that by (simp add: msound_pair)
  have "ok (Option.bind (fin (self\<lparr>tp_socket := socket_default\<rparr>) (Inr (so, tp_peer self, u)) (remove_state (tp_token self) w))
      (\<lambda>w. Some (self\<lparr>tp_socket := socket_default\<rparr>, w))) (msound StTryPeer w0)" for u
    by (rule fin_sound) (use terminate_sound(2) [OF s [of socket_default]] so in simp_all)
  with r s [OF so] show ?thesis
    by (simp add: try_peer_read_def Let_def handle_error_sound del: ok_simps(3)
        split: sum.split option.split message.split)
qed

lemma ready_sound:
  assumes "msound StTryPeer w0 (self, w)"
  shows "ok (try_peer_ready E fin kind self w) (msound StTryPeer w0)"
proof -
  have "msound StTryPeer w0 (self\<lparr>tp_request := None\<rparr>, w)" using assms by (simp add: msound_pair)
  from write_sound [OF this] show ?thesis
    unfolding try_peer_ready_def
    by (intro ok_if ok_then [OF ok_opt [where P = "msound StTryPeer w0"]] ok_opt)
      (simp_all add: assms handle_error_sound read_sound)
qed

end

interpretation request_safe: safe_try_peer_finish "bs_try_peer_fin E"
proof
  fix w :: "'a world" and self :: "'a try_peer"
    and r :: "(socket_addr \<times> bootstrap_deny_reason option) + (socket \<times> socket_addr \<times> 'a)"
  assume a: "fine w" "well w (StTryPeer self)" "\<And>so a u. r = Inr (so, a, u) \<Longrightarrow> sock_ok so"
  have "ok (Option.bind (bs_handle_result E (tp_token self) r p w)
      (\<lambda>(p, w). Some (put_state (StBootstrap p) w))) (moves w)"
    if "w_states w (tp_parent self) = Some (StBootstrap p)" for p
    by (rule ok_then [OF bs_handle_result_ok [OF bound_self [OF a(1) that]]]) (use a in \<open>simp_all add: moves_put_boot\<close>)
  then show "ok (bs_try_peer_fin E self r w) (moves w)"
    using a(1) by (simp add: bs_try_peer_fin_def get_state_def del: ok_simps(3) split: option.split state.split)
qed

end
