(* ===== verification/No_Panic.thy ===== *)
theory No_Panic
  imports Safe_Bootstrap Example
begin

text \<open>
  The event loop does not panic as long as the kernel grants the registration of the sockets it has
  connected or accepted. The dispatchers and the messages keep the invariant \<open>fine\<close>, and the loop as a
  step relation without any condition on the order or the readiness of the events.
\<close>

section \<open>Dispatch\<close>

text \<open>
  The poll delivers events for registered sources only: a connect without a listener has none of
  its own.
\<close>

fun listening :: "'u state \<Rightarrow> bool" where
  "listening (StConnect c) \<longleftrightarrow> cn_listener c \<noteq> None"
| "listening _ \<longleftrightarrow> True"

lemma ok_goes_moves: "ok r (goes w) \<Longrightarrow> ok r (moves w)"
  by (auto simp: ok_def dest: goesD)

lemma connect_ready_sound:
  "sound StConnect w0 (self, w) \<Longrightarrow> cn_listener self \<noteq> None \<Longrightarrow> ok (connect_ready kind self w) (sound StConnect w0)"
  unfolding connect_ready_def by (intro ok_opt connect_accept_sound)

lemma state_ready_ok:
  fixes s :: "'u::linorder state"
  assumes "fine w" and "w_states w t = Some s" and "listening s"
  shows "ok (state_ready E kind s w) (moves w)"
proof -
  have s: "C self = s \<Longrightarrow> sound C w (self, w)" for C :: "'s \<Rightarrow> 'u state" and self
    using fine_well [OF assms(1,2)] assms(1) by (auto simp: sound_pair)
  note run = ok_goes_moves [OF ok_run_state]
  show ?thesis
  proof (cases s)
    case (StActive a)
    with run [OF ac_handlers_sound(1) [OF s [of StActive]]] show ?thesis by simp
  next
    case (StCandidate c)
    with run [OF candidate_safe.ready_sound [OF s [of StCandidate]]] show ?thesis by simp
  next
    case (StConnectEx c)
    with run [OF attempt_safe.ready_sound [OF s [of StConnectEx]]] show ?thesis by simp
  next
    case (StConnect c)
    with run [OF connect_ready_sound [OF s [of StConnect]]] assms(3) show ?thesis by simp
  next
    case (StReach r)
    with run [OF reach_safe.ready_sound [OF s [of StReach]]] show ?thesis by simp
  next
    case (StListenEx e)
    with run [OF lex_handlers_sound(1) [OF s [of StListenEx]]] show ?thesis by simp
  next
    case (StListener l)
    with run [of "Some (listener_ready kind l w)" StListener w] listener_ready_sound [OF s [of StListener]]
    show ?thesis by simp
  next
    case (StTryPeer p)
    have "msound StTryPeer w (p, w)" using s [of StTryPeer] StTryPeer goesD(1) by (auto simp: sound_pair msound_pair)
    from ok_run_msound [OF request_safe.ready_sound [OF this]] StTryPeer show ?thesis by simp
  next
    case (StGetExtAddr g)
    with run [OF query_safe.ready_sound [OF s [of StGetExtAddr]]] show ?thesis by simp
  next
    case (StServiceDisc d)
    with run [of "Some (sd_ready E kind d w)" StServiceDisc w] sd_ready_sound [OF s [of StServiceDisc]]
    show ?thesis by simp
  qed (use assms(1) in simp_all)
qed

text \<open>A timer that fires is armed no longer; that of the search for peers finds the search on.\<close>

lemma state_timeout_ok:
  fixes s :: "'u state"
  assumes "fine w" and "w_states w t = Some s"
    and "kind_of s = KBootstrap \<Longrightarrow> tid \<noteq> BOOTSTRAP_TIMER_ID \<Longrightarrow> sd_waits w \<noteq> {} \<and> sd_timers w = {}"
  shows "ok (state_timeout E tid s w) (moves w)"
proof -
  have s: "C self = s \<Longrightarrow> sound C w (self, w)" for C :: "'s \<Rightarrow> 'u state" and self
    using fine_well [OF assms(1,2)] assms(1) by (auto simp: sound_pair)
  note run = ok_goes_moves [OF ok_run_state]
  show ?thesis
  proof (cases s)
    case (StActive a)
    with run [OF ac_handlers_sound(3) [OF s [of StActive]]] show ?thesis by simp
  next
    case (StConnect c)
    have "ok (connect_timeout c w) (sound StConnect w)"
      unfolding connect_timeout_def
      by (rule ok_mono [OF connect_terminate_sound [OF s [of StConnect]]]) (use StConnect in auto)
    with run [OF this] StConnect show ?thesis by simp
  next
    case (StReach r)
    with run [OF reach_safe.timeout_sound [OF s [of StReach]]] show ?thesis by simp
  next
    case (StListenEx e)
    with run [OF lex_handlers_sound(2) [OF s [of StListenEx]]] show ?thesis by simp
  next
    case (StBootstrap b)
    have t: "t = BOOTSTRAP_TOKEN"
      using fine_token [OF assms(1,2)] fine_well [OF assms(1,2)] StBootstrap by simp
    have "sd_waits w = meta_timers (bs_sd_meta b)" using assms(2) StBootstrap t by (simp add: sd_waits_def)
    then have "tid \<noteq> BOOTSTRAP_TIMER_ID \<Longrightarrow> bs_sd_meta b \<noteq> None \<and> sd_timers w = {}"
      using assms(3) StBootstrap by (auto simp: meta_timers_def)
    from bootstrap_timeout_ok [where E = E and tid = tid, OF bound_self [OF assms(1) assms(2) [unfolded StBootstrap]] this]
    obtain b' w' where "bootstrap_timeout E tid b w = Some (b', w')" "bound w (b', w')" by (auto simp: ok_def)
    with StBootstrap moves_put_boot show ?thesis by (simp add: run_state_def)
  next
    case (StMapped m)
    with ok_goes_moves [OF ok_run_leaves [OF mapping_safe.mapped_handlers_ok(3) [OF s [of StMapped]]]]
    show ?thesis by simp
  next
    case (StRefresher r)
    with run [of "Some (refresher_timeout E r w)" StRefresher w] refresher_timeout_sound [OF s [of StRefresher]]
    show ?thesis by simp
  qed (use assms(1) in simp_all)
qed

lemma fire_ok:
  assumes "fine w" and "w_timers w x = Some (ct, dl)"
  shows "ok (fire E ct (cancel_timeout x w)) (moves w)"
proof -
  let ?w = "cancel_timeout x w"
  have g: "goes w ?w" using goes_ops(3) [of w w] assms(1) by simp
  have t: "sd_timers ?w = sd_timers w - {x}" by (rule sd_timers_cancel)
  have "sd_waits ?w = sd_waits w" by (simp add: sd_waits_def)
  then have sub: "sd_timers w \<subseteq> sd_waits ?w" using assms(1) by (simp add: fine_def)
  have one: "sd_waits ?w \<subseteq> {y}" if "y \<in> sd_waits ?w" for y
    using that by (auto simp: sd_waits_def meta_timers_def split: option.splits state.splits)
  show ?thesis
  proof (cases "w_states ?w (state_id ct)")
    case (Some s)
    have "sd_waits ?w \<noteq> {} \<and> sd_timers ?w = {}" if "kind_of s = KBootstrap" "timer_id ct \<noteq> BOOTSTRAP_TIMER_ID"
    proof -
      have "state_id ct = BOOTSTRAP_TOKEN"
        using fine_token [OF goesD(2) [OF g] Some] fine_well [OF goesD(2) [OF g] Some] that(1)
        by (simp add: well_def home_def)
      then have "x \<in> sd_timers w" using assms(2) that(2) by (auto simp: sd_timers_def ct_ok_def)
      with sub one t show ?thesis by blast
    qed
    from state_timeout_ok [OF goesD(2) [OF g] Some this] have "ok (fire E ct ?w) (moves ?w)"
      using Some by (simp add: fire_def get_state_def)
    with moves_trans [OF goesD(1) [OF g]] show ?thesis by (auto simp: ok_def)
  qed (use goesD(1) [OF g] in \<open>simp add: fire_def get_state_def\<close>)
qed

lemma fire_all_ok: "fine w \<Longrightarrow> ok (fire_all E due w) (moves w)"
proof (induction due arbitrary: w)
  case (Cons x xs)
  show ?case
  proof (cases "w_timers w x")
    case (Some y)
    obtain ct dl where y: "y = (ct, dl)" by fastforce
    from fire_ok [OF Cons.prems Some [unfolded y], of E] obtain w1
      where w1: "fire E ct (cancel_timeout x w) = Some w1" "moves w w1" by (auto simp: ok_def)
    from Cons.IH [OF movesD(1) [OF w1(2)]] w1 Some y show ?thesis
      by (auto simp: ok_def intro: moves_trans)
  qed (use Cons in simp)
qed simp

section \<open>Messages\<close>

lemma state_terminate_ok:
  fixes s :: "'u state"
  assumes "fine w" and "w_states w t = Some s"
  shows "ok (state_terminate s w) (moves w)"
proof -
  have s: "C self = s \<Longrightarrow> sound C w (self, w)" for C :: "'s \<Rightarrow> 'u state" and self
    using fine_well [OF assms] assms(1) by (auto simp: sound_pair)
  have g: "sound C w r \<Longrightarrow> moves w (snd r)" for C :: "'s \<Rightarrow> 'u state" and r
    by (auto simp: sound_def dest: goesD)
  show ?thesis
  proof (cases s)
    case (StActive a)
    with g [OF ac_terminate_sound [OF s [of StActive]]] show ?thesis by simp
  next
    case (StCandidate c)
    with g [OF cand_terminate_sound [OF s [of StCandidate]]] show ?thesis by simp
  next
    case (StConnectEx c)
    with g [OF cex_terminate_sound [OF s [of StConnectEx]]] show ?thesis by simp
  next
    case (StConnect c)
    with ok_mono [OF connect_terminate_sound [OF s [of StConnect]]] g [of StConnect] show ?thesis by simp
  next
    case (StListenEx e)
    with ok_mono [OF lex_terminate_sound [OF s [of StListenEx]]] g [of StListenEx] show ?thesis by simp
  next
    case (StListener l)
    with s [of StListener] goes_remove [of w w LISTENER_TOKEN] show ?thesis
      by (auto simp: listener_terminate_def sound_pair dest: goesD)
  next
    case (StBootstrap b)
    with ok_mono [OF bs_terminate_safe [OF bound_self [OF assms(1) assms(2) [unfolded StBootstrap]]]] show ?thesis
      by (simp add: bound_def)
  next
    case (StMapped m)
    have "ok (mapped_terminate mapped_fin m w) (\<lambda>r. moves w (snd r))"
      by (rule ok_mono [OF mapping_safe.mapped_terminate_ok [OF s [of StMapped]]]) (use StMapped goesD(1) in auto)
    with StMapped show ?thesis by simp
  next
    case (StServiceDisc d)
    with s [of StServiceDisc] goes_remove [of w w SERVICE_DISCOVERY_TOKEN] show ?thesis
      by (auto simp: sd_terminate_def sound_pair dest: goesD)
  next
    case (StRefresher r)
    with s [of StRefresher] goes_remove [of w "cancel_timeout (rf_timeout r) w" CONFIG_REFRESHER_TOKEN] show ?thesis
      by (auto simp: refresher_terminate_def sound_pair dest: goesD)
  qed (use leaf_terminate_goes [THEN goesD(1), of w w] fine_well [OF assms] assms(1) in auto)
qed

lemma moves_event: "moves w w' \<Longrightarrow> moves w (send_event ev w')"
  using moves_trans [OF _ goesD(1) [OF goes_ops(1)]] movesD(1) by fastforce

lemma exec_msg_ok:
  assumes "fine w" and "msg_ok m"
  shows "ok (exec_msg E m w) (moves w)"
proof -
  have r: "goes w w" using assms(1) by simp
  have put: "goes w (put_state s' w)" if "well w s'" "kind_of s' \<noteq> KBootstrap" for s'
    by (rule goes_put [OF r that])
  have sd: "sd_token d = SERVICE_DISCOVERY_TOKEN" if "w_states w t = Some (StServiceDisc d)" for t d
    using fine_well [OF assms(1) that] by simp
  show ?thesis
  proof (cases m)
    case MsgStartConfigRefresher
    with refresher_start_goes [OF assms(1)] assms(1) show ?thesis
      by (intro ok_goes_moves) (auto simp: msg_start_config_refresher_def Let_def case_prod_beta)
  next
    case (MsgSetAcceptBootstrap b)
    have "goes w (put_state (StListener (listener_set_accept_bootstrap b l)) w)" if "w_states w t = Some (StListener l)" for t l
      by (rule put) (use fine_well [OF assms(1) that] in \<open>simp_all add: listener_set_accept_bootstrap_def\<close>)
    with MsgSetAcceptBootstrap r show ?thesis
      by (intro ok_goes_moves) (auto simp: msg_set_accept_bootstrap_def get_state_def split: option.split state.split)
  next
    case (MsgStartServiceDiscovery port)
    with sd_start_goes [OF assms(1)] r show ?thesis
      by (intro ok_goes_moves) (simp add: msg_start_service_discovery_def)
  next
    case (MsgSetServiceDiscoveryListen b)
    have "goes w (put_state (StServiceDisc (sd_set_listen b d)) w)" if "w_states w t = Some (StServiceDisc d)" for t d
      by (rule put) (use sd [OF that] in \<open>simp_all add: sd_set_listen_def\<close>)
    with MsgSetServiceDiscoveryListen r show ?thesis
      by (intro ok_goes_moves) (auto simp: msg_set_service_discovery_listen_def get_state_def split: option.split state.split)
  next
    case (MsgGetPeerAddr t)
    with r show ?thesis
      by (intro ok_goes_moves) (auto simp: msg_get_peer_addr_def split: option.split state.split)
  next
    case (MsgSeekPeers ch)
    have "goes w (put_state (StServiceDisc (snd (sd_seek_peers (sd_register_observer ch d)))) w)"
      if "w_states w t = Some (StServiceDisc d)" for t d
      by (rule put) (use sd [OF that] in
          \<open>auto simp: sd_seek_peers_def sd_register_observer_def split: prod.split sum.split\<close>)
    with MsgSeekPeers r show ?thesis
      by (intro ok_goes_moves) (auto simp: msg_seek_peers_def get_state_def split: option.split state.split)
  next
    case (MsgStartBootstrap nh ext u bl)
    with bs_start_ok [OF assms(1), of E nh ext u bl] assms(1) show ?thesis
      by (auto simp: msg_start_bootstrap_def get_state_def ok_def moves_event split: sum.split)
  next
    case (MsgTerminate t)
    with state_terminate_ok [OF assms(1)] assms(1) show ?thesis
      by (auto simp: msg_terminate_def get_state_def split: option.split)
  next
    case (MsgStartListener port force u nh)
    with ok_goes_moves [OF listener_start_ok [OF assms(1)]] assms(1) show ?thesis
      by (simp add: msg_start_listener_def)
  next
    case (MsgConnect our their nh)
    with connect_start_ok [OF assms(1), of our their nh] assms(2) goesD(1) show ?thesis
      by (auto simp: msg_connect_def ok_def)
  next
    case (MsgSend t bytes p)
    have "ok (state_write E bytes p s w) (moves w)" if "w_states w t = Some s" for s
      using ok_goes_moves [OF ok_run_state [OF ac_handlers_sound(2) [OF sound_self [where C = StActive, OF assms(1)]]]]
        assms(1) that by (cases s) simp_all
    with MsgSend assms(1) show ?thesis by (simp add: msg_send_def get_state_def split: option.split)
  next
    case (MsgPrepareInfo rt u ls)
    with mapping_safe.mapped_start_ok [OF assms(1), of 0 "MfConnInfo rt u ls"] show ?thesis
      by (intro ok_goes_moves) (auto simp: msg_prepare_info_def ok_def split: sum.split)
  next
    case (MsgIgdResp t a)
    have "ok (run_state StMapped (mapped_handle_igd_resp mapped_fin a x w)) (moves w)" if "w_states w t = Some (StMapped x)" for x
      using ok_goes_moves [OF ok_run_leaves [OF mapping_safe.mapped_handlers_ok(2) [OF sound_self [where C = StMapped, OF assms(1) that]]]]
      by simp
    with MsgIgdResp assms(1) show ?thesis
      by (simp add: msg_igd_resp_def get_state_def split: option.split state.split)
  qed (use assms(1) in simp)
qed

section \<open>The loop\<close>

definition deliverable :: "loop_event \<Rightarrow> 'u world \<Rightarrow> bool" where
  "deliverable ev w \<longleftrightarrow>
     (case ev of EvState t kind \<Rightarrow> (case w_states w t of Some s \<Rightarrow> listening s | None \<Rightarrow> True) | _ \<Rightarrow> True)"

lemma run_core_msgs_ok:
  "fine w \<Longrightarrow> \<forall>m \<in> set ms. msg_ok m \<Longrightarrow> ok (run_core_msgs E ms w) (\<lambda>r. moves w (snd r))"
proof (induction ms arbitrary: w)
  case (Cons m ms)
  show ?case
  proof (cases "m = MsgExit")
    case True
    have "goes w (w\<lparr>w_running := False\<rparr>)"
      by (rule goes_quiet) (use Cons.prems(1) in \<open>auto simp: sd_timers_def fine_def outside_def\<close>)
    with True goesD(1) show ?thesis by simp
  next
    case False
    then have r: "run_core_msgs E (m # ms) w = Option.bind (exec_msg E m w) (run_core_msgs E ms)"
      by (cases m) simp_all
    from exec_msg_ok [OF Cons.prems(1), of m E] Cons.prems(2) obtain w1
      where w1: "exec_msg E m w = Some w1" "moves w w1" by (auto simp: ok_def)
    from Cons.IH [OF movesD(1) [OF w1(2)]] Cons.prems(2) w1 r show ?thesis
      by (auto simp: ok_def intro: moves_trans)
  qed
qed simp

lemma loop_step_ok:
  assumes "fine w" and "deliverable ev w"
  shows "ok (loop_step E ev w) (\<lambda>r. moves w (snd r))"
proof (cases ev)
  case (EvChannel kind)
  let ?w = "w\<lparr>w_msgs := []\<rparr>"
  have g: "goes w ?w" by (rule goes_quiet) (use assms(1) in \<open>simp_all add: sd_timers_def\<close>)
  have "\<forall>m \<in> set (w_msgs w). msg_ok m" using assms(1) by (simp add: fine_def outside_def)
  from run_core_msgs_ok [OF goesD(2) [OF g] this, of E] have "ok (run_core_msgs E (w_msgs w) ?w) (\<lambda>r. moves w (snd r))"
    by (rule ok_mono) (rule moves_trans [OF goesD(1) [OF g]])
  with EvChannel assms(1) show ?thesis by (simp add: loop_step_def)
next
  case (EvTimer kind due)
  with fire_all_ok [OF assms(1)] assms(1) show ?thesis
    by (simp add: loop_step_def handle_timer_def)
next
  case (EvState t kind)
  with state_ready_ok [OF assms(1)] assms show ?thesis
    by (simp add: loop_step_def handle_event_def get_state_def deliverable_def split: option.splits)
qed

text \<open>
  The loop with its surroundings: it handles an event that the poll delivers, and between two events
  the callers post messages, gateways answer, the service sends events of its own and time passes. There is
  no condition on the order of the events or on what is ready at once.
\<close>

inductive loop_move :: "'u::linorder env \<Rightarrow> 'u world \<Rightarrow> 'u world \<Rightarrow> bool" for E where
  event: "\<lbrakk>deliverable ev w; loop_step E ev w = Some (True, w')\<rbrakk> \<Longrightarrow> loop_move E w w'"
| call: "msg_ok m \<Longrightarrow> loop_move E w (snd (post m w))"
| gateway: "w_igd w = xs @ (t, g, a) # ys \<Longrightarrow>
    loop_move E w (snd (post (MsgIgdResp t ext) (w\<lparr>w_igd := xs @ ys\<rparr>)))"
| gateway_failed: "w_igd w = xs @ r # ys \<Longrightarrow> loop_move E w (w\<lparr>w_igd := xs @ ys\<rparr>)"
| event_sent: "loop_move E w (send_event ev w)"
| clock: "w_now w \<le> n \<Longrightarrow> loop_move E w (w\<lparr>w_now := n\<rparr>)"

inductive_cases loop_moveE: "loop_move E w w'"

lemma post_fine: "fine w \<Longrightarrow> msg_ok m \<Longrightarrow> fine (snd (post m w))"
  by (rule goesD(2), rule goes_quiet [of w]) (auto simp: post_def sd_timers_def fine_def outside_def)

lemma loop_move_fine:
  assumes "loop_move E w w'" and "fine w"
  shows "fine w'"
  using assms(1)
proof cases
  case (event ev)
  with loop_step_ok [OF assms(2), of ev E] movesD(1) show ?thesis by (auto simp: ok_def)
next
  case (gateway xs t g a ys ext)
  have "fine (w\<lparr>w_igd := xs @ ys\<rparr>)" using goesD(2) [OF goes_ops(9) [of w w]] assms(2) by simp
  from post_fine [OF this, of "MsgIgdResp t ext"] gateway show ?thesis by simp
qed (use assms(2) post_fine goesD(2) [OF goes_ops(9) [of w w]] goesD(2) [OF goes_ops(1) [of w w]]
      goesD(2) [OF goes_ops(11) [of w w]] in auto)

lemma loop_moves_fine: "(loop_move E)\<^sup>*\<^sup>* w w' \<Longrightarrow> fine w \<Longrightarrow> fine w'"
  by (induction rule: rtranclp_induct) (auto intro: loop_move_fine)

text \<open>The answers with which the kernel grants the registration of every connected or accepted stream.\<close>

definition kernel_grants :: "'u world \<Rightarrow> bool" where
  "kernel_grants w \<longleftrightarrow> (\<forall>st. Inr st \<in> set (w_connects w) \<longrightarrow> ts_poll st = []) \<and>
     (\<forall>b l st. Inr b \<in> set (w_builders w) \<longrightarrow> tb_listen b = Inr l \<longrightarrow> Inr st \<in> set (tl_accepts l) \<longrightarrow>
        ts_poll st = [])"

lemma with_config_fine:
  assumes "with_config sha3 ifs search p config our_uid w0 = Inr (sv, w)" and "kernel_grants w0"
  shows "fine w"
proof -
  have w: "w_states w = Map.empty" "w_token_counter w = 6" "w_msgs w = [MsgStartConfigRefresher]"
    using with_config_world [OF assms(1)] by simp_all
  have "w_timers w = Map.empty" "w_connects w = w_connects w0" "w_builders w = w_builders w0"
    using assms(1)
    by (auto simp: with_config_def spawn_event_loop_def start_config_refresher_def post_def Let_def
        split: sum.splits option.splits prod.splits)
  with w assms(2) show ?thesis
    by (simp add: fine_def outside_def kernel_grants_def granted_def tb_ok_def tl_ok_def sd_timers_def FIRST_TOKEN_def)
qed

text \<open>
  C3 The event loop does not panic. In a service whose kernel grants the registration of the
  streams it connects and accepts, whatever the loop has handled so far, in whatever order and with
  whatever readiness, every further event that the poll delivers (a socket event, expired timers, or
  the messages in the channel) is handled to its end: no \<open>unwrap!\<close>, no failed downcast and no
  double borrow of a candidate. Messages may carry any arguments, as long as a socket for hole punching is
  one that the kernel grants too.
\<close>

theorem event_loop_does_not_panic:
  assumes "with_config sha3 ifs search p config our_uid w0 = Inr (sv, w1)" and "kernel_grants w0"
    and "(loop_move E)\<^sup>*\<^sup>* w1 w" and "deliverable ev w"
  shows "\<exists>go w'. loop_step E ev w = Some (go, w')"
  using loop_step_ok [OF loop_moves_fine [OF assms(3) with_config_fine [OF assms(1,2)]] assms(4), of E]
  by (auto simp: ok_def)

lemma ex_loop_steps:
  "loop_step ex_env (EvChannel rd) (snd ex_new) = Some (True, ex_started)"
  "loop_step ex_env (EvChannel rd) (snd (post ex_connect_msg ex_started)) = Some (True, ex_connecting)"
  "loop_step ex_env (EvState 7 wr) ex_connecting = Some (True, ex_asked)"
  "loop_step ex_env (EvState 7 rd) ex_asked = Some (True, ex_candidate)"
  by (simp_all add: loop_step_def eval)

lemma ex_loop_moves: "(loop_move ex_env)\<^sup>*\<^sup>* (snd ex_new) ex_candidate"
proof -
  have d: "deliverable (EvChannel rd) w" for w :: "nat world" by (simp add: deliverable_def)
  have "deliverable (EvState 7 wr) ex_connecting" "deliverable (EvState 7 rd) ex_asked" "msg_ok ex_connect_msg"
    by (simp_all add: deliverable_def eval)
  from loop_move.event [OF d ex_loop_steps(1)] loop_move.call [OF this(3), of ex_env ex_started]
    loop_move.event [OF d ex_loop_steps(2)] loop_move.event [OF this(1) ex_loop_steps(3)]
    loop_move.event [OF this(2) ex_loop_steps(4)]
  show ?thesis by (meson converse_rtranclp_into_rtranclp rtranclp.rtrancl_refl)
qed

theorem event_loop_does_not_panic_witness:
  "(loop_move ex_env)\<^sup>*\<^sup>* (snd ex_new) ex_candidate \<and> deliverable (EvState 7 rdwr) ex_candidate \<and>
   (\<exists>go w'. loop_step ex_env (EvState 7 rdwr) ex_candidate = Some (go, w'))"
proof (intro conjI event_loop_does_not_panic)
  show "with_config (\<lambda>_. []) (Inr []) (\<lambda>_. None) None config_default 20
      (ex_world [Inr (ex_tcp [Inr (ex_frame [2, 9])] [])]) = Inr (fst ex_new, snd ex_new)"
    by (simp only: ex_new_eq prod.collapse)
  show "kernel_grants (ex_world [Inr (ex_tcp [Inr (ex_frame [2, 9])] [])])"
    by (simp add: kernel_grants_def ex_world_def ex_tcp_def)
  show "deliverable (EvState 7 rdwr) ex_candidate" "deliverable (EvState 7 rdwr) ex_candidate"
    by (simp_all add: deliverable_def eval)
qed (rule ex_loop_moves)+

end
