(* ===== verification/Spec2Isabelle.thy ===== *)
theory Spec2Isabelle
  imports ConnMap_Spec Service_Facts Net_Facts Startup_Facts Defects Peer_Facts Peer_Threads No_Panic
begin

text \<open>
  A verification of crust, the peer-to-peer connection library of this repository.

  \<^bold>\<open>The program.\<close> A \<open>Service\<close> (\<open>src/main/service.rs\<close>) belongs to the user. It owns one event loop
  (\<open>src/common/core.rs\<close>), a thread with a table of states under tokens, timers, and a
  queue of closures that the service posts to it. Everything that happens on the network happens in a
  state of the loop, a state machine with the methods \<open>ready\<close>, \<open>timeout\<close>, \<open>write\<close> and \<open>terminate\<close>
  (\<open>src/common/state.rs\<close>). All states share the connection map (\<open>src/main/types.rs\<close>), which has for
  every peer the number of handshakes in flight and the token of its active connection, and talk over
  the message socket (\<open>src/common/socket.rs\<close>). To connect, both ends exchange connection information
  outside crust; \<open>Connect\<close> then starts one \<open>ExchangeMsg\<close> per address, each of which becomes a
  \<open>ConnectionCandidate\<close> and at most one of which becomes the \<open>ActiveConnection\<close>. On the other side the
  \<open>ConnectionListener\<close> accepts sockets, each of them handled by an \<open>ExchangeMsg\<close> of its own, which
  admits a peer or denies it, if need be after a \<open>CheckReachability\<close>. \<open>Bootstrap\<close> finds a first peer from its
  cache, the configuration and service discovery. The user hears \<open>Event\<close>s.

  \<^bold>\<open>Conventions.\<close> A panic of the source is \<open>None\<close> of an option, an \<open>Err\<close> is \<open>Inl\<close> of a sum, a struct is a
  record and an enum a datatype. A method takes its state and the world (record \<open>world\<close> in \<open>World\<close>) and returns
  both; the dispatcher writes the state back under its token unless the method removed it, which is
  what the reference cell of the source does. A closure handed to another component is a
  constructor of a datatype (\<open>core_msg\<close>, \<open>cand_finish\<close>, \<open>mapped_finish\<close>) and a function that runs it.
  The operating system and the crates that do input and output answer from lists in the world (what a
  \<open>read\<close>, an \<open>accept\<close>, a registration, a bind, a file gives next), so that a theorem about all worlds is a
  theorem about all their answers. The codecs, the shuffle and the iteration order of hash
  maps are the functions of the record \<open>env\<close>. \<open>usize\<close> counters are 64-bit words and wrap; tokens and
  timer identifiers are natural numbers, and the steps below keep the token counter below \<open>2 ^ 64\<close>.
  No definition uses fuel: each loop of the source is a recursion with a termination proof, over the
  answers that are left (\<open>read_loop\<close>, \<open>ac_read\<close>, \<open>connect_accept\<close>, \<open>listener_accept\<close>) or the ports that
  are left (\<open>get_socket\<close>); the event loop itself runs over a finite list of events.

  \<^bold>\<open>The theories.\<close>
  \<^item> \<open>Prelude\<close>, \<open>Net_Addr\<close>, \<open>Errors\<close>, \<open>Types\<close>: integers, generic facts, addresses, the error types, messages,
    events, configuration (\<open>config_handler.rs\<close>) and the objects of the kernel.
  \<^item> \<open>Socket\<close>: \<open>src/common/socket.rs\<close>. \<open>Socket_Facts\<close> proves that what is written is read, complete and in order,
    under every splitting of the stream, and characterises priorities, expiry and registration.
  \<^item> \<open>ConnMap\<close>: the four updates of the connection map and the locale \<open>registry\<close>, its contract.
    \<open>ConnMap_Spec\<close> shows that the map refines an abstract ledger.
  \<^item> \<open>World\<close>: the records of all states, the world and the operations of \<open>Core\<close>.
  \<^item> \<open>Active\<close> (\<open>active_connection.rs\<close>), \<open>Candidate\<close> (\<open>connection_candidate.rs\<close>), \<open>ConnectEx\<close> and \<open>Connect\<close>
    (\<open>connect/\<close>), \<open>Listener\<close>, \<open>ListenEx\<close> and \<open>Reach\<close> (\<open>connection_listener/\<close>), \<open>Bootstrap\<close> and \<open>TryPeer\<close>
    (\<open>bootstrap/\<close>), \<open>Refresher\<close> (\<open>config_refresher.rs\<close>), \<open>Mapped\<close>, \<open>GetExtAddr\<close> and \<open>NatUtil\<close> (\<open>src/nat/\<close>),
    \<open>ServiceDisc\<close> (\<open>src/service_discovery/\<close>), \<open>Kids\<close> (the loops that terminate children): one
    definition per method, and how it keeps the accounting of \<open>Accounting\<close>. The locales
    \<open>candidate_finish\<close>, \<open>connect_ex_finish\<close> and \<open>mapped_finish_law\<close> are the contracts between a child and
    the closure of its parent; each is interpreted on the closures of the code.
  \<^item> \<open>Dispatch\<close>: the methods of the \<open>State\<close> trait over all kinds of states, and timers. \<open>Service\<close>: the methods of the service
    and the closures that they post. \<open>EventLoop\<close>: \<open>event_loop_impl\<close>, the relation \<open>clean_step\<close> and the
    predicate \<open>reachable\<close>.
  \<^item> \<open>Example\<close>: a concrete codec and a run in which two nodes connect, used as witness throughout.
    \<open>Active_Facts\<close>, \<open>Handshake_Facts\<close>, \<open>Service_Facts\<close>, \<open>Startup_Facts\<close>: what the components promise.
  \<^item> \<open>IfAddrs\<close>: \<open>src/common/get_if_addrs.rs\<close> for both families of systems, \<open>Net_Facts\<close> its correctness and that of
    the classification of addresses in \<open>src/nat/util.rs\<close>.
    The mapping context of \<open>Mapped\<close> is built from the interfaces that it returns.
  \<^item> \<open>Safe_World\<close>, \<open>Safe_States\<close>, \<open>Safe_Parents\<close>, \<open>Safe_Services\<close>, \<open>Safe_Bootstrap\<close>: the invariant \<open>fine\<close> of the loop
    (which states sit where, which children a parent lists, which timers are armed) and that every
    method has a result that keeps it. Its locales (\<open>safe_cand_finish\<close>, \<open>safe_cex_finish\<close>, \<open>safe_reach_finish\<close>,
    \<open>safe_get_ext_finish\<close>, \<open>safe_mapped_finish\<close>, \<open>safe_try_peer_finish\<close>) are what a child needs of the closure of its
    parent to be safe. \<open>No_Panic\<close> concludes that no event makes the loop panic.
  \<^item> \<open>CrustPeer\<close>: the node of \<open>examples/crust_peer.rs\<close> with its command line, its speed test and the locks of
    its two threads. \<open>Peer_Facts\<close>: its table of peers. \<open>Peer_Threads\<close>: the lines of input that end it,
    the pairs of event and command on which it hangs, and the rate of the speed test.
  \<^item> \<open>Defects\<close>: runs and lemmas that show where the code goes wrong.

  \<^bold>\<open>What is shown of the system.\<close> \<open>reachable\<close> worlds are those that a new service gets to by steps of
  \<open>clean_step\<close>: any interleaving of socket events, timers, posted messages, calls of the user, answers of
  gateways and the clock. In all of them the handshake counters are the number of states that
  handshake, active entries name live connections, attempts have exactly one parent, tokens are
  well typed and the counters do not wrap (this theory). The steps exclude, by \<open>clean_ready\<close> and
  \<open>clean_timeout\<close>, the situations in which the code miscounts: an event that is readable and writable at
  once for a state that is still handshaking, a second message or a late reachability result for a listener
  exchange that has already decided, and a bootstrap that is granted by a peer with an entry in the map. They also
  exclude panics, and start from a timer that never refuses. \<open>Defects\<close> has reachable worlds, with the
  sockets registered for exactly these events, in which the excluded step breaks the accounting,
  so the conditions are needed.
  Panic freedom is shown without these conditions (\<open>No_Panic\<close>), for every event that the poll delivers,
  under two hypotheses: the kernel grants the registration of connected and accepted streams, and a
  connect hears of its listener only when it has one. \<open>Defects\<close> has the panics that occur when a
  registration is refused. It also shows that a peer that keeps silent after its first message
  blocks every later connect to the identifier it gave.

  \<^bold>\<open>Not modelled.\<close> The threads, the polling and the timer wheel of mio (their events are inputs); the crates
  for serialisation, random numbers, hashing, gateways and command lines (parameters);
  names of files and \<open>write_config_file\<close>, which only tests use; the borrows of reference cells other
  than the one that fails in \<open>connection_candidate.rs\<close>; the poisoning of the locks of the example and its
  random identifiers; logging; the module
  declarations of \<open>lib.rs\<close> and the \<open>mod.rs\<close> files; and the tests. Time passes only between steps, and a failed
  allocation is no outcome.
\<close>

section \<open>The system\<close>

text \<open>
  C1 The connection map counts correctly. In every world that a service reaches by clean steps (any
  interleaving of events, timers, messages and calls) the number of handshakes recorded for a
  peer is exactly the number of states in the event loop that are handshaking with it, and a peer
  has an entry exactly when there is such a state or an active connection.
\<close>

theorem handshake_accounting:
  assumes "reachable E w"
  shows "cm_handshakes (w_cm w) u = live w u \<and>
    (w_cm w u = None \<longleftrightarrow> live w u = 0 \<and> cm_active (w_cm w) u = None)"
  using sys_entry(1,2) [OF reachable_sys [OF assms]] by blast

theorem handshake_accounting_witness:
  "cm_handshakes (w_cm ex_asked) 9 = live ex_asked 9 \<and> live ex_asked 9 = 1"
  using handshake_accounting [OF ex_reachable(2), of 9] by (auto simp: ex_asked cm_handshakes_def)



text \<open>
  C7 No attempt is orphaned: every outgoing attempt or candidate in the loop is a child of exactly one
  live connect, which is a connect to the same peer, so the connect's timeout reaches it.
\<close>

theorem attempts_have_one_parent:
  assumes "reachable E w" and "w_states w t = Some s" and "child_of s = Some (p, u)"
  shows "\<exists>c. w_states w p = Some (StConnect c) \<and> t \<in> set (cn_children c) \<and> cn_their_id c = u \<and>
    (\<forall>p' c'. w_states w p' = Some (StConnect c') \<and> t \<in> set (cn_children c') \<longrightarrow> p' = p)"
proof -
  note l = sysD(2) [OF reachable_sys [OF assms(1)]]
  from linksD(1) [OF l assms(2,3)] obtain c where
    c: "w_states w p = Some (StConnect c)" "t \<in> set (cn_children c)" "cn_their_id c = u"
    by (auto simp: parent_ok_def)
  moreover have "p' = p" if "w_states w p' = Some (StConnect c')" "t \<in> set (cn_children c')" for p' c'
    using linksD(2) [OF l that(1) _ that(2) assms(2)] assms(3) by simp
  ultimately show ?thesis by blast
qed

theorem attempts_have_one_parent_witness:
  "\<exists>c. w_states ex_candidate 6 = Some (StConnect c) \<and> 7 \<in> set (cn_children c) \<and> cn_their_id c = 9"
proof -
  obtain c where c: "w_states ex_candidate 7 = Some (StCandidate c)" "cc_finish c = FinConnect 6" "cc_their_id c = 9"
    by (simp add: eval)
  then have "child_of (StCandidate c) = Some (6, 9)" by simp
  from attempts_have_one_parent [OF ex_reachable(3) c(1) this] show ?thesis by blast
qed





end
